theory Spec2Isabelle
  imports Complex_Main "HOL-Library.AList" "HOL-Library.Sublist" "HOL-Library.Log_Nat"
begin

section \<open>The retrieval datasets of \<^verbatim>\<open>baselines/mixture_embedding_experts/retrieval_dataset.py\<close>\<close>

text \<open>
  The module defines two dataset classes (\<^verbatim>\<open>RetrievalDataset\<close> for training,
  \<^verbatim>\<open>RetrievalEvalDataset\<close> for evaluation), a collate function and a function moving a
  batch to a device. Each Python function becomes a HOL function of the same name; an
  exception is a value \<open>Inl e\<close> of the result type \<open>py_error + 'a\<close>.
\<close>

subsection \<open>Python values and exceptions\<close>

datatype py_error =
    IndexError
  | KeyError string
  | AssertionError
  | AttributeError
  | OSError string
  | RuntimeError
  | ValueError
  | OverflowError

text \<open>
  Array elements are floating-point numbers. The model keeps their real value and the one
  special value the code can produce itself: the mean of zero rows is NaN. Rounding and
  infinities are not modelled for them. The data ratio is a float as well, and there the
  rounding decides how many records are kept: it is a double, defined below.
\<close>

datatype pyfloat = NaN | Fin real

fun fbin :: "(real \<Rightarrow> real \<Rightarrow> real) \<Rightarrow> pyfloat \<Rightarrow> pyfloat \<Rightarrow> pyfloat" where
  "fbin f (Fin a) (Fin b) = Fin (f a b)"
| "fbin f _ _ = NaN"

definition fsum :: "pyfloat list \<Rightarrow> pyfloat" where
  "fsum xs = foldr (fbin (+)) xs (Fin 0)"

text \<open>\<^verbatim>\<open>xs[index]\<close> on a list of length \<open>n\<close>: the positions \<open>0\<close> to \<open>n - 1\<close> are read
  directly, the positions \<open>- n\<close> to \<open>- 1\<close> are read from the end, and every other position
  raises IndexError.\<close>

definition py_index :: "'a list \<Rightarrow> int \<Rightarrow> py_error + 'a" where
  "py_index xs i =
     (if 0 \<le> i \<and> i < int (length xs) then Inr (xs ! nat i)
      else if i < 0 \<and> - i \<le> int (length xs) then Inr (xs ! nat (int (length xs) + i))
      else Inl IndexError)"

text \<open>\<^verbatim>\<open>xs[:n]\<close> on a list, for an integer \<open>n\<close>: a negative stop drops that many
  elements from the end.\<close>

definition py_slice_to :: "int \<Rightarrow> 'a list \<Rightarrow> 'a list" where
  "py_slice_to n xs =
     (if 0 \<le> n then take (nat n) xs else take (length xs - nat (- n)) xs)"

subsection \<open>Floats in arithmetic\<close>

text \<open>
  A Python float is an IEEE 754 double: a finite number \<open>m * 2 ^ e\<close> with integers \<open>m\<close> and
  \<open>e\<close>, an infinity, or NaN. In a double \<open>\<bar>m\<bar> < 2 ^ 53\<close> and \<open>- 1074 \<le> e \<le> 971\<close>; a number
  has several such pairs, and every operation below depends on the number only. The sign of
  a zero is not kept: no operation below reads it.
\<close>

datatype pydouble = Dbl int int | PInf | NInf | DNaN

definition dval :: "int \<Rightarrow> int \<Rightarrow> real" where
  "dval m e = of_int m * 2 powi e"

definition is_double :: "pydouble \<Rightarrow> bool" where
  "is_double x =
     (case x of
        Dbl m e \<Rightarrow> \<bar>m\<bar> < 2 ^ 53 \<and> - 1074 \<le> e \<and> e \<le> 971
      | PInf \<Rightarrow> True
      | NInf \<Rightarrow> True
      | DNaN \<Rightarrow> True)"

text \<open>\<open>m / 2 ^ k\<close> rounded to the nearest integer, a tie to the even one.\<close>

definition shift_round :: "int \<Rightarrow> nat \<Rightarrow> int" where
  "shift_round m k =
     (let q = m div 2 ^ k; r = m mod 2 ^ k
      in if 2 ^ k < 2 * r \<or> (2 * r = 2 ^ k \<and> odd q) then q + 1 else q)"

text \<open>
  The double nearest to the number \<open>m * 2 ^ e\<close>, as every arithmetic operation rounds its
  exact result: the number is cut to 53 significant bits, and to the exponent \<open>- 1074\<close> of
  the subnormal doubles if it is smaller; a result of \<open>2 ^ 1024\<close> or more in magnitude is an
  infinity.
\<close>

definition round_double :: "int \<Rightarrow> int \<Rightarrow> pydouble" where
  "round_double m e =
     (let k = nat (max (bitlen \<bar>m\<bar> - 53) (- 1074 - e));
          m' = shift_round \<bar>m\<bar> k;
          e' = e + int k
      in if m' \<noteq> 0 \<and> 1024 < bitlen m' + e' then (if m < 0 then NInf else PInf)
         else Dbl (if m < 0 then - m' else m') e')"

text \<open>\<^verbatim>\<open>float(n)\<close> on the length of a list, the conversion that \<^verbatim>\<open>n * x\<close> makes of an
  integer \<open>n\<close> for a float \<open>x\<close>: OverflowError for an integer too large for a double.\<close>

definition float_of_nat :: "nat \<Rightarrow> py_error + pydouble" where
  "float_of_nat n =
     (case round_double (int n) 0 of
        Dbl m e \<Rightarrow> Inr (Dbl m e)
      | PInf \<Rightarrow> Inl OverflowError
      | NInf \<Rightarrow> Inl OverflowError
      | DNaN \<Rightarrow> Inl OverflowError)"

definition is_zero :: "pydouble \<Rightarrow> bool" where
  "is_zero x = (case x of Dbl m e \<Rightarrow> m = 0 | PInf \<Rightarrow> False | NInf \<Rightarrow> False | DNaN \<Rightarrow> False)"

definition is_neg :: "pydouble \<Rightarrow> bool" where
  "is_neg x = (case x of Dbl m e \<Rightarrow> m < 0 | PInf \<Rightarrow> False | NInf \<Rightarrow> True | DNaN \<Rightarrow> False)"

text \<open>\<^verbatim>\<open>x * y\<close> on floats: the rounded product of two finite numbers; with an infinity or
  NaN among the factors, NaN if a factor is NaN or zero, and otherwise the infinity of the
  sign of the product.\<close>

fun dmul :: "pydouble \<Rightarrow> pydouble \<Rightarrow> pydouble" where
  "dmul (Dbl m1 e1) (Dbl m2 e2) = round_double (m1 * m2) (e1 + e2)"
| "dmul x y =
     (if x = DNaN \<or> y = DNaN \<or> is_zero x \<or> is_zero y then DNaN
      else if is_neg x = is_neg y then PInf else NInf)"

text \<open>\<^verbatim>\<open>int(x)\<close> on a float truncates towards zero, and raises OverflowError for an
  infinity and ValueError for NaN.\<close>

definition py_int :: "pydouble \<Rightarrow> py_error + int" where
  "py_int x =
     (case x of
        Dbl m e \<Rightarrow>
          Inr (if 0 \<le> e then m * 2 ^ nat e
               else if 0 \<le> m then m div 2 ^ nat (- e)
               else - ((- m) div 2 ^ nat (- e)))
      | PInf \<Rightarrow> Inl OverflowError
      | NInf \<Rightarrow> Inl OverflowError
      | DNaN \<Rightarrow> Inl ValueError)"

text \<open>\<^verbatim>\<open>x != 1\<close> on a float is false exactly for the number 1.\<close>

definition is_one :: "pydouble \<Rightarrow> bool" where
  "is_one x =
     (case x of Dbl m e \<Rightarrow> dval m e = 1 | PInf \<Rightarrow> False | NInf \<Rightarrow> False | DNaN \<Rightarrow> False)"

subsection \<open>Strings\<close>

text \<open>\<^verbatim>\<open>p in s\<close> on strings: \<open>p\<close> occurs in \<open>s\<close> as a contiguous substring.\<close>

fun is_substr :: "string \<Rightarrow> string \<Rightarrow> bool" where
  "is_substr p [] = (p = [])"
| "is_substr p (c # cs) = (prefix p (c # cs) \<or> is_substr p cs)"

text \<open>\<^verbatim>\<open>str(i)\<close> on an integer: its decimal digits, with a minus sign when negative.\<close>

fun str_nat :: "nat \<Rightarrow> string" where
  "str_nat n =
     (if n < 10 then [''0123456789'' ! n]
      else str_nat (n div 10) @ [''0123456789'' ! (n mod 10)])"

declare str_nat.simps [simp del]

definition py_str :: "int \<Rightarrow> string" where
  "py_str i = (if i < 0 then CHR ''-'' # str_nat (nat (- i)) else str_nat (nat i))"

text \<open>\<^verbatim>\<open>s.replace(old, new)\<close>: every occurrence of \<open>old\<close>, found from the left and
  not overlapping, is replaced; for an empty \<open>old\<close>, \<open>new\<close> is put before every character
  and at the end.\<close>

function py_replace :: "string \<Rightarrow> string \<Rightarrow> string \<Rightarrow> string" where
  "py_replace old new s =
     (if old = [] then concat (map (\<lambda>c. new @ [c]) s) @ new
      else if s = [] then []
      else if prefix old s then new @ py_replace old new (drop (length old) s)
      else hd s # py_replace old new (tl s))"
  by pat_completeness auto
termination
  by (relation "measure (\<lambda>(old, new, s). length s)") auto

declare py_replace.simps [simp del]

subsection \<open>Arrays and feature stores\<close>

text \<open>
  A feature store (an open \<^verbatim>\<open>h5py.File\<close>) maps a key to a two-dimensional array of shape
  \<open>(nrows, ncols)\<close>. The number of columns is kept beside the rows, since an array with no
  row still has it. A one-dimensional array is the list of its elements.
\<close>

record array2 =
  ncols :: nat
  rows :: "pyfloat list list"

type_synonym h5file = "string \<rightharpoonup> array2"

definition wf_array2 :: "array2 \<Rightarrow> bool" where
  "wf_array2 a = list_all (\<lambda>r. length r = ncols a) (rows a)"

text \<open>\<^verbatim>\<open>h5[key]\<close> raises KeyError for a key that is not in the file.\<close>

definition h5_lookup :: "h5file \<Rightarrow> string \<Rightarrow> py_error + array2" where
  "h5_lookup h k = (case h k of None \<Rightarrow> Inl (KeyError k) | Some a \<Rightarrow> Inr a)"

text \<open>\<^verbatim>\<open>a[:n]\<close> along the first axis, where \<open>n\<close> is a maximum length: the first \<open>n\<close>
  rows, or all rows when \<open>n\<close> is \<^verbatim>\<open>None\<close>. Maximum lengths are counts, hence naturals.\<close>

definition slice_rows :: "nat option \<Rightarrow> array2 \<Rightarrow> array2" where
  "slice_rows n a = (case n of None \<Rightarrow> a | Some k \<Rightarrow> a\<lparr>rows := take k (rows a)\<rparr>)"

text \<open>\<^verbatim>\<open>np.mean(a, axis=0)\<close>: the mean of every column, a vector of \<open>ncols\<close> elements.
  With no row, numpy divides zero by zero and every element is NaN.\<close>

definition np_mean_axis0 :: "array2 \<Rightarrow> pyfloat list" where
  "np_mean_axis0 a =
     map (\<lambda>j. if rows a = [] then NaN
              else fbin (/) (fsum (map (\<lambda>r. r ! j) (rows a))) (Fin (real (length (rows a)))))
         [0 ..< ncols a]"

text \<open>
  Modelled from the spec: \<^verbatim>\<open>l2_normalize_np_array\<close> of \<^verbatim>\<open>utils.basic_utils\<close> is not
  under src/. The spec: it normalises an array along its last dimension, every row divided by
  its Euclidean norm, a row of norm zero special-cased (here: left unchanged).
\<close>

definition fnorm :: "pyfloat list \<Rightarrow> pyfloat" where
  "fnorm v = (case fsum (map (\<lambda>x. fbin (*) x x) v) of NaN \<Rightarrow> NaN | Fin s \<Rightarrow> Fin (sqrt s))"

definition l2_normalize_vec :: "pyfloat list \<Rightarrow> pyfloat list" where
  "l2_normalize_vec v =
     (case fnorm v of
        NaN \<Rightarrow> map (\<lambda>x. NaN) v
      | Fin n \<Rightarrow> if n = 0 then v else map (\<lambda>x. fbin (/) x (Fin n)) v)"

definition l2_normalize_np_array :: "array2 \<Rightarrow> array2" where
  "l2_normalize_np_array a = a\<lparr>rows := map l2_normalize_vec (rows a)\<rparr>"

subsection \<open>Tensors\<close>

text \<open>
  A tensor has a device, a shape and nested data: a scalar (a float, or a boolean in a
  mask) or the list of its sub-tensors along the first axis.
\<close>

datatype device = CPU | CUDA nat

datatype nd = Fl pyfloat | Bo bool | Ar "nd list"

record tensor =
  dev :: device
  shape :: "nat list"
  body :: nd

definition from_numpy1 :: "pyfloat list \<Rightarrow> tensor" where
  "from_numpy1 v = \<lparr>dev = CPU, shape = [length v], body = Ar (map Fl v)\<rparr>"

definition from_numpy2 :: "array2 \<Rightarrow> tensor" where
  "from_numpy2 a =
     \<lparr>dev = CPU, shape = [length (rows a), ncols a],
      body = Ar (map (\<lambda>r. Ar (map Fl r)) (rows a))\<rparr>"

fun zeros_nd :: "nat list \<Rightarrow> nd" where
  "zeros_nd [] = Fl (Fin 0)"
| "zeros_nd (n # s) = Ar (replicate n (zeros_nd s))"

definition torch_zeros :: "nat list \<Rightarrow> tensor" where
  "torch_zeros s = \<lparr>dev = CPU, shape = s, body = zeros_nd s\<rparr>"

text \<open>\<^verbatim>\<open>t.to(device)\<close>: the same tensor on the given device.\<close>

definition to_device :: "device \<Rightarrow> tensor \<Rightarrow> tensor" where
  "to_device d t = t\<lparr>dev := d\<rparr>"

subsection \<open>Records of the data files\<close>

text \<open>
  A line of the query file is a JSON object with the fields \<^verbatim>\<open>desc_id\<close> (integer),
  \<^verbatim>\<open>desc\<close> (string), \<^verbatim>\<open>vid_name\<close> (string), \<^verbatim>\<open>duration\<close> (float) and \<^verbatim>\<open>ts\<close>;
  a field that the line does not have is \<open>None\<close>, and reading it raises KeyError.
\<close>

record raw_query =
  desc_id :: "int option"
  desc :: "string option"
  vid_name :: "string option"
  duration :: "pyfloat option"
  ts :: "(pyfloat \<times> pyfloat) option"

definition field :: "string \<Rightarrow> 'a option \<Rightarrow> py_error + 'a" where
  "field k v = (case v of None \<Rightarrow> Inl (KeyError k) | Some x \<Rightarrow> Inr x)"

text \<open>The values of a metadata dictionary.\<close>

datatype jval = JNone | JInt int | JStr string | JFloat pyfloat

text \<open>A dictionary with string keys, in insertion order: an association list.\<close>

type_synonym 'v dict = "(string \<times> 'v) list"

record example =
  meta :: "jval dict"
  model_inputs :: "tensor dict"

text \<open>An entry of \<^verbatim>\<open>video_data\<close>, the dictionary \<^verbatim>\<open>{"vid_name": k, "duration": v[0]}\<close>.\<close>

datatype video_entry = VideoEntry (ve_vid_name: string) (ve_duration: pyfloat)

subsection \<open>The dataset objects and their constructors\<close>

text \<open>
  A store argument is an open \<^verbatim>\<open>h5py.File\<close> or a path. \<^verbatim>\<open>h5py.File(path, "r")\<close> reads
  the file system, here a map from paths to files, and raises OSError for a missing path.
\<close>

datatype path_or_handler = Path string | Handler h5file

definition open_h5 :: "(string \<rightharpoonup> h5file) \<Rightarrow> path_or_handler \<Rightarrow> py_error + h5file" where
  "open_h5 fs x =
     (case x of
        Handler h \<Rightarrow> Inr h
      | Path p \<Rightarrow> (case fs p of None \<Rightarrow> Inl (OSError p) | Some h \<Rightarrow> Inr h))"

text \<open>
  The attributes that both classes set and later read. \<^verbatim>\<open>vid_feat_h5\<close> and
  \<^verbatim>\<open>sub_bert_h5\<close> are set only when the modality is used: \<open>None\<close> is the missing
  attribute. Attributes that are stored and never read again (the paths, the handler
  arguments) are left out.
\<close>

record dataset_base =
  dset_name :: string
  ctx_mode :: string
  data_ratio :: pydouble
  max_desc_len :: "nat option"
  max_ctx_len :: "nat option"
  normalize_vfeat :: bool
  normalize_tfeat :: bool
  use_video :: bool
  use_sub :: bool
  use_tef :: bool
  desc_bert_h5 :: h5file
  vid_feat_h5 :: "h5file option"
  sub_bert_h5 :: "h5file option"

record RetrievalDataset = dataset_base +
  data :: "raw_query list"

record RetrievalEvalDataset = dataset_base +
  eval_split_name :: string
  load_gt_video :: bool
  data_mode :: "string option"
  query_data :: "raw_query list"
  video_data :: "video_entry list"
  video2idx :: "int dict"

text \<open>
  Lines 53 to 55 and 155 to 157: the records kept for a data ratio, a float (its default is
  \<^verbatim>\<open>1.0\<close>). \<open>n_examples\<close> is \<^verbatim>\<open>int(len(self.data) * data_ratio)\<close>: the length is
  converted to a float, the product is the rounded product of two floats, and \<^verbatim>\<open>int\<close>
  raises for a product that is infinite or NaN. The log line that follows formats
  \<^verbatim>\<open>data_ratio * 100\<close>, which raises for no float.
\<close>

definition n_examples :: "nat \<Rightarrow> pydouble \<Rightarrow> py_error + int" where
  "n_examples len r =
     (case float_of_nat len of
        Inl e \<Rightarrow> Inl e
      | Inr l \<Rightarrow> py_int (dmul l r))"

definition apply_data_ratio :: "pydouble \<Rightarrow> 'a list \<Rightarrow> py_error + 'a list" where
  "apply_data_ratio r xs =
     (if \<not> is_one r then
        (case n_examples (length xs) r of
           Inl e \<Rightarrow> Inl e
         | Inr n \<Rightarrow> Inr (py_slice_to n xs))
      else Inr xs)"

text \<open>Lines 62 to 66, 73 to 77, 172 to 182: a store is opened only if its modality is used.\<close>

definition open_if :: "bool \<Rightarrow> (string \<rightharpoonup> h5file) \<Rightarrow> path_or_handler \<Rightarrow> py_error + h5file option" where
  "open_if used fs x =
     (if used then (case open_h5 fs x of Inl e \<Rightarrow> Inl e | Inr h \<Rightarrow> Inr (Some h))
      else Inr None)"

text \<open>
  \<^verbatim>\<open>RetrievalDataset.__init__\<close>. \<open>fs\<close> is the file system and \<open>loaded\<close> what
  \<^verbatim>\<open>load_jsonl(data_path)\<close> returns (\<^verbatim>\<open>utils.basic_utils\<close> is not under src/).
\<close>

definition RetrievalDataset_init ::
  "(string \<rightharpoonup> h5file) \<Rightarrow> raw_query list \<Rightarrow> string \<Rightarrow> path_or_handler \<Rightarrow> path_or_handler \<Rightarrow>
   path_or_handler \<Rightarrow> nat option \<Rightarrow> nat option \<Rightarrow> string \<Rightarrow> bool \<Rightarrow> bool \<Rightarrow> pydouble \<Rightarrow>
   py_error + RetrievalDataset" where
  "RetrievalDataset_init fs loaded name desc_bert sub_bert vid_feat mdl mcl cm nv nt ratio =
     (case apply_data_ratio ratio loaded of Inl e \<Rightarrow> Inl e | Inr d \<Rightarrow>
       (let uv = is_substr ''video'' cm;
            us = is_substr ''sub'' cm;
            ut = is_substr ''tef'' cm
        in (case open_if uv fs vid_feat of Inl e \<Rightarrow> Inl e | Inr vh \<Rightarrow>
           (case open_h5 fs desc_bert of Inl e \<Rightarrow> Inl e | Inr dh \<Rightarrow>
           (case open_if us fs sub_bert of Inl e \<Rightarrow> Inl e | Inr sh \<Rightarrow>
              Inr \<lparr>dset_name = name, ctx_mode = cm, data_ratio = ratio, max_desc_len = mdl,
                   max_ctx_len = mcl, normalize_vfeat = nv, normalize_tfeat = nt,
                   use_video = uv, use_sub = us, use_tef = ut,
                   desc_bert_h5 = dh, vid_feat_h5 = vh, sub_bert_h5 = sh, data = d\<rparr>)))))"

text \<open>\<^verbatim>\<open>set_data_mode\<close>: the assertion, then the assignment.\<close>

definition set_data_mode :: "RetrievalEvalDataset \<Rightarrow> string \<Rightarrow> py_error + RetrievalEvalDataset" where
  "set_data_mode ds m =
     (if m \<in> set [''context'', ''query''] then Inr (ds\<lparr>data_mode := Some m\<rparr>)
      else Inl AssertionError)"

text \<open>
  \<^verbatim>\<open>RetrievalEvalDataset.__init__\<close>. \<open>video_idx\<close> is what
  \<^verbatim>\<open>load_json(video_duration_idx_path)\<close> returns: for every split, the dictionary from a
  video name to its duration and index. The data mode is checked first, as in the source,
  and the data ratio is applied before any store is opened.
\<close>

definition RetrievalEvalDataset_init ::
  "(string \<rightharpoonup> h5file) \<Rightarrow> raw_query list \<Rightarrow> (string \<rightharpoonup> (pyfloat \<times> int) dict) \<Rightarrow> string \<Rightarrow> string \<Rightarrow>
   path_or_handler \<Rightarrow> nat option \<Rightarrow> nat option \<Rightarrow> path_or_handler \<Rightarrow> path_or_handler \<Rightarrow>
   string \<Rightarrow> string \<Rightarrow> pydouble \<Rightarrow> bool \<Rightarrow> bool \<Rightarrow> py_error + RetrievalEvalDataset" where
  "RetrievalEvalDataset_init fs loaded video_idx name split desc_bert mdl mcl sub_bert vid_feat
       cm dm ratio nv nt =
     (if dm \<notin> set [''context'', ''query''] then Inl AssertionError
      else
        (case apply_data_ratio ratio loaded of Inl e \<Rightarrow> Inl e | Inr q \<Rightarrow>
            (case open_h5 fs desc_bert of Inl e \<Rightarrow> Inl e | Inr dh \<Rightarrow>
            (case video_idx split of None \<Rightarrow> Inl (KeyError split) | Some vd \<Rightarrow>
              (let uv = is_substr ''video'' cm;
                   us = is_substr ''sub'' cm;
                   ut = is_substr ''tef'' cm
               in (case open_if uv fs vid_feat of Inl e \<Rightarrow> Inl e | Inr vh \<Rightarrow>
                  (case open_if us fs sub_bert of Inl e \<Rightarrow> Inl e | Inr sh \<Rightarrow>
                    Inr \<lparr>dset_name = name, ctx_mode = cm, data_ratio = ratio, max_desc_len = mdl,
                         max_ctx_len = mcl, normalize_vfeat = nv, normalize_tfeat = nt,
                         use_video = uv, use_sub = us, use_tef = ut,
                         desc_bert_h5 = dh, vid_feat_h5 = vh, sub_bert_h5 = sh,
                         eval_split_name = split, load_gt_video = False, data_mode = Some dm,
                         query_data = q,
                         video_data = map (\<lambda>(k, v). VideoEntry k (fst v)) vd,
                         video2idx = map (\<lambda>(k, v). (k, snd v)) vd\<rparr>)))))))"

subsection \<open>The item getters\<close>

text \<open>
  \<^verbatim>\<open>get_query_feat_by_desc_id\<close>, defined with the same body in both classes (lines 116
  to 120 and 206 to 210): the stored array under the key \<^verbatim>\<open>str(desc_id)\<close>, cut to the
  first \<^verbatim>\<open>max_desc_len\<close> rows, normalised if \<^verbatim>\<open>normalize_tfeat\<close> is set.
\<close>

definition get_query_feat_by_desc_id :: "'a dataset_base_scheme \<Rightarrow> int \<Rightarrow> py_error + tensor" where
  "get_query_feat_by_desc_id ds did =
     (case h5_lookup (desc_bert_h5 ds) (py_str did) of
        Inl e \<Rightarrow> Inl e
      | Inr a \<Rightarrow>
          let query_feat = slice_rows (max_desc_len ds) a
          in Inr (from_numpy2 (if normalize_tfeat ds then l2_normalize_np_array query_feat
                               else query_feat)))"

text \<open>
  The feature of one context modality, written out four times in the source (lines 99 to
  105, 107 to 113, 238 to 244, 246 to 252). \<open>mean_pooled\<close> is the array that lines 100 to
  102 compute: the mean over the first \<^verbatim>\<open>max_ctx_len\<close> rows, normalised if the flag is
  set. \<open>ctx_feat\<close> is the whole branch: that array as a tensor if the modality is used, under
  the video name in the store of the modality; otherwise \<^verbatim>\<open>torch.zeros(2)\<close>.
\<close>

definition mean_pooled :: "nat option \<Rightarrow> bool \<Rightarrow> array2 \<Rightarrow> pyfloat list" where
  "mean_pooled mcl nflag a =
     (let feat = np_mean_axis0 (slice_rows mcl a)
      in if nflag then l2_normalize_vec feat else feat)"

definition ctx_feat :: "bool \<Rightarrow> h5file option \<Rightarrow> string \<Rightarrow> nat option \<Rightarrow> bool \<Rightarrow> py_error + tensor" where
  "ctx_feat used h5 name mcl nflag =
     (if used then
        (case h5 of
           None \<Rightarrow> Inl AttributeError
         | Some h \<Rightarrow>
             (case h5_lookup h name of
                Inl e \<Rightarrow> Inl e
              | Inr a \<Rightarrow> Inr (from_numpy1 (mean_pooled mcl nflag a))))
      else Inr (torch_zeros [2]))"

text \<open>\<^verbatim>\<open>RetrievalDataset.__len__\<close> and \<^verbatim>\<open>RetrievalDataset.__getitem__\<close>.\<close>

definition RetrievalDataset_len :: "RetrievalDataset \<Rightarrow> nat" where
  "RetrievalDataset_len ds = length (data ds)"

definition RetrievalDataset_getitem :: "RetrievalDataset \<Rightarrow> int \<Rightarrow> py_error + example" where
  "RetrievalDataset_getitem ds index =
     (case py_index (data ds) index of Inl e \<Rightarrow> Inl e | Inr raw_data \<Rightarrow>
     (case field ''desc_id'' (desc_id raw_data) of Inl e \<Rightarrow> Inl e | Inr did \<Rightarrow>
     (case field ''desc'' (desc raw_data) of Inl e \<Rightarrow> Inl e | Inr d \<Rightarrow>
     (case field ''vid_name'' (vid_name raw_data) of Inl e \<Rightarrow> Inl e | Inr vn \<Rightarrow>
     (case field ''duration'' (duration raw_data) of Inl e \<Rightarrow> Inl e | Inr du \<Rightarrow>
     (case get_query_feat_by_desc_id ds did of Inl e \<Rightarrow> Inl e | Inr qf \<Rightarrow>
     (case ctx_feat (use_video ds) (vid_feat_h5 ds) vn (max_ctx_len ds) (normalize_vfeat ds) of
        Inl e \<Rightarrow> Inl e | Inr vf \<Rightarrow>
     (case ctx_feat (use_sub ds) (sub_bert_h5 ds) vn (max_ctx_len ds) (normalize_tfeat ds) of
        Inl e \<Rightarrow> Inl e | Inr sf \<Rightarrow>
        Inr \<lparr>meta = [(''desc_id'', JInt did), (''desc'', JStr d), (''vid_name'', JStr vn),
                     (''duration'', JFloat du)],
             model_inputs = [(''query_feat'', qf), (''video_feat'', vf), (''sub_feat'', sf)]\<rparr>))))))))"

text \<open>\<^verbatim>\<open>load_gt_vid_name_for_query\<close>: the assertion reads the first query record.\<close>

definition load_gt_vid_name_for_query ::
  "RetrievalEvalDataset \<Rightarrow> bool \<Rightarrow> py_error + RetrievalEvalDataset" where
  "load_gt_vid_name_for_query ds flag =
     (case py_index (query_data ds) 0 of
        Inl e \<Rightarrow> Inl e
      | Inr r \<Rightarrow> if vid_name r \<noteq> None then Inr (ds\<lparr>load_gt_video := flag\<rparr>)
                 else Inl AssertionError)"

definition RetrievalEvalDataset_len :: "RetrievalEvalDataset \<Rightarrow> nat" where
  "RetrievalEvalDataset_len ds =
     (if data_mode ds = Some ''context'' then length (video_data ds)
      else length (query_data ds))"

text \<open>\<^verbatim>\<open>_get_item_query\<close>: the video name is read from the record only if
  \<^verbatim>\<open>load_gt_video\<close> is set, and is \<^verbatim>\<open>None\<close> otherwise.\<close>

definition get_item_query :: "RetrievalEvalDataset \<Rightarrow> int \<Rightarrow> py_error + example" where
  "get_item_query ds index =
     (case py_index (query_data ds) index of Inl e \<Rightarrow> Inl e | Inr raw_data \<Rightarrow>
     (case field ''desc_id'' (desc_id raw_data) of Inl e \<Rightarrow> Inl e | Inr did \<Rightarrow>
     (case field ''desc'' (desc raw_data) of Inl e \<Rightarrow> Inl e | Inr d \<Rightarrow>
     (case (if load_gt_video ds
            then (case field ''vid_name'' (vid_name raw_data) of
                    Inl e \<Rightarrow> Inl e | Inr vn \<Rightarrow> Inr (JStr vn))
            else Inr JNone) of Inl e \<Rightarrow> Inl e | Inr gt \<Rightarrow>
     (case get_query_feat_by_desc_id ds did of Inl e \<Rightarrow> Inl e | Inr qf \<Rightarrow>
        Inr \<lparr>meta = [(''desc_id'', JInt did), (''desc'', JStr d), (''vid_name'', gt)],
             model_inputs = [(''query_feat'', qf)]\<rparr>)))))"

text \<open>\<^verbatim>\<open>_get_item_context\<close>.\<close>

definition get_item_context :: "RetrievalEvalDataset \<Rightarrow> int \<Rightarrow> py_error + example" where
  "get_item_context ds index =
     (case py_index (video_data ds) index of Inl e \<Rightarrow> Inl e | Inr raw_data \<Rightarrow>
     (case ctx_feat (use_video ds) (vid_feat_h5 ds) (ve_vid_name raw_data) (max_ctx_len ds)
             (normalize_vfeat ds) of Inl e \<Rightarrow> Inl e | Inr vf \<Rightarrow>
     (case ctx_feat (use_sub ds) (sub_bert_h5 ds) (ve_vid_name raw_data) (max_ctx_len ds)
             (normalize_tfeat ds) of Inl e \<Rightarrow> Inl e | Inr sf \<Rightarrow>
        Inr \<lparr>meta = [(''vid_name'', JStr (ve_vid_name raw_data)),
                     (''duration'', JFloat (ve_duration raw_data))],
             model_inputs = [(''video_feat'', vf), (''sub_feat'', sf)]\<rparr>)))"

definition RetrievalEvalDataset_getitem :: "RetrievalEvalDataset \<Rightarrow> int \<Rightarrow> py_error + example" where
  "RetrievalEvalDataset_getitem ds index =
     (if data_mode ds = Some ''context'' then get_item_context ds index
      else get_item_query ds index)"

subsection \<open>Collating a batch\<close>

definition children :: "nd \<Rightarrow> nd list" where
  "children b = (case b of Ar xs \<Rightarrow> xs | Fl x \<Rightarrow> [] | Bo x \<Rightarrow> [])"

text \<open>\<^verbatim>\<open>t[i]\<close> on a tensor: the sub-tensor at position \<open>i\<close> of the first axis.\<close>

definition tensor_row :: "tensor \<Rightarrow> int \<Rightarrow> py_error + tensor" where
  "tensor_row t i =
     (case shape t of
        [] \<Rightarrow> Inl IndexError
      | n # s \<Rightarrow> (case py_index (children (body t)) i of
                   Inl e \<Rightarrow> Inl e
                 | Inr b \<Rightarrow> Inr \<lparr>dev = dev t, shape = s, body = b\<rparr>))"

text \<open>\<^verbatim>\<open>torch.stack\<close>: the tensors, all of one shape and on one device, along a new first
  axis; RuntimeError for an empty list or tensors that differ in shape or device.\<close>

definition torch_stack :: "tensor list \<Rightarrow> py_error + tensor" where
  "torch_stack xs =
     (if xs = [] then Inl RuntimeError
      else if list_all (\<lambda>t. shape t = shape (hd xs) \<and> dev t = dev (hd xs)) xs
      then Inr \<lparr>dev = dev (hd xs), shape = length xs # shape (hd xs), body = Ar (map body xs)\<rparr>
      else Inl RuntimeError)"

text \<open>
  Modelled from the spec: \<^verbatim>\<open>pad_sequences_1d\<close> of \<^verbatim>\<open>utils.tensor_utils\<close> is not under
  src/. The spec: the sequences are stacked with padding to the longest sequence of the
  batch, giving the padded tensor, a boolean mask that marks real positions against padding,
  and the original lengths; the padding value is zero. A list that is empty, or whose
  sequences have no first axis or differ in the other axes, is an error here.
\<close>

definition pad_sequences_1d :: "tensor list \<Rightarrow> py_error + tensor \<times> tensor \<times> nat list" where
  "pad_sequences_1d seqs =
     (if seqs = [] \<or>
         \<not> list_all (\<lambda>t. shape t \<noteq> [] \<and> tl (shape t) = tl (shape (hd seqs))) seqs
      then Inl ValueError
      else
        let lengths = map (\<lambda>t. hd (shape t)) seqs;
            max_length = foldr max lengths 0;
            extra = tl (shape (hd seqs))
        in Inr (\<lparr>dev = CPU, shape = length seqs # max_length # extra,
                  body = Ar (map (\<lambda>t. Ar (children (body t) @
                                          replicate (max_length - hd (shape t)) (zeros_nd extra)))
                                 seqs)\<rparr>,
                \<lparr>dev = CPU, shape = [length seqs, max_length],
                  body = Ar (map (\<lambda>t. Ar (replicate (hd (shape t)) (Bo True) @
                                          replicate (max_length - hd (shape t)) (Bo False)))
                                 seqs)\<rparr>,
                lengths))"

text \<open>A value of the batched dictionary: what \<^verbatim>\<open>pad_sequences_1d\<close> returns, or a tensor.\<close>

datatype bval = Padded tensor tensor "nat list" | Plain tensor

text \<open>\<^verbatim>\<open>[e["model_inputs"][k] for e in batch]\<close>: KeyError at the first example without
  the key.\<close>

fun gather :: "example list \<Rightarrow> string \<Rightarrow> py_error + tensor list" where
  "gather [] k = Inr []"
| "gather (e # es) k =
     (case map_of (model_inputs e) k of
        None \<Rightarrow> Inl (KeyError k)
      | Some t \<Rightarrow> (case gather es k of Inl x \<Rightarrow> Inl x | Inr xs \<Rightarrow> Inr (t # xs)))"

text \<open>The loop of \<^verbatim>\<open>retrieval_collate\<close> over the keys, with \<^verbatim>\<open>batched_data\<close> as
  accumulator; \<open>AList.update\<close> is the dictionary assignment.\<close>

fun collate_keys :: "example list \<Rightarrow> string list \<Rightarrow> bval dict \<Rightarrow> py_error + bval dict" where
  "collate_keys batch [] batched_data = Inr batched_data"
| "collate_keys batch (k # ks) batched_data =
     (if k = ''query_feat'' then
        (case gather batch k of Inl e \<Rightarrow> Inl e | Inr xs \<Rightarrow>
        (case pad_sequences_1d xs of Inl e \<Rightarrow> Inl e | Inr (p, m, l) \<Rightarrow>
           collate_keys batch ks (AList.update k (Padded p m l) batched_data)))
      else if is_substr ''feat'' k then
        (case gather batch k of Inl e \<Rightarrow> Inl e | Inr xs \<Rightarrow>
        (case torch_stack xs of Inl e \<Rightarrow> Inl e | Inr t \<Rightarrow>
           collate_keys batch ks (AList.update k (Plain t) batched_data)))
      else collate_keys batch ks batched_data)"

definition retrieval_collate :: "example list \<Rightarrow> py_error + jval dict list \<times> bval dict" where
  "retrieval_collate batch =
     (let batch_meta = map meta batch
      in case py_index batch 0 of Inl e \<Rightarrow> Inl e | Inr e0 \<Rightarrow>
         (case collate_keys batch (map fst (model_inputs e0)) [] of
            Inl e \<Rightarrow> Inl e
          | Inr batched_data \<Rightarrow> Inr (batch_meta, batched_data)))"

text \<open>What an entry of the batched dictionary is made of: the tensors of the key in the
  examples of the batch, padded under the key of the query feature and stacked under every
  other key.\<close>

definition entry_of :: "example list \<Rightarrow> string \<Rightarrow> bval \<Rightarrow> bool" where
  "entry_of batch k v =
     (case gather batch k of
        Inl e \<Rightarrow> False
      | Inr xs \<Rightarrow>
          (case v of
             Plain t \<Rightarrow> k \<noteq> ''query_feat'' \<and> torch_stack xs = Inr t
           | Padded p m l \<Rightarrow> k = ''query_feat'' \<and> pad_sequences_1d xs = Inr (p, m, l)))"

text \<open>The batches that can be collated: not empty, and for every key of the first example that
  contains \<^verbatim>\<open>feat\<close>, every example has the key, the query features have a first axis
  and agree in the other axes, and the tensors of any other key agree in shape and device.\<close>

definition key_collatable :: "example list \<Rightarrow> string \<Rightarrow> bool" where
  "key_collatable batch k =
     (case gather batch k of
        Inl e \<Rightarrow> False
      | Inr xs \<Rightarrow>
          if k = ''query_feat''
          then list_all (\<lambda>t. shape t \<noteq> [] \<and> tl (shape t) = tl (shape (hd xs))) xs
          else list_all (\<lambda>t. shape t = shape (hd xs) \<and> dev t = dev (hd xs)) xs)"

definition collatable :: "example list \<Rightarrow> bool" where
  "collatable batch =
     (batch \<noteq> [] \<and>
      list_all (key_collatable batch)
        (filter (is_substr ''feat'') (map fst (model_inputs (hd batch)))))"

subsection \<open>Moving a batch to a device\<close>

text \<open>\<^verbatim>\<open>v[i]\<close> on a batched value, read by \<^verbatim>\<open>prepare_batch_inputs\<close> at 0 and 1: a
  component of the tuple, or a row of the tensor.\<close>

definition bval_item :: "bval \<Rightarrow> int \<Rightarrow> py_error + tensor" where
  "bval_item v i =
     (case v of
        Padded p m l \<Rightarrow> if i = 0 then Inr p else if i = 1 then Inr m else Inl IndexError
      | Plain t \<Rightarrow> tensor_row t i)"

text \<open>The loop of \<^verbatim>\<open>prepare_batch_inputs\<close> over the items; a tuple has no method
  \<^verbatim>\<open>to\<close>. The transfer hint \<^verbatim>\<open>non_blocking\<close> does not change the result.\<close>

fun prepare_items :: "device \<Rightarrow> bval dict \<Rightarrow> tensor dict \<Rightarrow> py_error + tensor dict" where
  "prepare_items d [] out = Inr out"
| "prepare_items d ((k, v) # kvs) out =
     (if k = ''query_feat'' then
        (case bval_item v 0 of Inl e \<Rightarrow> Inl e | Inr a \<Rightarrow>
        (case bval_item v 1 of Inl e \<Rightarrow> Inl e | Inr b \<Rightarrow>
           prepare_items d kvs
             (AList.update (py_replace ''feat'' ''mask'' k) (to_device d b)
                (AList.update k (to_device d a) out))))
      else
        (case v of
           Plain t \<Rightarrow> prepare_items d kvs (AList.update k (to_device d t) out)
         | Padded p m l \<Rightarrow> Inl AttributeError))"

definition prepare_batch_inputs :: "bval dict \<Rightarrow> device \<Rightarrow> py_error + tensor dict" where
  "prepare_batch_inputs batched_model_inputs d = prepare_items d batched_model_inputs []"

text \<open>
  The batched dictionaries that \<^verbatim>\<open>prepare_batch_inputs\<close> is written for: a dictionary, in
  which the query feature, if there is one, is the tuple of \<^verbatim>\<open>pad_sequences_1d\<close>, every
  other value is a tensor, and no key is \<^verbatim>\<open>query_mask\<close>. Every dictionary returned by
  \<^verbatim>\<open>retrieval_collate\<close> is one.
\<close>

definition wf_batched :: "bval dict \<Rightarrow> bool" where
  "wf_batched b =
     (distinct (map fst b) \<and> ''query_mask'' \<notin> fst ` set b \<and>
      list_all (\<lambda>(k, v). case v of Padded p m l \<Rightarrow> k = ''query_feat''
                                  | Plain t \<Rightarrow> k \<noteq> ''query_feat'') b)"

subsection \<open>Constructing a dataset and reading an item\<close>

text \<open>The example at an index of a dataset constructed from the given arguments: the
  constructor followed by the item getter.\<close>

definition train_item ::
  "(string \<rightharpoonup> h5file) \<Rightarrow> raw_query list \<Rightarrow> string \<Rightarrow> path_or_handler \<Rightarrow> path_or_handler \<Rightarrow>
   path_or_handler \<Rightarrow> nat option \<Rightarrow> nat option \<Rightarrow> string \<Rightarrow> bool \<Rightarrow> bool \<Rightarrow> pydouble \<Rightarrow> int \<Rightarrow>
   py_error + example" where
  "train_item fs loaded name desc_bert sub_bert vid_feat mdl mcl cm nv nt ratio index =
     (case RetrievalDataset_init fs loaded name desc_bert sub_bert vid_feat mdl mcl cm nv nt ratio of
        Inl e \<Rightarrow> Inl e
      | Inr ds \<Rightarrow> RetrievalDataset_getitem ds index)"

definition eval_item ::
  "(string \<rightharpoonup> h5file) \<Rightarrow> raw_query list \<Rightarrow> (string \<rightharpoonup> (pyfloat \<times> int) dict) \<Rightarrow> string \<Rightarrow> string \<Rightarrow>
   path_or_handler \<Rightarrow> nat option \<Rightarrow> nat option \<Rightarrow> path_or_handler \<Rightarrow> path_or_handler \<Rightarrow>
   string \<Rightarrow> string \<Rightarrow> pydouble \<Rightarrow> bool \<Rightarrow> bool \<Rightarrow> int \<Rightarrow> py_error + example" where
  "eval_item fs loaded video_idx name split desc_bert mdl mcl sub_bert vid_feat cm dm ratio nv nt
       index =
     (case RetrievalEvalDataset_init fs loaded video_idx name split desc_bert mdl mcl sub_bert
             vid_feat cm dm ratio nv nt of
        Inl e \<Rightarrow> Inl e
      | Inr ds \<Rightarrow> RetrievalEvalDataset_getitem ds index)"

subsection \<open>Calls on an evaluation dataset\<close>

text \<open>
  The evaluation dataset is mutable: a caller changes it with \<^verbatim>\<open>set_data_mode\<close> and
  \<^verbatim>\<open>load_gt_vid_name_for_query\<close>. Both assert before they assign, so a call that raises
  leaves the object as it was. \<open>apply_calls\<close> is the object after a sequence of such calls.
\<close>

datatype eval_call = SetDataMode string | LoadGtVidNameForQuery bool

fun apply_call :: "RetrievalEvalDataset \<Rightarrow> eval_call \<Rightarrow> RetrievalEvalDataset" where
  "apply_call ds (SetDataMode m) =
     (case set_data_mode ds m of Inl e \<Rightarrow> ds | Inr ds' \<Rightarrow> ds')"
| "apply_call ds (LoadGtVidNameForQuery b) =
     (case load_gt_vid_name_for_query ds b of Inl e \<Rightarrow> ds | Inr ds' \<Rightarrow> ds')"

definition apply_calls :: "RetrievalEvalDataset \<Rightarrow> eval_call list \<Rightarrow> RetrievalEvalDataset" where
  "apply_calls ds cs = foldl apply_call ds cs"

subsection \<open>Concrete data\<close>

text \<open>A small query file, feature store and video index, on which the properties below are
  evaluated.\<close>

definition sample_query :: "int \<Rightarrow> raw_query" where
  "sample_query i =
     \<lparr>desc_id = Some i, desc = Some ''a query'', vid_name = Some ''v1'',
      duration = Some (Fin 60), ts = Some (Fin 1, Fin 2)\<rparr>"

definition ten_queries :: "raw_query list" where
  "ten_queries = map sample_query [0, 1, 2, 3, 4, 5, 6, 7, 8, 9]"

definition sample_array :: array2 where
  "sample_array = \<lparr>ncols = 2, rows = [[Fin 1, Fin 0], [Fin 3, Fin 0], [Fin 6, Fin 3]]\<rparr>"

definition sample_h5 :: h5file where
  "sample_h5 = [''0'' \<mapsto> sample_array, ''1'' \<mapsto> sample_array, ''v1'' \<mapsto> sample_array]"

definition sample_video_idx :: "string \<rightharpoonup> (pyfloat \<times> int) dict" where
  "sample_video_idx = [''val'' \<mapsto> [(''v1'', (Fin 60, 0)), (''v2'', (Fin 30, 1))]]"

text \<open>The training dataset over the ten queries, for a context mode and a data ratio.\<close>

definition sample_train :: "string \<Rightarrow> pydouble \<Rightarrow> py_error + RetrievalDataset" where
  "sample_train cm r =
     RetrievalDataset_init Map.empty ten_queries ''tvr'' (Handler sample_h5) (Handler sample_h5)
       (Handler sample_h5) (Some 2) (Some 2) cm False False r"

text \<open>The evaluation dataset over the ten queries, for a data mode and a data ratio.\<close>

definition sample_eval :: "string \<Rightarrow> pydouble \<Rightarrow> py_error + RetrievalEvalDataset" where
  "sample_eval dm r =
     RetrievalEvalDataset_init Map.empty ten_queries sample_video_idx ''tvr'' ''val''
       (Handler sample_h5) (Some 2) (Some 2) (Handler sample_h5) (Handler sample_h5)
       ''video'' dm r False False"

text \<open>The training dataset with the video features normalised.\<close>

definition sample_train_norm :: "py_error + RetrievalDataset" where
  "sample_train_norm =
     RetrievalDataset_init Map.empty ten_queries ''tvr'' (Handler sample_h5) (Handler sample_h5)
       (Handler sample_h5) (Some 2) (Some 2) ''video'' True False (Dbl 1 0)"

text \<open>The evaluation dataset in the data mode \<^verbatim>\<open>context\<close>, for a context mode.\<close>

definition sample_eval_ctx :: "string \<Rightarrow> py_error + RetrievalEvalDataset" where
  "sample_eval_ctx cm =
     RetrievalEvalDataset_init Map.empty ten_queries sample_video_idx ''tvr'' ''val''
       (Handler sample_h5) (Some 2) (Some 2) (Handler sample_h5) (Handler sample_h5)
       cm ''context'' (Dbl 1 0) False False"

text \<open>A batch of three examples with the description ids 5, 9 and 3, and what
  collating it gives.\<close>

definition sample_example :: "int \<Rightarrow> pyfloat list list \<Rightarrow> example" where
  "sample_example i q =
     \<lparr>meta = [(''desc_id'', JInt i)],
      model_inputs = [(''query_feat'', from_numpy2 \<lparr>ncols = 1, rows = q\<rparr>),
                      (''st_ed_indices'', from_numpy1 [Fin 0, Fin 1]),
                      (''video_feat'', from_numpy1 [Fin (real_of_int i), Fin 0])]\<rparr>"

definition sample_batch :: "example list" where
  "sample_batch =
     [sample_example 5 [[Fin 5]],
      (sample_example 9 [[Fin 9], [Fin 9]])
        \<lparr>model_inputs := model_inputs (sample_example 9 [[Fin 9], [Fin 9]]) @
                           [(''sub_feat'', torch_zeros [2])]\<rparr>,
      sample_example 3 [[Fin 3]]]"

definition sample_batched :: "bval dict" where
  "sample_batched =
     [(''query_feat'',
       Padded
         \<lparr>dev = CPU, shape = [3, 2, 1],
          body = Ar [Ar [Ar [Fl (Fin 5)], Ar [Fl (Fin 0)]],
                     Ar [Ar [Fl (Fin 9)], Ar [Fl (Fin 9)]],
                     Ar [Ar [Fl (Fin 3)], Ar [Fl (Fin 0)]]]\<rparr>
         \<lparr>dev = CPU, shape = [3, 2],
          body = Ar [Ar [Bo True, Bo False], Ar [Bo True, Bo True], Ar [Bo True, Bo False]]\<rparr>
         [1, 2, 1]),
      (''video_feat'',
       Plain \<lparr>dev = CPU, shape = [3, 2],
              body = Ar [Ar [Fl (Fin 5), Fl (Fin 0)], Ar [Fl (Fin 9), Fl (Fin 0)],
                         Ar [Fl (Fin 3), Fl (Fin 0)]]\<rparr>)]"

section \<open>Properties\<close>

subsection \<open>The data ratio\<close>

text \<open>Rounding to a double: an integer below \<open>2 ^ 53\<close> is a double, and the rounded product
  of two doubles that is below \<open>2 ^ 53\<close> has the integer part of the exact product, or the
  next integer.\<close>

lemma shift_round_0 [simp]: "shift_round m 0 = m"
  by (simp add: shift_round_def)

lemma shift_round_bounds:
  "m div 2 ^ k \<le> shift_round m k \<and> shift_round m k \<le> m div 2 ^ k + 1"
  by (simp add: shift_round_def Let_def)

lemma float_of_nat_exact:
  assumes "n < 2 ^ 53"
  shows "float_of_nat n = Inr (Dbl (int n) 0)"
proof -
  have b: "bitlen (int n) \<le> 53"
    using assms less_power_nat_iff_bitlen [of n 53] by simp
  then have k: "nat (max (bitlen \<bar>int n\<bar> - 53) (- 1074 - 0)) = 0"
    by simp
  have "\<not> 1024 < bitlen (int n) + 0"
    using b by simp
  then show ?thesis
    using k by (simp add: float_of_nat_def round_double_def Let_def)
qed

lemma py_int_floor:
  assumes "0 \<le> m"
  shows "py_int (Dbl m e) = Inr \<lfloor>dval m e\<rfloor>"
proof (cases "0 \<le> e")
  case True
  then have "dval m e = of_int (m * 2 ^ nat e)"
    by (simp add: dval_def power_int_def)
  then have "\<lfloor>dval m e\<rfloor> = m * 2 ^ nat e"
    by (simp only: floor_of_int)
  with True show ?thesis
    by (simp add: py_int_def)
next
  case False
  then have "dval m e = of_int m / of_int (2 ^ nat (- e))"
    by (simp add: dval_def power_int_def field_simps)
  then have "\<lfloor>dval m e\<rfloor> = m div 2 ^ nat (- e)"
    by (simp only: floor_divide_of_int_eq)
  with False assms show ?thesis
    by (simp add: py_int_def)
qed

lemma dval_ge_power:
  assumes "0 < m"
  shows "2 powi (bitlen m - 1 + e) \<le> dval m e"
proof -
  have "2 ^ nat (bitlen m - 1) \<le> m"
    using bitlen_bounds [OF assms] by simp
  then have "(2 :: real) ^ nat (bitlen m - 1) \<le> of_int m"
    by (metis of_int_le_iff of_int_numeral of_int_power)
  moreover have "1 \<le> bitlen m"
    using assms by (simp add: bitlen_alt_def)
  ultimately have "(2 :: real) powi (bitlen m - 1) \<le> of_int m"
    by (simp add: power_int_def)
  then have "(2 :: real) powi (bitlen m - 1) * 2 powi e \<le> of_int m * 2 powi e"
    by (simp add: mult_right_mono)
  then show ?thesis
    by (simp add: dval_def power_int_add)
qed


lemma round_double_product:
  assumes m: "0 \<le> M" and e: "- 1074 \<le> e" and x: "dval M e < 2 ^ 53"
  shows "\<exists>m' e'. round_double M e = Dbl m' e' \<and> 0 \<le> m' \<and>
           \<lfloor>dval M e\<rfloor> \<le> \<lfloor>dval m' e'\<rfloor> \<and> \<lfloor>dval m' e'\<rfloor> \<le> \<lfloor>dval M e\<rfloor> + 1 \<and>
           (M < 2 ^ 53 \<longrightarrow> m' = M \<and> e' = e) \<and>
           (\<forall>z. dval M e = of_int z \<longrightarrow> dval m' e' = of_int z)"
proof (cases "bitlen M \<le> 53")
  case True
  then have k: "nat (max (bitlen \<bar>M\<bar> - 53) (- 1074 - e)) = 0"
    using m e by simp
  have no: "\<not> (M \<noteq> 0 \<and> 1024 < bitlen M + e)"
  proof
    assume a: "M \<noteq> 0 \<and> 1024 < bitlen M + e"
    then have "0 < M" using m by simp
    from dval_ge_power [OF this, of e] x have "(2 :: real) powi (bitlen M - 1 + e) < 2 powi 53"
      by simp
    then have "bitlen M - 1 + e < 53"
      by (rule power_int_le_imp_less_exp [rotated]) simp_all
    with a show False by simp
  qed
  have "round_double M e = Dbl M e"
    using k no m by (simp add: round_double_def Let_def)
  with m show ?thesis by simp
next
  case False
  then have big: "53 < bitlen M" by simp
  then have pos: "0 < M"
    using m bitlen_eq_zero_iff [of M] by (cases "M = 0") auto
  define k where "k = nat (bitlen M - 53)"
  have k: "nat (max (bitlen \<bar>M\<bar> - 53) (- 1074 - e)) = k"
    using m e big by (simp add: k_def max_def)
  have kb: "int k = bitlen M - 53" "0 < k"
    using big by (simp_all add: k_def)
  define q where "q = M div 2 ^ k"
  define m' where "m' = shift_round M k"
  have qm: "q \<le> m'" "m' \<le> q + 1"
    using shift_round_bounds [of M k] by (simp_all add: q_def m'_def)
  have "M < 2 ^ nat (bitlen M)"
    using bitlen_bounds [OF pos] by simp
  also have "nat (bitlen M) = k + 53"
    using kb by simp
  finally have "M < 2 ^ 53 * 2 ^ k"
    by (simp add: power_add mult.commute)
  moreover have "q * 2 ^ k \<le> M"
    by (simp add: q_def minus_mod_eq_div_mult [symmetric])
  ultimately have "q * 2 ^ k < 2 ^ 53 * 2 ^ k"
    by (rule le_less_trans [rotated])
  then have q53: "q < 2 ^ 53"
    by (simp only: mult_less_cancel_right) simp
  have q0: "0 \<le> q"
    using m by (simp add: q_def pos_imp_zdiv_nonneg_iff)
  have m0: "0 \<le> m'" using q0 qm by simp
  from dval_ge_power [OF pos, of e] x have "(2 :: real) powi (bitlen M - 1 + e) < 2 powi 53"
    by simp
  then have "bitlen M - 1 + e < 53"
    by (rule power_int_le_imp_less_exp [rotated]) simp_all
  then have e': "e + int k \<le> 0"
    using kb by simp
  have "m' \<le> 2 ^ 53" using qm q53 by simp
  then have "m' < 2 ^ nat 54"
    by simp
  then have "bitlen m' \<le> 54"
    by (simp only: bitlen_le_iff_power) simp
  then have no: "\<not> (m' \<noteq> 0 \<and> 1024 < bitlen m' + (e + int k))"
    using e' by simp
  have r: "round_double M e = Dbl m' (e + int k)"
    using k no m by (simp add: round_double_def Let_def m'_def)
  define j where "j = nat (- (e + int k))"
  have je: "e + int k = - int j" "e = - int (j + k)"
    using e' by (simp_all add: j_def)
  have fM: "\<lfloor>dval M e\<rfloor> = q div 2 ^ j"
  proof -
    have "dval M e = of_int M / of_int (2 ^ (j + k))"
      by (simp add: dval_def je(2) power_int_minus field_simps del: of_nat_add)
    then have "\<lfloor>dval M e\<rfloor> = M div 2 ^ (j + k)"
      by (simp only: floor_divide_of_int_eq)
    also have "2 ^ (j + k) = (2 :: int) ^ k * 2 ^ j"
      by (simp add: power_add)
    also have "M div ((2 :: int) ^ k * 2 ^ j) = (M div 2 ^ k) div 2 ^ j"
      by (rule zdiv_zmult2_eq) simp
    finally show ?thesis by (simp add: q_def)
  qed
  have fm: "\<lfloor>dval m' (e + int k)\<rfloor> = m' div 2 ^ j"
  proof -
    have "dval m' (e + int k) = of_int m' / of_int (2 ^ j)"
      by (simp add: dval_def je(1) power_int_minus field_simps)
    then show ?thesis
      by (simp only: floor_divide_of_int_eq)
  qed
  have lo: "q div 2 ^ j \<le> m' div 2 ^ j"
    using qm(1) by (simp add: zdiv_mono1)
  have "m' div 2 ^ j \<le> (q + 1) div 2 ^ j"
    using qm(2) by (simp add: zdiv_mono1)
  also have "\<dots> \<le> q div 2 ^ j + 1"
  proof -
    have "(q + 1) div 2 ^ j \<le> (q + 2 ^ j) div 2 ^ j"
      by (rule zdiv_mono1) simp_all
    then show ?thesis by simp
  qed
  finally have hi: "m' div 2 ^ j \<le> q div 2 ^ j + 1" .
  have "\<not> M < 2 ^ 53"
    using big bitlen_le_iff_power [of M 53] by simp
  moreover have "\<forall>z. dval M e = of_int z \<longrightarrow> dval m' (e + int k) = of_int z"
  proof (intro allI impI)
    fix z :: int
    assume z: "dval M e = of_int z"
    have "dval M e = of_int M / of_int (2 ^ (j + k))"
      by (simp add: dval_def je(2) power_int_minus field_simps del: of_nat_add)
    with z have "(of_int M :: real) = of_int (z * 2 ^ (j + k))"
      by (simp add: field_simps)
    then have M: "M = z * 2 ^ j * 2 ^ k"
      by (simp only: of_int_eq_iff power_add mult.assoc)
    then have "M mod 2 ^ k = 0" "M div 2 ^ k = z * 2 ^ j"
      by simp_all
    then have "m' = z * 2 ^ j"
      by (simp add: m'_def shift_round_def Let_def)
    then show "dval m' (e + int k) = of_int z"
      by (simp add: dval_def je(1) power_int_minus field_simps)
  qed
  ultimately show ?thesis
    using r m0 fM fm lo hi by simp
qed

lemma n_examples_bounds:
  assumes "0 \<le> m" and "- 1074 \<le> e" and "dval m e \<le> 1" and "n < 2 ^ 53"
  shows "\<exists>c. n_examples n (Dbl m e) = Inr c \<and>
           \<lfloor>real n * dval m e\<rfloor> \<le> c \<and> c \<le> \<lfloor>real n * dval m e\<rfloor> + 1 \<and>
           (int n * m < 2 ^ 53 \<longrightarrow> c = \<lfloor>real n * dval m e\<rfloor>) \<and>
           (\<forall>z. real n * dval m e = of_int z \<longrightarrow> c = z)"
proof -
  let ?M = "int n * m"
  have v: "dval ?M e = real n * dval m e"
    by (simp add: dval_def)
  have M0: "0 \<le> ?M" using assms(1) by simp
  have d0: "0 \<le> dval m e"
    using assms(1) by (simp add: dval_def)
  have "real n * dval m e \<le> real n * 1"
    using assms(3) by (intro mult_left_mono) simp_all
  also have "\<dots> < 2 ^ 53"
    using assms(4) by (metis mult.right_neutral of_nat_less_numeral_power_cancel_iff)
  finally have x: "dval ?M e < 2 ^ 53" by (simp add: v)
  from round_double_product [OF M0 assms(2) x] obtain m' e' where
    r: "round_double ?M e = Dbl m' e'" and m0: "0 \<le> m'"
    and lo: "\<lfloor>dval ?M e\<rfloor> \<le> \<lfloor>dval m' e'\<rfloor>" and hi: "\<lfloor>dval m' e'\<rfloor> \<le> \<lfloor>dval ?M e\<rfloor> + 1"
    and ex: "?M < 2 ^ 53 \<longrightarrow> m' = ?M \<and> e' = e"
    and iz: "\<forall>z. dval ?M e = of_int z \<longrightarrow> dval m' e' = of_int z"
    by blast
  have c: "n_examples n (Dbl m e) = Inr \<lfloor>dval m' e'\<rfloor>"
    using float_of_nat_exact [OF assms(4)] r py_int_floor [OF m0, of e']
    by (simp add: n_examples_def)
  have "\<forall>z. real n * dval m e = of_int z \<longrightarrow> \<lfloor>dval m' e'\<rfloor> = z"
    using iz by (simp add: v)
  then show ?thesis
    using c lo hi ex by (auto simp: v)
qed

lemma round_double_sign:
  "round_double \<bar>M\<bar> e = Dbl m' e' \<Longrightarrow> \<exists>m''. round_double M e = Dbl m'' e'"
  by (auto simp: round_double_def Let_def split: if_splits)

lemma round_double_finite:
  assumes "- 1074 \<le> e" and "\<bar>dval M e\<bar> < 2 ^ 53"
  shows "\<exists>m' e'. round_double M e = Dbl m' e'"
proof -
  have "dval \<bar>M\<bar> e = \<bar>dval M e\<bar>"
    by (simp add: dval_def abs_mult)
  with assms(2) have "dval \<bar>M\<bar> e < 2 ^ 53" by simp
  from round_double_product [OF _ assms(1) this] obtain m' e' where
    "round_double \<bar>M\<bar> e = Dbl m' e'" by auto
  from round_double_sign [OF this] show ?thesis by blast
qed

lemma n_examples_finite:
  assumes "- 1074 \<le> e" and "\<bar>real n * dval m e\<bar> < 2 ^ 53" and "n < 2 ^ 53"
  shows "\<exists>c. n_examples n (Dbl m e) = Inr c"
proof -
  have "dval (int n * m) e = real n * dval m e"
    by (simp add: dval_def)
  with assms(2) have "\<bar>dval (int n * m) e\<bar> < 2 ^ 53" by simp
  from round_double_finite [OF assms(1) this] obtain m' e' where
    "round_double (int n * m) e = Dbl m' e'" by blast
  then show ?thesis
    using float_of_nat_exact [OF assms(3)] by (simp add: n_examples_def py_int_def)
qed

lemma n_examples_errors:
  "n_examples n r = Inl err \<Longrightarrow> err = OverflowError \<or> err = ValueError"
  by (auto simp: n_examples_def float_of_nat_def py_int_def split: sum.splits pydouble.splits)


lemma is_one_1 [simp]: "is_one (Dbl 1 0)"
  by (simp add: is_one_def dval_def)

lemma apply_data_ratio_one: "is_one r \<Longrightarrow> apply_data_ratio r xs = Inr xs"
  by (simp add: apply_data_ratio_def)

lemma apply_data_ratio_1 [simp]: "apply_data_ratio (Dbl 1 0) xs = Inr xs"
  by (simp add: apply_data_ratio_one)

lemma apply_data_ratio_count:
  "\<not> is_one r \<Longrightarrow> n_examples (length xs) r = Inr c \<Longrightarrow>
   apply_data_ratio r xs = Inr (py_slice_to c xs)"
  by (simp add: apply_data_ratio_def)

lemma apply_data_ratio_errors:
  "apply_data_ratio r xs = Inl err \<Longrightarrow>
   \<not> is_one r \<and> n_examples (length xs) r = Inl err \<and> (err = OverflowError \<or> err = ValueError)"
  by (auto simp: apply_data_ratio_def dest: n_examples_errors split: if_splits sum.splits)

lemma apply_data_ratio_nonfinite:
  "r = PInf \<or> r = NInf \<or> r = DNaN \<Longrightarrow> isl (apply_data_ratio r xs)"
  by (auto simp: apply_data_ratio_def n_examples_def is_one_def py_int_def is_zero_def
      split: sum.splits pydouble.splits)

lemma apply_data_ratio_finite:
  assumes "- 1074 \<le> e" and "\<bar>real (length xs) * dval m e\<bar> < 2 ^ 53" and "length xs < 2 ^ 53"
  shows "\<not> isl (apply_data_ratio (Dbl m e) xs)"
  using n_examples_finite [OF assms]
  by (auto simp: apply_data_ratio_def)

lemma half_count: "n_examples 10 (Dbl 1 (- 1)) = Inr 5"
  by (simp add: n_examples_def float_of_nat_def round_double_def shift_round_def py_int_def
      compute_bitlen Let_def)

lemma half_not_one: "\<not> is_one (Dbl 1 (- 1))"
  by (simp add: is_one_def dval_def)

lemma length_ten_queries: "length ten_queries = 10"
  by (simp add: ten_queries_def)

lemma init_data:
  "RetrievalDataset_init fs loaded name db sb vf mdl mcl cm nv nt r = Inr ds \<Longrightarrow>
   apply_data_ratio r loaded = Inr (data ds)"
  by (auto simp: RetrievalDataset_init_def Let_def split: sum.splits)

lemma open_if_Handler [simp]: "open_if b fs (Handler h) = Inr (if b then Some h else None)"
  by (simp add: open_if_def open_h5_def)

lemma open_h5_Handler [simp]: "open_h5 fs (Handler h) = Inr h"
  by (simp add: open_h5_def)

lemma sample_train_ratio:
  "apply_data_ratio r ten_queries = Inr d \<Longrightarrow>
   sample_train ''video'' r =
     Inr \<lparr>dset_name = ''tvr'', ctx_mode = ''video'', data_ratio = r, max_desc_len = Some 2,
          max_ctx_len = Some 2, normalize_vfeat = False, normalize_tfeat = False,
          use_video = True, use_sub = False, use_tef = False,
          desc_bert_h5 = sample_h5, vid_feat_h5 = Some sample_h5, sub_bert_h5 = None,
          data = d\<rparr>"
  by (simp add: sample_train_def RetrievalDataset_init_def)

lemma sample_train_video:
  "sample_train ''video'' (Dbl 1 0) =
     Inr \<lparr>dset_name = ''tvr'', ctx_mode = ''video'', data_ratio = Dbl 1 0, max_desc_len = Some 2,
          max_ctx_len = Some 2, normalize_vfeat = False, normalize_tfeat = False,
          use_video = True, use_sub = False, use_tef = False,
          desc_bert_h5 = sample_h5, vid_feat_h5 = Some sample_h5, sub_bert_h5 = None,
          data = ten_queries\<rparr>"
  by (simp add: sample_train_ratio)

lemma sample_train_half:
  "sample_train ''video'' (Dbl 1 (- 1)) =
     Inr \<lparr>dset_name = ''tvr'', ctx_mode = ''video'', data_ratio = Dbl 1 (- 1),
          max_desc_len = Some 2,
          max_ctx_len = Some 2, normalize_vfeat = False, normalize_tfeat = False,
          use_video = True, use_sub = False, use_tef = False,
          desc_bert_h5 = sample_h5, vid_feat_h5 = Some sample_h5, sub_bert_h5 = None,
          data = map sample_query [0, 1, 2, 3, 4]\<rparr>"
proof -
  have "apply_data_ratio (Dbl 1 (- 1)) ten_queries = Inr (py_slice_to 5 ten_queries)"
    using half_count by (simp add: apply_data_ratio_count half_not_one length_ten_queries)
  also have "py_slice_to 5 ten_queries = map sample_query [0, 1, 2, 3, 4]"
    by (simp add: py_slice_to_def ten_queries_def)
  finally show ?thesis
    by (rule sample_train_ratio)
qed

text \<open>
  The float \<^verbatim>\<open>0.7\<close> is the double \<open>6305039478318694 * 2 ^ - 53\<close>, a number below seven
  tenths, and the float \<^verbatim>\<open>0.29\<close> is the double \<open>5224175567749775 * 2 ^ - 54\<close>: each is
  nearer to the decimal than half the spacing of the doubles around it.
\<close>

lemma seven_tenths_count: "n_examples 10 (Dbl 6305039478318694 (- 53)) = Inr 7"
  by (simp add: n_examples_def float_of_nat_def round_double_def shift_round_def py_int_def
      compute_bitlen Let_def)

lemma seven_tenths_floor: "\<lfloor>real 10 * dval 6305039478318694 (- 53)\<rfloor> = 6"
  by (simp add: dval_def floor_eq_iff)

lemma seven_tenths_double:
  "is_double (Dbl 6305039478318694 (- 53)) \<and> \<not> is_one (Dbl 6305039478318694 (- 53)) \<and>
   0 < dval 6305039478318694 (- 53) \<and> dval 6305039478318694 (- 53) < 1 \<and>
   \<bar>dval 6305039478318694 (- 53) - 7 / 10\<bar> < 2 powi (- 54)"
  by (simp add: is_double_def is_one_def dval_def abs_if)

lemma twenty_nine_count: "n_examples 100 (Dbl 5224175567749775 (- 54)) = Inr 28"
  by (simp add: n_examples_def float_of_nat_def round_double_def shift_round_def py_int_def
      compute_bitlen Let_def)

lemma twenty_nine_double:
  "is_double (Dbl 5224175567749775 (- 54)) \<and> \<not> is_one (Dbl 5224175567749775 (- 54)) \<and>
   0 < dval 5224175567749775 (- 54) \<and> dval 5224175567749775 (- 54) < 1 \<and>
   \<bar>dval 5224175567749775 (- 54) - 29 / 100\<bar> < 2 powi (- 55)"
  by (simp add: is_double_def is_one_def dval_def abs_if)

text \<open>
  C5 as stated fails. The data ratio is a float, and the number of records kept is
  \<^verbatim>\<open>int(len * ratio)\<close> with the product rounded to a float. With ten records and the ratio
  \<^verbatim>\<open>0.7\<close>, a double \<open>r\<close> strictly between 0 and 1, the product is rounded to 7 and the
  first seven records are kept, while \<open>\<lfloor>10 * r\<rfloor>\<close> is 6. With a hundred records and the ratio
  \<^verbatim>\<open>0.29\<close>, 28 records are kept, while the floor of a hundred times 29 hundredths is 29.
\<close>

theorem data_ratio_rounding_counterexample:
  "is_double (Dbl 6305039478318694 (- 53)) \<and>
   0 < dval 6305039478318694 (- 53) \<and> dval 6305039478318694 (- 53) < 1 \<and>
   \<bar>dval 6305039478318694 (- 53) - 7 / 10\<bar> < 2 powi (- 54) \<and>
   length ten_queries = 10 \<and>
   \<lfloor>real (length ten_queries) * dval 6305039478318694 (- 53)\<rfloor> = 6 \<and>
   map_sum id data (sample_train ''video'' (Dbl 6305039478318694 (- 53))) =
     Inr (map sample_query [0, 1, 2, 3, 4, 5, 6]) \<and>
   map_sum id RetrievalDataset_len (sample_train ''video'' (Dbl 6305039478318694 (- 53))) = Inr 7 \<and>
   is_double (Dbl 5224175567749775 (- 54)) \<and>
   \<bar>dval 5224175567749775 (- 54) - 29 / 100\<bar> < 2 powi (- 55) \<and>
   \<lfloor>real (length (replicate 100 (sample_query 0))) * (29 / 100)\<rfloor> = 29 \<and>
   \<lfloor>real (length (replicate 100 (sample_query 0))) * dval 5224175567749775 (- 54)\<rfloor> = 28 \<and>
   map_sum id data
     (RetrievalDataset_init Map.empty (replicate 100 (sample_query 0)) ''tvr'' (Handler sample_h5)
        (Handler sample_h5) (Handler sample_h5) (Some 2) (Some 2) ''video'' False False
        (Dbl 5224175567749775 (- 54))) =
     Inr (replicate 28 (sample_query 0))"
proof -
  have "apply_data_ratio (Dbl 6305039478318694 (- 53)) ten_queries = Inr (py_slice_to 7 ten_queries)"
    using seven_tenths_count seven_tenths_double
    by (simp add: apply_data_ratio_count length_ten_queries)
  also have "py_slice_to 7 ten_queries = map sample_query [0, 1, 2, 3, 4, 5, 6]"
    by (simp add: py_slice_to_def ten_queries_def)
  finally have a: "apply_data_ratio (Dbl 6305039478318694 (- 53)) ten_queries =
      Inr (map sample_query [0, 1, 2, 3, 4, 5, 6])" .
  have b: "map_sum id data (sample_train ''video'' (Dbl 6305039478318694 (- 53))) =
      Inr (map sample_query [0, 1, 2, 3, 4, 5, 6])"
    by (simp add: sample_train_ratio [OF a])
  have c: "map_sum id RetrievalDataset_len (sample_train ''video'' (Dbl 6305039478318694 (- 53))) =
      Inr 7"
    by (simp add: sample_train_ratio [OF a] RetrievalDataset_len_def)
  have "apply_data_ratio (Dbl 5224175567749775 (- 54)) (replicate 100 (sample_query 0)) =
      Inr (py_slice_to 28 (replicate 100 (sample_query 0)))"
    using twenty_nine_count twenty_nine_double
    by (simp add: apply_data_ratio_count)
  also have "py_slice_to 28 (replicate 100 (sample_query 0)) = replicate 28 (sample_query 0)"
    by (simp add: py_slice_to_def)
  finally have d: "map_sum id data
     (RetrievalDataset_init Map.empty (replicate 100 (sample_query 0)) ''tvr'' (Handler sample_h5)
        (Handler sample_h5) (Handler sample_h5) (Some 2) (Some 2) ''video'' False False
        (Dbl 5224175567749775 (- 54))) =
     Inr (replicate 28 (sample_query 0))"
    by (simp add: RetrievalDataset_init_def)
  have f: "\<lfloor>real (length (replicate 100 (sample_query 0))) * dval 5224175567749775 (- 54)\<rfloor> = 28"
    by (simp add: dval_def floor_eq_iff)
  have g: "\<lfloor>real (length (replicate 100 (sample_query 0))) * (29 / 100)\<rfloor> = (29 :: int)"
    by simp
  have h: "\<lfloor>real (length ten_queries) * dval 6305039478318694 (- 53)\<rfloor> = 6"
    using seven_tenths_floor by (simp only: length_ten_queries)
  show ?thesis
    using seven_tenths_double twenty_nine_double length_ten_queries h b c d f g
    by (intro conjI) simp_all
qed

text \<open>
  C5, amended. Take a list of fewer than \<open>2 ^ 53\<close> records and a data ratio that is a double
  \<open>r\<close> strictly between 0 and 1. The training dataset keeps the first \<open>c\<close> records of the
  list, in their order, and reports the length \<open>c\<close>, where \<open>c\<close> is \<^verbatim>\<open>int(len * r)\<close> in
  float arithmetic: \<open>\<lfloor>len * r\<rfloor>\<close> or the next integer, and \<open>\<lfloor>len * r\<rfloor>\<close> itself if the
  product needs no rounding, which is so if \<open>len * m\<close> is below \<open>2 ^ 53\<close> for the
  significand \<open>m\<close> of \<open>r\<close>, and if \<open>len * r\<close> is an integer. A ratio of one half on ten
  records keeps the first five. A ratio equal to 1 keeps the whole list.
\<close>

theorem data_ratio_prefix:
  assumes "RetrievalDataset_init fs loaded name db sb vf mdl mcl cm nv nt r = Inr ds"
    and "length loaded < 2 ^ 53"
  shows "(r = Dbl m e \<and> is_double r \<and> 0 < dval m e \<and> dval m e < 1 \<longrightarrow>
            (\<exists>c. n_examples (length loaded) r = Inr c \<and>
                 data ds = take (nat c) loaded \<and>
                 RetrievalDataset_len ds = nat c \<and>
                 \<lfloor>real (length loaded) * dval m e\<rfloor> \<le> c \<and>
                 c \<le> \<lfloor>real (length loaded) * dval m e\<rfloor> + 1 \<and>
                 (int (length loaded) * m < 2 ^ 53 \<longrightarrow> c = \<lfloor>real (length loaded) * dval m e\<rfloor>) \<and>
                 (\<forall>z. real (length loaded) * dval m e = of_int z \<longrightarrow> c = z))) \<and>
         (r = Dbl m e \<and> is_double r \<and> dval m e = 1 / 2 \<and> length loaded = 10 \<longrightarrow>
            data ds = take 5 loaded) \<and>
         (is_one r \<longrightarrow> data ds = loaded)"
proof -
  have d: "apply_data_ratio r loaded = Inr (data ds)"
    using assms(1) by (rule init_data)
  have one: "is_one r \<longrightarrow> data ds = loaded"
    using d by (auto simp: apply_data_ratio_one)
  have main: "\<exists>c. n_examples (length loaded) r = Inr c \<and>
                 data ds = take (nat c) loaded \<and>
                 RetrievalDataset_len ds = nat c \<and>
                 \<lfloor>real (length loaded) * dval m e\<rfloor> \<le> c \<and>
                 c \<le> \<lfloor>real (length loaded) * dval m e\<rfloor> + 1 \<and>
                 (int (length loaded) * m < 2 ^ 53 \<longrightarrow> c = \<lfloor>real (length loaded) * dval m e\<rfloor>) \<and>
                 (\<forall>z. real (length loaded) * dval m e = of_int z \<longrightarrow> c = z)"
    if r: "r = Dbl m e" and dbl: "is_double r" and pos: "0 < dval m e" and lt: "dval m e < 1"
  proof -
    let ?n = "length loaded"
    have "(0 :: real) < 2 powi e"
      by simp
    with pos have m0: "0 \<le> m"
      by (auto simp: dval_def zero_less_mult_iff)
    have e0: "- 1074 \<le> e"
      using dbl r by (simp add: is_double_def)
    from n_examples_bounds [OF m0 e0 _ assms(2)] lt obtain c where
      c: "n_examples ?n (Dbl m e) = Inr c"
      and lo: "\<lfloor>real ?n * dval m e\<rfloor> \<le> c" and hi: "c \<le> \<lfloor>real ?n * dval m e\<rfloor> + 1"
      and ex: "int ?n * m < 2 ^ 53 \<longrightarrow> c = \<lfloor>real ?n * dval m e\<rfloor>"
      and iz: "\<forall>z. real ?n * dval m e = of_int z \<longrightarrow> c = z"
      by force
    have n1: "\<not> is_one r"
      using lt r by (simp add: is_one_def)
    have c0: "0 \<le> c"
    proof -
      have "0 \<le> real ?n * dval m e" using pos by simp
      then have "0 \<le> \<lfloor>real ?n * dval m e\<rfloor>" by simp
      with lo show ?thesis by linarith
    qed
    have cn: "c \<le> int ?n"
    proof (cases "?n = 0")
      case True
      then have "c = \<lfloor>real ?n * dval m e\<rfloor>" using ex by simp
      with True show ?thesis by simp
    next
      case False
      then have "real ?n * dval m e < real ?n * 1"
        using lt by (intro mult_strict_left_mono) simp_all
      then have "real ?n * dval m e < of_int (int ?n)" by simp
      then have "\<lfloor>real ?n * dval m e\<rfloor> < int ?n"
        by (simp only: floor_less_iff)
      with hi show ?thesis by simp
    qed
    have "apply_data_ratio r loaded = Inr (py_slice_to c loaded)"
      using n1 c r by (simp add: apply_data_ratio_count)
    with d c0 have dd: "data ds = take (nat c) loaded"
      by (simp add: py_slice_to_def)
    have "RetrievalDataset_len ds = nat c"
      using dd cn c0 by (simp add: RetrievalDataset_len_def)
    with c dd lo hi ex iz r show ?thesis by blast
  qed
  have half: "data ds = take 5 loaded"
    if r: "r = Dbl m e" and dbl: "is_double r" and v: "dval m e = 1 / 2" and l: "length loaded = 10"
  proof -
    from main [OF r dbl] v obtain c where
      dd: "data ds = take (nat c) loaded"
      and iz: "\<forall>z. real (length loaded) * dval m e = of_int z \<longrightarrow> c = z"
      by auto
    have "real (length loaded) * dval m e = of_int 5"
      using v l by simp
    with iz have "c = 5" by blast
    with dd show ?thesis by simp
  qed
  show ?thesis
    using main half one by blast
qed

theorem data_ratio_prefix_witness:
  "length ten_queries < 2 ^ 53 \<and> is_double (Dbl 1 (- 1)) \<and>
   0 < dval 1 (- 1) \<and> dval 1 (- 1) < 1 \<and> dval 1 (- 1) = 1 / 2 \<and> length ten_queries = 10 \<and>
   n_examples (length ten_queries) (Dbl 1 (- 1)) = Inr 5 \<and>
   map_sum id data (sample_train ''video'' (Dbl 1 (- 1))) = Inr (map sample_query [0, 1, 2, 3, 4]) \<and>
   map_sum id RetrievalDataset_len (sample_train ''video'' (Dbl 1 (- 1))) = Inr 5 \<and>
   is_one (Dbl 1 0) \<and>
   map_sum id data (sample_train ''video'' (Dbl 1 0)) = Inr ten_queries"
proof -
  have h: "sample_train ''video'' (Dbl 1 (- 1)) = Inr (projr (sample_train ''video'' (Dbl 1 (- 1))))"
    by (simp add: sample_train_half)
  have w: "sample_train ''video'' (Dbl 1 0) = Inr (projr (sample_train ''video'' (Dbl 1 0)))"
    by (simp add: sample_train_video)
  have l: "length ten_queries < 2 ^ 53"
    by (simp add: length_ten_queries)
  have v: "is_double (Dbl 1 (- 1)) \<and> 0 < dval 1 (- 1) \<and> dval 1 (- 1) < 1 \<and> dval 1 (- 1) = 1 / 2"
    by (simp add: is_double_def dval_def)
  have t: "take 5 ten_queries = map sample_query [0, 1, 2, 3, 4]"
    by (simp add: ten_queries_def)
  note p = data_ratio_prefix [OF h [unfolded sample_train_def] l, folded sample_train_def,
      where m = 1 and e = "- 1"]
  note q = data_ratio_prefix [OF w [unfolded sample_train_def] l, folded sample_train_def,
      where m = 1 and e = 0]
  from p v have "\<exists>c. n_examples (length ten_queries) (Dbl 1 (- 1)) = Inr c \<and>
      data (projr (sample_train ''video'' (Dbl 1 (- 1)))) = take (nat c) ten_queries \<and>
      RetrievalDataset_len (projr (sample_train ''video'' (Dbl 1 (- 1)))) = nat c"
    by blast
  then have a: "data (projr (sample_train ''video'' (Dbl 1 (- 1)))) = take 5 ten_queries \<and>
      RetrievalDataset_len (projr (sample_train ''video'' (Dbl 1 (- 1)))) = 5"
    using half_count by (auto simp: length_ten_queries)
  from q have b: "data (projr (sample_train ''video'' (Dbl 1 0))) = ten_queries"
    by simp
  have c: "map_sum id data (sample_train ''video'' (Dbl 1 (- 1))) =
      Inr (map sample_query [0, 1, 2, 3, 4])"
    using a t by (subst h) simp
  have d: "map_sum id RetrievalDataset_len (sample_train ''video'' (Dbl 1 (- 1))) = Inr 5"
    using a by (subst h) simp
  have f: "map_sum id data (sample_train ''video'' (Dbl 1 0)) = Inr ten_queries"
    using b by (subst w) simp
  show ?thesis
    using l v c d f half_count by (simp add: length_ten_queries)
qed

subsection \<open>Errors of the constructors\<close>

lemma init_handlers:
  "RetrievalDataset_init fs loaded name (Handler h1) (Handler h2) (Handler h3)
       mdl mcl cm nv nt r =
     (case apply_data_ratio r loaded of
        Inl err \<Rightarrow> Inl err
      | Inr d \<Rightarrow>
          Inr \<lparr>dset_name = name, ctx_mode = cm, data_ratio = r, max_desc_len = mdl,
               max_ctx_len = mcl, normalize_vfeat = nv, normalize_tfeat = nt,
               use_video = is_substr ''video'' cm, use_sub = is_substr ''sub'' cm,
               use_tef = is_substr ''tef'' cm, desc_bert_h5 = h1,
               vid_feat_h5 = (if is_substr ''video'' cm then Some h3 else None),
               sub_bert_h5 = (if is_substr ''sub'' cm then Some h2 else None), data = d\<rparr>)"
  by (simp add: RetrievalDataset_init_def Let_def split: sum.splits)

lemma init_handlers_error:
  "(RetrievalDataset_init fs loaded name (Handler h1) (Handler h2) (Handler h3)
       mdl mcl cm nv nt r = Inl err) = (apply_data_ratio r loaded = Inl err)"
  by (simp add: init_handlers split: sum.splits)

lemma eval_init_handlers_error:
  "(RetrievalEvalDataset_init fs loaded vi name split (Handler h1) mdl mcl (Handler h2)
       (Handler h3) cm dm r nv nt = Inl err) =
   (if dm \<notin> set [''context'', ''query''] then err = AssertionError
    else if isl (apply_data_ratio r loaded) then apply_data_ratio r loaded = Inl err
    else vi split = None \<and> err = KeyError split)"
  by (cases "apply_data_ratio r loaded"; cases "vi split")
    (auto simp add: RetrievalEvalDataset_init_def Let_def)

lemma open_h5_error: "open_h5 fs x = Inl err \<Longrightarrow> \<exists>p. err = OSError p"
  by (auto simp: open_h5_def split: path_or_handler.splits option.splits)

lemma open_if_error: "open_if b fs x = Inl err \<Longrightarrow> \<exists>p. err = OSError p"
  by (auto simp: open_if_def dest: open_h5_error split: if_splits sum.splits)

lemma init_error_kinds:
  assumes "RetrievalDataset_init fs loaded name db sb vf mdl mcl cm nv nt r = Inl err"
  shows "err = OverflowError \<or> err = ValueError \<or> (\<exists>p. err = OSError p)"
proof (cases "apply_data_ratio r loaded")
  case (Inl x)
  with assms have "x = err"
    by (simp add: RetrievalDataset_init_def)
  with Inl apply_data_ratio_errors [of r loaded err] show ?thesis by blast
next
  case (Inr d)
  with assms show ?thesis
    by (auto simp: RetrievalDataset_init_def Let_def split: sum.splits
        dest: open_h5_error open_if_error)
qed

lemma eval_init_error_kinds:
  assumes "RetrievalEvalDataset_init fs loaded vi name split db mdl mcl sb vf cm dm r nv nt = Inl err"
  shows "err = AssertionError \<or> err = OverflowError \<or> err = ValueError \<or>
         err = KeyError split \<or> (\<exists>p. err = OSError p)"
proof (cases "dm \<notin> set [''context'', ''query'']")
  case True
  with assms show ?thesis
    by (simp add: RetrievalEvalDataset_init_def)
next
  case False
  show ?thesis
  proof (cases "apply_data_ratio r loaded")
    case (Inl x)
    with assms False have "x = err"
      by (auto simp: RetrievalEvalDataset_init_def)
    with Inl apply_data_ratio_errors [of r loaded err] show ?thesis by blast
  next
    case (Inr d)
    with assms False open_h5_error [of fs db err]
      open_if_error [of "is_substr ''video'' cm" fs vf err]
      open_if_error [of "is_substr ''sub'' cm" fs sb err]
    show ?thesis
      by (auto simp: RetrievalEvalDataset_init_def Let_def split: sum.splits option.splits)
  qed
qed

text \<open>
  C2 as stated fails: the floats \<^verbatim>\<open>2.0\<close> and \<^verbatim>\<open>0.0\<close> are outside \<open>(0, 1]\<close>, and the
  constructors return a dataset for them: with ratio 2 the ten records are all kept, with
  ratio 0 none is.
\<close>

theorem ratio_unchecked_counterexample:
  "is_double (Dbl 1 1) \<and> dval 1 1 = 2 \<and> is_double (Dbl 0 0) \<and> dval 0 0 = 0 \<and>
   RetrievalDataset_init Map.empty ten_queries ''tvr'' (Handler sample_h5) (Handler sample_h5)
       (Handler sample_h5) (Some 2) (Some 2) ''video'' False False (Dbl 1 1) =
     Inr \<lparr>dset_name = ''tvr'', ctx_mode = ''video'', data_ratio = Dbl 1 1, max_desc_len = Some 2,
          max_ctx_len = Some 2, normalize_vfeat = False, normalize_tfeat = False,
          use_video = True, use_sub = False, use_tef = False,
          desc_bert_h5 = sample_h5, vid_feat_h5 = Some sample_h5, sub_bert_h5 = None,
          data = ten_queries\<rparr> \<and>
   RetrievalEvalDataset_init Map.empty ten_queries sample_video_idx ''tvr'' ''val''
       (Handler sample_h5) (Some 2) (Some 2) (Handler sample_h5) (Handler sample_h5)
       ''video'' ''query'' (Dbl 0 0) False False =
     Inr \<lparr>dset_name = ''tvr'', ctx_mode = ''video'', data_ratio = Dbl 0 0, max_desc_len = Some 2,
          max_ctx_len = Some 2, normalize_vfeat = False, normalize_tfeat = False,
          use_video = True, use_sub = False, use_tef = False,
          desc_bert_h5 = sample_h5, vid_feat_h5 = Some sample_h5, sub_bert_h5 = None,
          eval_split_name = ''val'', load_gt_video = False, data_mode = Some ''query'',
          query_data = [],
          video_data = [VideoEntry ''v1'' (Fin 60), VideoEntry ''v2'' (Fin 30)],
          video2idx = [(''v1'', 0), (''v2'', 1)]\<rparr>"
proof -
  have "n_examples 10 (Dbl 1 1) = Inr 20"
    by (simp add: n_examples_def float_of_nat_def round_double_def shift_round_def py_int_def
        compute_bitlen Let_def)
  then have a: "apply_data_ratio (Dbl 1 1) ten_queries = Inr ten_queries"
    by (simp add: apply_data_ratio_def is_one_def dval_def length_ten_queries py_slice_to_def)
  have "n_examples 10 (Dbl 0 0) = Inr 0"
    by (simp add: n_examples_def float_of_nat_def round_double_def shift_round_def py_int_def
        compute_bitlen Let_def)
  then have b: "apply_data_ratio (Dbl 0 0) ten_queries = Inr []"
    by (simp add: apply_data_ratio_def is_one_def dval_def length_ten_queries py_slice_to_def)
  have c: "is_double (Dbl 1 1) \<and> dval 1 1 = 2 \<and> is_double (Dbl 0 0) \<and> dval 0 0 = 0"
    by (simp add: is_double_def dval_def)
  show ?thesis
    using c by (simp add: RetrievalDataset_init_def RetrievalEvalDataset_init_def a b
        sample_video_idx_def)
qed

text \<open>
  C2, amended. Neither constructor checks the data ratio against an interval, and none of
  their errors is a configuration error: the ratio makes construction fail only where
  \<^verbatim>\<open>int(len * ratio)\<close> raises, with OverflowError for an infinite product and ValueError for
  a product that is NaN, and an infinite or NaN ratio always does. With the stores given as
  open handles, the training dataset is constructed exactly if the ratio does not raise, and
  the evaluation dataset fails with AssertionError for a data mode other than
  \<^verbatim>\<open>context\<close> and \<^verbatim>\<open>query\<close>, else with the error of the ratio, else with KeyError for a
  split that the video index does not have. For a list of fewer than \<open>2 ^ 53\<close> records,
  every ratio that is a finite double whose product with the length is below \<open>2 ^ 53\<close> in
  magnitude is accepted, in particular every ratio in \<open>(0, 1]\<close>.
\<close>

theorem init_ratio_errors:
  "((RetrievalDataset_init fs loaded name (Handler h1) (Handler h2) (Handler h3)
        mdl mcl cm nv nt r = Inl err) = (apply_data_ratio r loaded = Inl err)) \<and>
   ((RetrievalEvalDataset_init fs loaded vi name split (Handler h1) mdl mcl (Handler h2)
        (Handler h3) cm dm r nv nt = Inl err) =
    (if dm \<notin> set [''context'', ''query''] then err = AssertionError
     else if isl (apply_data_ratio r loaded) then apply_data_ratio r loaded = Inl err
     else vi split = None \<and> err = KeyError split)) \<and>
   (RetrievalDataset_init fs loaded name db sb vf mdl mcl cm nv nt r = Inl err \<longrightarrow>
      err = OverflowError \<or> err = ValueError \<or> (\<exists>p. err = OSError p)) \<and>
   (RetrievalEvalDataset_init fs loaded vi name split db mdl mcl sb vf cm dm r nv nt = Inl err \<longrightarrow>
      err = AssertionError \<or> err = OverflowError \<or> err = ValueError \<or>
      err = KeyError split \<or> (\<exists>p. err = OSError p)) \<and>
   (apply_data_ratio r loaded = Inl err \<longrightarrow>
      \<not> is_one r \<and> n_examples (length loaded) r = Inl err \<and>
      (err = OverflowError \<or> err = ValueError)) \<and>
   (r = PInf \<or> r = NInf \<or> r = DNaN \<longrightarrow> isl (apply_data_ratio r loaded)) \<and>
   (r = Dbl m e \<and> is_double r \<and> length loaded < 2 ^ 53 \<and>
    \<bar>real (length loaded) * dval m e\<bar> < 2 ^ 53 \<longrightarrow> \<not> isl (apply_data_ratio r loaded)) \<and>
   (r = Dbl m e \<and> is_double r \<and> length loaded < 2 ^ 53 \<and> 0 < dval m e \<and> dval m e \<le> 1 \<longrightarrow>
      \<not> isl (apply_data_ratio r loaded) \<and>
      \<not> isl (RetrievalDataset_init fs loaded name (Handler h1) (Handler h2) (Handler h3)
               mdl mcl cm nv nt r))"
proof -
  have fin: "\<not> isl (apply_data_ratio r loaded)"
    if "r = Dbl m e \<and> is_double r \<and> length loaded < 2 ^ 53 \<and>
        \<bar>real (length loaded) * dval m e\<bar> < 2 ^ 53"
    using that apply_data_ratio_finite [of e loaded m] by (auto simp: is_double_def)
  have unit: "\<not> isl (apply_data_ratio r loaded) \<and>
      \<not> isl (RetrievalDataset_init fs loaded name (Handler h1) (Handler h2) (Handler h3)
               mdl mcl cm nv nt r)"
    if h: "r = Dbl m e \<and> is_double r \<and> length loaded < 2 ^ 53 \<and> 0 < dval m e \<and> dval m e \<le> 1"
  proof -
    have "real (length loaded) * dval m e \<le> real (length loaded) * 1"
      using h by (intro mult_left_mono) simp_all
    moreover have "real (length loaded) < 2 ^ 53"
      using h by (metis of_nat_less_numeral_power_cancel_iff)
    moreover have "0 \<le> real (length loaded) * dval m e"
      using h by simp
    ultimately have "\<bar>real (length loaded) * dval m e\<bar> < 2 ^ 53"
      by simp
    with h fin have a: "\<not> isl (apply_data_ratio r loaded)" by blast
    then show ?thesis
      by (cases "apply_data_ratio r loaded") (simp_all add: init_handlers)
  qed
  show ?thesis
    using init_handlers_error [of fs loaded name h1 h2 h3 mdl mcl cm nv nt r err]
      eval_init_handlers_error [of fs loaded vi name split h1 mdl mcl h2 h3 cm dm r nv nt err]
      init_error_kinds [of fs loaded name db sb vf mdl mcl cm nv nt r err]
      eval_init_error_kinds [of fs loaded vi name split db mdl mcl sb vf cm dm r nv nt err]
      apply_data_ratio_errors [of r loaded err]
      apply_data_ratio_nonfinite [of r loaded]
      fin unit
    by (intro conjI impI) blast+
qed

theorem init_ratio_errors_witness:
  "is_double (Dbl 1 (- 1)) \<and> length ten_queries < 2 ^ 53 \<and>
   0 < dval 1 (- 1) \<and> dval 1 (- 1) \<le> 1 \<and>
   \<bar>real (length ten_queries) * dval 1 (- 1)\<bar> < 2 ^ 53 \<and>
   \<not> isl (sample_train ''video_sub'' (Dbl 1 (- 1))) \<and>
   ''query'' \<in> set [''context'', ''query''] \<and> sample_video_idx ''val'' \<noteq> None \<and>
   \<not> isl (sample_eval ''query'' (Dbl 1 (- 1))) \<and>
   sample_train ''video'' PInf = Inl OverflowError \<and>
   sample_train ''video'' DNaN = Inl ValueError \<and>
   sample_eval ''query'' NInf = Inl OverflowError \<and>
   sample_eval ''bad'' DNaN = Inl AssertionError"
proof -
  have v: "is_double (Dbl 1 (- 1)) \<and> length ten_queries < 2 ^ 53 \<and>
      0 < dval 1 (- 1) \<and> dval 1 (- 1) \<le> 1 \<and>
      \<bar>real (length ten_queries) * dval 1 (- 1)\<bar> < 2 ^ 53"
    by (simp add: is_double_def dval_def length_ten_queries)
  note a = init_ratio_errors [where fs = Map.empty and loaded = ten_queries and name = "''tvr''"
      and ?h1.0 = sample_h5 and ?h2.0 = sample_h5 and ?h3.0 = sample_h5 and mdl = "Some 2"
      and mcl = "Some 2" and cm = "''video_sub''" and nv = False and nt = False
      and r = "Dbl 1 (- 1)" and m = 1 and e = "- 1",
      folded sample_train_def]
  note b = init_ratio_errors [where fs = Map.empty and loaded = ten_queries and name = "''tvr''"
      and ?h1.0 = sample_h5 and ?h2.0 = sample_h5 and ?h3.0 = sample_h5 and mdl = "Some 2"
      and mcl = "Some 2" and cm = "''video''" and nv = False and nt = False
      and vi = sample_video_idx and split = "''val''" and dm = "''query''"
      and r = "Dbl 1 (- 1)" and m = 1 and e = "- 1",
      folded sample_eval_def]
  have p: "apply_data_ratio PInf ten_queries = Inl OverflowError"
    by (simp add: apply_data_ratio_def is_one_def n_examples_def float_of_nat_def
        round_double_def shift_round_def py_int_def compute_bitlen Let_def is_zero_def is_neg_def
        length_ten_queries)
  have n: "apply_data_ratio NInf ten_queries = Inl OverflowError"
    by (simp add: apply_data_ratio_def is_one_def n_examples_def float_of_nat_def
        round_double_def shift_round_def py_int_def compute_bitlen Let_def is_zero_def is_neg_def
        length_ten_queries)
  have q: "apply_data_ratio DNaN ten_queries = Inl ValueError"
    by (simp add: apply_data_ratio_def is_one_def n_examples_def float_of_nat_def
        round_double_def shift_round_def py_int_def compute_bitlen Let_def is_zero_def is_neg_def
        length_ten_queries)
  note c = init_ratio_errors [where fs = Map.empty and loaded = ten_queries and name = "''tvr''"
      and ?h1.0 = sample_h5 and ?h2.0 = sample_h5 and ?h3.0 = sample_h5 and mdl = "Some 2"
      and mcl = "Some 2" and cm = "''video''" and nv = False and nt = False
      and r = PInf and err = OverflowError, folded sample_train_def]
  note d = init_ratio_errors [where fs = Map.empty and loaded = ten_queries and name = "''tvr''"
      and ?h1.0 = sample_h5 and ?h2.0 = sample_h5 and ?h3.0 = sample_h5 and mdl = "Some 2"
      and mcl = "Some 2" and cm = "''video''" and nv = False and nt = False
      and r = DNaN and err = ValueError, folded sample_train_def]
  note f = init_ratio_errors [where fs = Map.empty and loaded = ten_queries and name = "''tvr''"
      and ?h1.0 = sample_h5 and ?h2.0 = sample_h5 and ?h3.0 = sample_h5 and mdl = "Some 2"
      and mcl = "Some 2" and cm = "''video''" and nv = False and nt = False
      and vi = sample_video_idx and split = "''val''" and dm = "''query''"
      and r = NInf and err = OverflowError, folded sample_eval_def]
  note g = init_ratio_errors [where fs = Map.empty and loaded = ten_queries and name = "''tvr''"
      and ?h1.0 = sample_h5 and ?h2.0 = sample_h5 and ?h3.0 = sample_h5 and mdl = "Some 2"
      and mcl = "Some 2" and cm = "''video''" and nv = False and nt = False
      and vi = sample_video_idx and split = "''val''" and dm = "''bad''"
      and r = DNaN and err = AssertionError, folded sample_eval_def]
  have t: "\<not> isl (sample_train ''video_sub'' (Dbl 1 (- 1)))"
    using a v by blast
  have s: "\<not> isl (apply_data_ratio (Dbl 1 (- 1)) ten_queries)"
    using a v by blast
  have i: "sample_video_idx ''val'' \<noteq> None"
    by (simp add: sample_video_idx_def)
  have u: "\<not> isl (sample_eval ''query'' (Dbl 1 (- 1)))"
  proof
    assume "isl (sample_eval ''query'' (Dbl 1 (- 1)))"
    then obtain x where "sample_eval ''query'' (Dbl 1 (- 1)) = Inl x"
      by (cases "sample_eval ''query'' (Dbl 1 (- 1))") simp_all
    with b [where err = x] s i show False
      by simp
  qed
  have w1: "sample_train ''video'' PInf = Inl OverflowError"
    using c p by blast
  have w2: "sample_train ''video'' DNaN = Inl ValueError"
    using d q by blast
  have w3: "sample_eval ''query'' NInf = Inl OverflowError"
    using f n by simp
  have w4: "sample_eval ''bad'' DNaN = Inl AssertionError"
    using g by simp
  have k: "''query'' \<in> set [''context'', ''query'']"
    by simp
  from v t k i u w1 w2 w3 w4 show ?thesis
    by blast
qed

subsection \<open>Shapes of the features\<close>

lemma length_l2_normalize_vec [simp]: "length (l2_normalize_vec v) = length v"
  by (simp add: l2_normalize_vec_def split: pyfloat.splits)

lemma length_np_mean_axis0 [simp]: "length (np_mean_axis0 a) = ncols a"
  by (simp add: np_mean_axis0_def)

lemma rows_slice_Some: "rows (slice_rows (Some n) a) = take n (rows a)"
  by (simp add: slice_rows_def)

lemma ncols_slice [simp]: "ncols (slice_rows n a) = ncols a"
  by (simp add: slice_rows_def split: option.splits)

lemma ncols_l2 [simp]: "ncols (l2_normalize_np_array a) = ncols a"
  by (simp add: l2_normalize_np_array_def)

lemma rows_l2_length [simp]: "length (rows (l2_normalize_np_array a)) = length (rows a)"
  by (simp add: l2_normalize_np_array_def)

text \<open>The mean of an array of finite numbers is the arithmetic mean of every column; with
  no row it is NaN everywhere.\<close>

lemma fsum_Fin: "fsum (map Fin xs) = Fin (sum_list xs)"
  by (induction xs) (simp_all add: fsum_def)

lemma np_mean_axis0_finite:
  assumes "wf_array2 a" and "rows a = map (map Fin) m" and "m \<noteq> []" and "j < ncols a"
  shows "np_mean_axis0 a ! j = Fin (sum_list (map (\<lambda>r. r ! j) m) / real (length m))"
proof -
  have "\<forall>r \<in> set m. j < length r"
    using assms(1,2,4) by (auto simp: wf_array2_def list_all_iff)
  then have "map (\<lambda>r. r ! j) (map (map Fin) m) = map Fin (map (\<lambda>r. r ! j) m)"
    by simp
  then have "fsum (map (\<lambda>r. r ! j) (rows a)) = Fin (sum_list (map (\<lambda>r. r ! j) m))"
    by (simp only: assms(2) fsum_Fin)
  then show ?thesis
    using assms(2,3,4) by (simp add: np_mean_axis0_def)
qed

lemma np_mean_axis0_no_rows:
  "rows a = [] \<Longrightarrow> np_mean_axis0 a = replicate (ncols a) NaN"
  by (simp add: np_mean_axis0_def map_replicate_const)

lemma py_str_0: "py_str 0 = ''0''"
  by (simp add: py_str_def str_nat.simps)

text \<open>
  C4. If the store has an array under the key of the description and a maximum description
  length \<open>n\<close> is configured, \<^verbatim>\<open>get_query_feat_by_desc_id\<close> (of either class) returns a
  tensor whose number of rows is the minimum of the stored number of rows and \<open>n\<close>: never
  more than \<open>n\<close>, and the stored number when that is at most \<open>n\<close>.
\<close>

theorem query_feat_truncated:
  assumes "desc_bert_h5 ds (py_str did) = Some a" and "max_desc_len ds = Some n"
  shows "\<exists>t. get_query_feat_by_desc_id ds did = Inr t \<and>
             shape t = [min (length (rows a)) n, ncols a] \<and>
             length (children (body t)) = min (length (rows a)) n \<and>
             length (children (body t)) \<le> n \<and>
             (length (rows a) \<le> n \<longrightarrow> length (children (body t)) = length (rows a))"
  using assms
  by (simp add: get_query_feat_by_desc_id_def h5_lookup_def from_numpy2_def children_def
      rows_slice_Some Let_def)

theorem query_feat_truncated_witness:
  "desc_bert_h5 (projr (sample_train ''video'' (Dbl 1 0))) (py_str 0) = Some sample_array \<and>
   max_desc_len (projr (sample_train ''video'' (Dbl 1 0))) = Some 2 \<and>
   length (rows sample_array) = 3 \<and>
   map_sum id shape (get_query_feat_by_desc_id (projr (sample_train ''video'' (Dbl 1 0))) 0) =
     Inr [2, 2] \<and>
   map_sum id shape
     (get_query_feat_by_desc_id ((projr (sample_train ''video'' (Dbl 1 0)))\<lparr>max_desc_len := Some 5\<rparr>) 0) =
     Inr [3, 2]"
proof -
  let ?ds = "projr (sample_train ''video'' (Dbl 1 0))"
  have s: "desc_bert_h5 ?ds (py_str 0) = Some sample_array"
    by (simp add: sample_train_video py_str_0 sample_h5_def)
  have m: "max_desc_len ?ds = Some 2"
    by (simp add: sample_train_video)
  have s': "desc_bert_h5 (?ds\<lparr>max_desc_len := Some 5\<rparr>) (py_str 0) = Some sample_array"
    using s by simp
  have m': "max_desc_len (?ds\<lparr>max_desc_len := Some 5\<rparr>) = Some 5"
    by simp
  have l: "length (rows sample_array) = 3"
    by (simp add: sample_array_def)
  have c: "ncols sample_array = 2"
    by (simp add: sample_array_def)
  from query_feat_truncated [OF s m] l c
  have a: "map_sum id shape (get_query_feat_by_desc_id ?ds 0) = Inr [2, 2]"
    by auto
  from query_feat_truncated [OF s' m'] l c
  have b: "map_sum id shape (get_query_feat_by_desc_id (?ds\<lparr>max_desc_len := Some 5\<rparr>) 0) =
      Inr [3, 2]"
    by auto
  show ?thesis using s m l a b by simp
qed

text \<open>Without a maximum description length the query feature has all the stored rows, and a
  description whose key is not in the store raises KeyError.\<close>

lemma query_feat_not_truncated:
  assumes "desc_bert_h5 ds (py_str did) = Some a" and "max_desc_len ds = None"
  shows "\<exists>t. get_query_feat_by_desc_id ds did = Inr t \<and> shape t = [length (rows a), ncols a]"
  using assms
  by (simp add: get_query_feat_by_desc_id_def h5_lookup_def from_numpy2_def slice_rows_def Let_def)

lemma query_feat_missing:
  "desc_bert_h5 ds (py_str did) = None \<Longrightarrow>
   get_query_feat_by_desc_id ds did = Inl (KeyError (py_str did))"
  by (simp add: get_query_feat_by_desc_id_def h5_lookup_def)

subsection \<open>The evaluation dataset: modes and the ground-truth video name\<close>

lemma eval_init_fields:
  assumes "RetrievalEvalDataset_init fs loaded vi name split db mdl mcl sb vf cm dm r nv nt = Inr ds"
  shows "\<exists>vd. vi split = Some vd \<and> video_data ds = map (\<lambda>(k, v). VideoEntry k (fst v)) vd"
    and "apply_data_ratio r loaded = Inr (query_data ds)"
    and "data_mode ds = Some dm"
    and "\<not> load_gt_video ds"
    and "dm = ''context'' \<or> dm = ''query''"
  using assms
  by (auto simp: RetrievalEvalDataset_init_def Let_def split: sum.splits option.splits if_splits)

text \<open>
  C6. An evaluation dataset just constructed reports the number of videos of the split if
  its data mode is \<^verbatim>\<open>context\<close> and the number of query records otherwise. Setting the
  mode to \<^verbatim>\<open>context\<close> succeeds and makes the length the number of videos of the split
  (the number of distinct video names, the keys of the index being distinct), whatever the
  queries are, and the item getter then is the context builder; setting it to \<^verbatim>\<open>query\<close>
  makes the length the number of query records and the item getter the query builder.
\<close>

theorem eval_len_by_mode:
  assumes "RetrievalEvalDataset_init fs loaded vi name split db mdl mcl sb vf cm dm r nv nt = Inr ds"
  shows "\<exists>vd q. vi split = Some vd \<and> apply_data_ratio r loaded = Inr q \<and>
     RetrievalEvalDataset_len ds = (if dm = ''context'' then length vd else length q) \<and>
     (\<exists>dc. set_data_mode ds ''context'' = Inr dc \<and>
        RetrievalEvalDataset_len dc = length vd \<and>
        (distinct (map fst vd) \<longrightarrow> RetrievalEvalDataset_len dc = card (fst ` set vd)) \<and>
        (\<forall>i. RetrievalEvalDataset_getitem dc i = get_item_context dc i)) \<and>
     (\<exists>dq. set_data_mode ds ''query'' = Inr dq \<and>
        RetrievalEvalDataset_len dq = length q \<and>
        (\<forall>i. RetrievalEvalDataset_getitem dq i = get_item_query dq i))"
proof -
  from eval_init_fields [OF assms] obtain vd where
    vd: "vi split = Some vd" "video_data ds = map (\<lambda>(k, v). VideoEntry k (fst v)) vd"
    and q: "apply_data_ratio r loaded = Inr (query_data ds)" and m: "data_mode ds = Some dm"
    by blast
  have c: "distinct (map fst vd) \<longrightarrow> length vd = card (fst ` set vd)"
    by (metis distinct_card length_map list.set_map)
  show ?thesis
    using vd q m c
    by (simp add: RetrievalEvalDataset_len_def RetrievalEvalDataset_getitem_def set_data_mode_def)
qed

lemma sample_eval_val:
  "sample_eval dm (Dbl 1 0) =
     (if dm \<in> set [''context'', ''query''] then
     Inr \<lparr>dset_name = ''tvr'', ctx_mode = ''video'', data_ratio = Dbl 1 0, max_desc_len = Some 2,
          max_ctx_len = Some 2, normalize_vfeat = False, normalize_tfeat = False,
          use_video = True, use_sub = False, use_tef = False,
          desc_bert_h5 = sample_h5, vid_feat_h5 = Some sample_h5, sub_bert_h5 = None,
          eval_split_name = ''val'', load_gt_video = False, data_mode = Some dm,
          query_data = ten_queries,
          video_data = [VideoEntry ''v1'' (Fin 60), VideoEntry ''v2'' (Fin 30)],
          video2idx = [(''v1'', 0), (''v2'', 1)]\<rparr> else Inl AssertionError)"
  by (simp add: sample_eval_def RetrievalEvalDataset_init_def sample_video_idx_def)

theorem eval_len_by_mode_witness:
  "map_sum id RetrievalEvalDataset_len (sample_eval ''query'' (Dbl 1 0)) = Inr 10 \<and>
   map_sum id RetrievalEvalDataset_len
     (set_data_mode (projr (sample_eval ''query'' (Dbl 1 0))) ''context'') = Inr 2 \<and>
   distinct (map fst [(''v1'', (Fin 60, 0 :: int)), (''v2'', (Fin 30, 1))]) \<and>
   map_sum id RetrievalEvalDataset_len
     (set_data_mode (projr (sample_eval ''context'' (Dbl 1 0))) ''query'') = Inr 10"
proof -
  have h: "sample_eval ''query'' (Dbl 1 0) = Inr (projr (sample_eval ''query'' (Dbl 1 0)))"
    by (simp add: sample_eval_val)
  have k: "sample_eval ''context'' (Dbl 1 0) = Inr (projr (sample_eval ''context'' (Dbl 1 0)))"
    by (simp add: sample_eval_val)
  have l: "apply_data_ratio (Dbl 1 0) ten_queries = Inr ten_queries \<and> length ten_queries = 10"
    by (simp add: length_ten_queries)
  note p = eval_len_by_mode [OF h [unfolded sample_eval_def], folded sample_eval_def]
  note q = eval_len_by_mode [OF k [unfolded sample_eval_def], folded sample_eval_def]
  have a: "map_sum id RetrievalEvalDataset_len
     (set_data_mode (projr (sample_eval ''query'' (Dbl 1 0))) ''context'') = Inr 2"
    using p by (auto simp: sample_video_idx_def)
  have b: "map_sum id RetrievalEvalDataset_len
     (set_data_mode (projr (sample_eval ''context'' (Dbl 1 0))) ''query'') = Inr 10"
    using q l by (auto simp: sample_video_idx_def)
  have c: "RetrievalEvalDataset_len (projr (sample_eval ''query'' (Dbl 1 0))) = 10"
    using p l by (auto simp: sample_video_idx_def)
  have d: "map_sum id RetrievalEvalDataset_len (sample_eval ''query'' (Dbl 1 0)) = Inr 10"
    using c by (subst h) simp
  show ?thesis using a b d by simp
qed


lemma apply_call_keeps_flag:
  "c \<noteq> LoadGtVidNameForQuery True \<Longrightarrow> \<not> load_gt_video ds \<Longrightarrow> \<not> load_gt_video (apply_call ds c)"
  by (cases c)
    (auto simp: set_data_mode_def load_gt_vid_name_for_query_def split: sum.splits if_splits)

lemma apply_calls_keeps_flag:
  "LoadGtVidNameForQuery True \<notin> set cs \<Longrightarrow> \<not> load_gt_video ds \<Longrightarrow>
   \<not> load_gt_video (apply_calls ds cs)"
  unfolding apply_calls_def
proof (induction cs arbitrary: ds)
  case Nil
  then show ?case by simp
next
  case (Cons c cs)
  from Cons.prems have "c \<noteq> LoadGtVidNameForQuery True" by auto
  with Cons.prems have "\<not> load_gt_video (apply_call ds c)"
    by (simp add: apply_call_keeps_flag)
  with Cons show ?case by simp
qed

lemma get_item_query_withheld:
  "\<not> load_gt_video ds \<Longrightarrow> get_item_query ds i = Inr ex \<Longrightarrow>
   map_of (meta ex) ''vid_name'' = Some JNone"
  by (auto simp: get_item_query_def split: sum.splits)

lemma get_item_query_attached:
  "load_gt_video ds \<Longrightarrow> get_item_query ds i = Inr ex \<Longrightarrow>
   \<exists>raw vn. py_index (query_data ds) i = Inr raw \<and> vid_name raw = Some vn \<and>
     map_of (meta ex) ''vid_name'' = Some (JStr vn)"
  by (auto simp: get_item_query_def field_def split: sum.splits option.splits)

lemma load_gt_sets_flag:
  "load_gt_vid_name_for_query ds b = Inr dg \<Longrightarrow> dg = ds\<lparr>load_gt_video := b\<rparr>"
  by (auto simp: load_gt_vid_name_for_query_def split: sum.splits if_splits)

text \<open>
  C1. Take an evaluation dataset as constructed, after any calls of \<^verbatim>\<open>set_data_mode\<close>
  and \<^verbatim>\<open>load_gt_vid_name_for_query\<close> none of which is the opt-in
  \<^verbatim>\<open>load_gt_vid_name_for_query(True)\<close>, and in the data mode \<^verbatim>\<open>query\<close>. Then at every
  index the metadata that the item getter returns has \<^verbatim>\<open>None\<close> for the video name. After
  the opt-in call, the metadata has the video name of the record at that index.
\<close>

theorem gt_vid_name_guard:
  assumes init: "RetrievalEvalDataset_init fs loaded vi name split db mdl mcl sb vf cm dm r nv nt
                   = Inr ds0"
    and calls: "LoadGtVidNameForQuery True \<notin> set cs"
    and ds: "ds = apply_calls ds0 cs"
    and mode: "data_mode ds = Some ''query''"
  shows "(\<forall>i ex. RetrievalEvalDataset_getitem ds i = Inr ex \<longrightarrow>
            map_of (meta ex) ''vid_name'' = Some JNone) \<and>
         (\<forall>i ex dg. load_gt_vid_name_for_query ds True = Inr dg \<and>
              RetrievalEvalDataset_getitem dg i = Inr ex \<longrightarrow>
            (\<exists>raw vn. py_index (query_data ds) i = Inr raw \<and> vid_name raw = Some vn \<and>
               map_of (meta ex) ''vid_name'' = Some (JStr vn)))"
proof -
  have "\<not> load_gt_video ds0"
    using eval_init_fields(4) [OF init] .
  then have off: "\<not> load_gt_video ds"
    unfolding ds using calls by (simp add: apply_calls_keeps_flag)
  have q: "\<And>d i. data_mode d = Some ''query'' \<Longrightarrow>
      RetrievalEvalDataset_getitem d i = get_item_query d i"
    by (simp add: RetrievalEvalDataset_getitem_def)
  have a: "\<forall>i ex. RetrievalEvalDataset_getitem ds i = Inr ex \<longrightarrow>
            map_of (meta ex) ''vid_name'' = Some JNone"
    using off get_item_query_withheld by (auto simp: q [OF mode])
  have b: "\<forall>i ex dg. load_gt_vid_name_for_query ds True = Inr dg \<and>
              RetrievalEvalDataset_getitem dg i = Inr ex \<longrightarrow>
            (\<exists>raw vn. py_index (query_data ds) i = Inr raw \<and> vid_name raw = Some vn \<and>
               map_of (meta ex) ''vid_name'' = Some (JStr vn))"
  proof (intro allI impI)
    fix i ex dg
    assume h: "load_gt_vid_name_for_query ds True = Inr dg \<and>
              RetrievalEvalDataset_getitem dg i = Inr ex"
    then have dg: "dg = ds\<lparr>load_gt_video := True\<rparr>"
      by (simp add: load_gt_sets_flag)
    then have "data_mode dg = Some ''query''" "load_gt_video dg" "query_data dg = query_data ds"
      using mode by simp_all
    with h get_item_query_attached [of dg i ex] q [of dg i]
    show "\<exists>raw vn. py_index (query_data ds) i = Inr raw \<and> vid_name raw = Some vn \<and>
               map_of (meta ex) ''vid_name'' = Some (JStr vn)"
      by simp
  qed
  show ?thesis using a b by blast
qed


lemma py_str_1: "py_str 1 = ''1''"
  by (simp add: py_str_def str_nat.simps)

lemma sample_calls:
  "apply_calls (projr (sample_eval ''context'' (Dbl 1 0)))
     [SetDataMode ''query'', SetDataMode ''bad'', LoadGtVidNameForQuery False] =
   projr (sample_eval ''query'' (Dbl 1 0))"
  by (simp add: apply_calls_def sample_eval_val set_data_mode_def load_gt_vid_name_for_query_def
      py_index_def apply_data_ratio_def ten_queries_def sample_query_def)

lemma sample_query_item:
  "get_item_query (projr (sample_eval ''query'' (Dbl 1 0))\<lparr>load_gt_video := b\<rparr>) 1 =
   Inr \<lparr>meta = [(''desc_id'', JInt 1), (''desc'', JStr ''a query''),
                 (''vid_name'', if b then JStr ''v1'' else JNone)],
        model_inputs = [(''query_feat'', from_numpy2 (slice_rows (Some 2) sample_array))]\<rparr>"
  by (simp add: sample_eval_val get_item_query_def get_query_feat_by_desc_id_def py_index_def
      apply_data_ratio_def ten_queries_def sample_query_def field_def h5_lookup_def py_str_1
      sample_h5_def)

theorem gt_vid_name_guard_witness:
  "LoadGtVidNameForQuery True \<notin>
     set [SetDataMode ''query'', SetDataMode ''bad'', LoadGtVidNameForQuery False] \<and>
   data_mode (apply_calls (projr (sample_eval ''context'' (Dbl 1 0)))
     [SetDataMode ''query'', SetDataMode ''bad'', LoadGtVidNameForQuery False]) = Some ''query'' \<and>
   map_sum id (\<lambda>ex. map_of (meta ex) ''vid_name'')
     (RetrievalEvalDataset_getitem (apply_calls (projr (sample_eval ''context'' (Dbl 1 0)))
        [SetDataMode ''query'', SetDataMode ''bad'', LoadGtVidNameForQuery False]) 1) =
     Inr (Some JNone) \<and>
   map_sum id (\<lambda>ex. map_of (meta ex) ''vid_name'')
     (RetrievalEvalDataset_getitem (projr (load_gt_vid_name_for_query
        (apply_calls (projr (sample_eval ''context'' (Dbl 1 0)))
           [SetDataMode ''query'', SetDataMode ''bad'', LoadGtVidNameForQuery False]) True)) 1) =
     Inr (Some (JStr ''v1''))"
proof -
  let ?cs = "[SetDataMode ''query'', SetDataMode ''bad'', LoadGtVidNameForQuery False]"
  let ?ds = "projr (sample_eval ''query'' (Dbl 1 0))"
  have i: "sample_eval ''context'' (Dbl 1 0) = Inr (projr (sample_eval ''context'' (Dbl 1 0)))"
    by (simp add: sample_eval_val)
  have c: "LoadGtVidNameForQuery True \<notin> set ?cs"
    by simp
  have d: "?ds = apply_calls (projr (sample_eval ''context'' (Dbl 1 0))) ?cs"
    by (simp only: sample_calls)
  have m: "data_mode ?ds = Some ''query''"
    by (simp add: sample_eval_val)
  note g = gt_vid_name_guard [OF i [unfolded sample_eval_def] c d [unfolded sample_eval_def] m [unfolded sample_eval_def],
      folded sample_eval_def]
  have l: "load_gt_vid_name_for_query ?ds True = Inr (?ds\<lparr>load_gt_video := True\<rparr>)"
    by (simp add: load_gt_vid_name_for_query_def sample_eval_val py_index_def
        apply_data_ratio_def ten_queries_def sample_query_def)
  have e0: "RetrievalEvalDataset_getitem ?ds 1 = get_item_query (?ds\<lparr>load_gt_video := False\<rparr>) 1"
    by (simp add: RetrievalEvalDataset_getitem_def sample_eval_val)
  have e1: "RetrievalEvalDataset_getitem (?ds\<lparr>load_gt_video := True\<rparr>) 1 =
      get_item_query (?ds\<lparr>load_gt_video := True\<rparr>) 1"
    by (simp add: RetrievalEvalDataset_getitem_def sample_eval_val)
  from g have a: "map_of (meta (projr (RetrievalEvalDataset_getitem ?ds 1))) ''vid_name'' = Some JNone"
    by (simp add: e0 sample_query_item)
  from g l have b: "map_of (meta (projr (RetrievalEvalDataset_getitem (?ds\<lparr>load_gt_video := True\<rparr>) 1)))
      ''vid_name'' = Some (JStr ''v1'')"
    by (simp add: e1 sample_query_item)
  show ?thesis
    using a b c m
    by (simp add: sample_calls l e0 e1 sample_query_item)
qed

subsection \<open>The context features\<close>

lemma torch_zeros_2: "torch_zeros [2] = \<lparr>dev = CPU, shape = [2], body = Ar [Fl (Fin 0), Fl (Fin 0)]\<rparr>"
  by (simp add: torch_zeros_def numeral_2_eq_2)

lemma shape_from_numpy1 [simp]: "shape (from_numpy1 v) = [length v]"
  by (simp add: from_numpy1_def)

lemma getitem_parts:
  assumes "RetrievalDataset_getitem ds i = Inr ex"
  shows "\<exists>raw vn vf sf. py_index (data ds) i = Inr raw \<and> vid_name raw = Some vn \<and>
           ctx_feat (use_video ds) (vid_feat_h5 ds) vn (max_ctx_len ds) (normalize_vfeat ds) = Inr vf \<and>
           ctx_feat (use_sub ds) (sub_bert_h5 ds) vn (max_ctx_len ds) (normalize_tfeat ds) = Inr sf \<and>
           map_of (model_inputs ex) ''video_feat'' = Some vf \<and>
           map_of (model_inputs ex) ''sub_feat'' = Some sf"
  using assms
  by (auto simp: RetrievalDataset_getitem_def field_def split: sum.splits option.splits)

lemma get_item_context_parts:
  assumes "get_item_context ds i = Inr ex"
  shows "\<exists>raw vf sf. py_index (video_data ds) i = Inr raw \<and>
           ctx_feat (use_video ds) (vid_feat_h5 ds) (ve_vid_name raw) (max_ctx_len ds) (normalize_vfeat ds) = Inr vf \<and>
           ctx_feat (use_sub ds) (sub_bert_h5 ds) (ve_vid_name raw) (max_ctx_len ds) (normalize_tfeat ds) = Inr sf \<and>
           map_of (model_inputs ex) ''video_feat'' = Some vf \<and>
           map_of (model_inputs ex) ''sub_feat'' = Some sf"
  using assms
  by (auto simp: get_item_context_def split: sum.splits)

text \<open>The mean over the first rows of an array of finite numbers, and its normalisation,
  written with sums, quotients and the square root.\<close>

lemma rows_slice_finite:
  "rows a = map (map Fin) m \<Longrightarrow>
   rows (slice_rows mcl a) = map (map Fin) (case mcl of None \<Rightarrow> m | Some n \<Rightarrow> take n m)"
  by (simp add: slice_rows_def take_map split: option.splits)

lemma wf_slice_rows: "wf_array2 a \<Longrightarrow> wf_array2 (slice_rows mcl a)"
  by (auto simp: wf_array2_def slice_rows_def list_all_iff dest: in_set_takeD
      split: option.splits)

lemma np_mean_axis0_map:
  assumes "wf_array2 a" and "rows a = map (map Fin) m" and "m \<noteq> []"
  shows "np_mean_axis0 a =
         map (\<lambda>j. Fin (sum_list (map (\<lambda>r. r ! j) m) / real (length m))) [0 ..< ncols a]"
proof (rule nth_equalityI)
  show "length (np_mean_axis0 a) =
      length (map (\<lambda>j. Fin (sum_list (map (\<lambda>r. r ! j) m) / real (length m))) [0 ..< ncols a])"
    by simp
next
  fix j
  assume "j < length (np_mean_axis0 a)"
  then have j: "j < ncols a" by simp
  from np_mean_axis0_finite [OF assms j] j
  show "np_mean_axis0 a ! j =
      map (\<lambda>j. Fin (sum_list (map (\<lambda>r. r ! j) m) / real (length m))) [0 ..< ncols a] ! j"
    by simp
qed

lemma l2_normalize_vec_finite:
  assumes "sqrt (sum_list (map (\<lambda>x. x * x) mu)) \<noteq> 0"
  shows "l2_normalize_vec (map Fin mu) =
         map (\<lambda>x. Fin (x / sqrt (sum_list (map (\<lambda>x. x * x) mu)))) mu"
proof -
  have "map (\<lambda>x. fbin (*) x x) (map Fin mu) = map Fin (map (\<lambda>x. x * x) mu)"
    by simp
  then have "fsum (map (\<lambda>x. fbin (*) x x) (map Fin mu)) = Fin (sum_list (map (\<lambda>x. x * x) mu))"
    by (simp only: fsum_Fin)
  then have "fnorm (map Fin mu) = Fin (sqrt (sum_list (map (\<lambda>x. x * x) mu)))"
    by (simp add: fnorm_def)
  with assms show ?thesis
    by (simp add: l2_normalize_vec_def comp_def)
qed

lemma l2_normalize_vec_NaN: "l2_normalize_vec (replicate n NaN) = replicate n NaN"
  by (cases n) (simp_all add: l2_normalize_vec_def fnorm_def fsum_def map_replicate_const)

lemma mean_pooled_finite:
  assumes "wf_array2 a" and "rows a = map (map Fin) m"
    and "m' = (case mcl of None \<Rightarrow> m | Some n \<Rightarrow> take n m)"
    and "mu = map (\<lambda>j. sum_list (map (\<lambda>r. r ! j) m') / real (length m')) [0 ..< ncols a]"
    and "s = sqrt (sum_list (map (\<lambda>x. x * x) mu))"
  shows "m' = [] \<Longrightarrow> mean_pooled mcl nf a = replicate (ncols a) NaN"
    and "m' \<noteq> [] \<Longrightarrow> (nf \<longrightarrow> s \<noteq> 0) \<Longrightarrow>
         mean_pooled mcl nf a = map (\<lambda>x. Fin (if nf then x / s else x)) mu"
proof -
  have r: "rows (slice_rows mcl a) = map (map Fin) m'"
    using assms(2,3) by (simp add: rows_slice_finite)
  have w: "wf_array2 (slice_rows mcl a)"
    using assms(1) by (rule wf_slice_rows)
  {
    assume "m' = []"
    with r have "np_mean_axis0 (slice_rows mcl a) = replicate (ncols a) NaN"
      by (simp add: np_mean_axis0_no_rows)
    then show "mean_pooled mcl nf a = replicate (ncols a) NaN"
      by (simp add: mean_pooled_def Let_def l2_normalize_vec_NaN)
  }
  {
    assume ne: "m' \<noteq> []" and nz: "nf \<longrightarrow> s \<noteq> 0"
    from np_mean_axis0_map [OF w r ne]
    have "np_mean_axis0 (slice_rows mcl a) = map Fin mu"
      by (simp add: assms(4) comp_def)
    then show "mean_pooled mcl nf a = map (\<lambda>x. Fin (if nf then x / s else x)) mu"
      using nz l2_normalize_vec_finite [of mu]
      by (simp add: mean_pooled_def Let_def assms(5))
  }
qed

lemma ctx_feat_prim:
  assumes "ctx_feat used store name mcl nf = Inr t"
  shows "(\<not> used \<longrightarrow> t = \<lparr>dev = CPU, shape = [2], body = Ar [Fl (Fin 0), Fl (Fin 0)]\<rparr>) \<and>
         (used \<longrightarrow> (\<exists>h a. store = Some h \<and> h name = Some a \<and> dev t = CPU \<and>
            shape t = [ncols a] \<and>
            (\<forall>m m' mu s.
               wf_array2 a \<and> rows a = map (map Fin) m \<and>
               m' = (case mcl of None \<Rightarrow> m | Some n \<Rightarrow> take n m) \<and>
               mu = map (\<lambda>j. sum_list (map (\<lambda>r. r ! j) m') / real (length m')) [0 ..< ncols a] \<and>
               s = sqrt (sum_list (map (\<lambda>x. x * x) mu)) \<longrightarrow>
               (m' = [] \<longrightarrow> body t = Ar (replicate (ncols a) (Fl NaN))) \<and>
               (m' \<noteq> [] \<and> (nf \<longrightarrow> s \<noteq> 0) \<longrightarrow>
                  body t = Ar (map (\<lambda>x. Fl (Fin (if nf then x / s else x))) mu)))))"
proof (cases used)
  case False
  with assms show ?thesis
    by (simp add: ctx_feat_def torch_zeros_2)
next
  case True
  with assms obtain h a where
    h: "store = Some h" "h name = Some a" and t: "t = from_numpy1 (mean_pooled mcl nf a)"
    by (auto simp: ctx_feat_def h5_lookup_def split: option.splits)
  have sh: "dev t = CPU" "shape t = [ncols a]"
    by (simp_all add: t from_numpy1_def mean_pooled_def Let_def)
  have "(m' = [] \<longrightarrow> body t = Ar (replicate (ncols a) (Fl NaN))) \<and>
        (m' \<noteq> [] \<and> (nf \<longrightarrow> s \<noteq> 0) \<longrightarrow>
           body t = Ar (map (\<lambda>x. Fl (Fin (if nf then x / s else x))) mu))"
    if "wf_array2 a \<and> rows a = map (map Fin) m \<and>
        m' = (case mcl of None \<Rightarrow> m | Some n \<Rightarrow> take n m) \<and>
        mu = map (\<lambda>j. sum_list (map (\<lambda>r. r ! j) m') / real (length m')) [0 ..< ncols a] \<and>
        s = sqrt (sum_list (map (\<lambda>x. x * x) mu))"
    for m m' mu s
  proof -
    from that have p: "wf_array2 a" "rows a = map (map Fin) m"
      "m' = (case mcl of None \<Rightarrow> m | Some n \<Rightarrow> take n m)"
      "mu = map (\<lambda>j. sum_list (map (\<lambda>r. r ! j) m') / real (length m')) [0 ..< ncols a]"
      "s = sqrt (sum_list (map (\<lambda>x. x * x) mu))"
      by blast+
    note q = mean_pooled_finite [OF p, of nf]
    have "m' = [] \<longrightarrow> body t = Ar (replicate (ncols a) (Fl NaN))"
      using q(1) by (simp add: t from_numpy1_def)
    moreover have "m' \<noteq> [] \<and> (nf \<longrightarrow> s \<noteq> 0) \<longrightarrow>
        body t = Ar (map (\<lambda>x. Fl (Fin (if nf then x / s else x))) mu)"
      using q(2) by (simp add: t from_numpy1_def comp_def)
    ultimately show ?thesis by blast
  qed
  with True h sh show ?thesis
    by blast
qed

text \<open>
  C9, amended. At every index at which the training item getter, or the context builder of
  the evaluation dataset, returns an example, and for the video feature as for the subtitle
  feature: the feature of a modality that is not used is the tensor of shape \<open>(2)\<close> with
  two zeros, whatever the stores hold. The feature of a modality that is used is a vector on
  the CPU whose shape is the number of columns of the array stored under the video name,
  whatever its number of rows. For a stored array of finite numbers, with the rows \<open>m'\<close>
  that are its first \<^verbatim>\<open>max_ctx_len\<close> rows (all rows without a maximum): the element \<open>j\<close>
  of the feature is the sum of the column \<open>j\<close> of \<open>m'\<close> divided by the number of rows of
  \<open>m'\<close>, and, if the normalisation flag of the modality is set, divided by the Euclidean
  norm of the vector of these means, where that norm is not zero; with no row in \<open>m'\<close>
  every element is NaN.
\<close>

theorem ctx_feature_placeholder_or_pooled:
  "(RetrievalDataset_getitem ds i = Inr ex \<and>
    (key, used, store, nf) \<in>
      {(''video_feat'', use_video ds, vid_feat_h5 ds, normalize_vfeat ds),
       (''sub_feat'', use_sub ds, sub_bert_h5 ds, normalize_tfeat ds)} \<longrightarrow>
    (\<exists>raw vn t. py_index (data ds) i = Inr raw \<and> vid_name raw = Some vn \<and>
       map_of (model_inputs ex) key = Some t \<and>
       (\<not> used \<longrightarrow> t = \<lparr>dev = CPU, shape = [2], body = Ar [Fl (Fin 0), Fl (Fin 0)]\<rparr>) \<and>
       (used \<longrightarrow> (\<exists>h a. store = Some h \<and> h vn = Some a \<and> dev t = CPU \<and>
          shape t = [ncols a] \<and>
          (\<forall>m m' mu s.
             wf_array2 a \<and> rows a = map (map Fin) m \<and>
             m' = (case max_ctx_len ds of None \<Rightarrow> m | Some n \<Rightarrow> take n m) \<and>
             mu = map (\<lambda>j. sum_list (map (\<lambda>r. r ! j) m') / real (length m')) [0 ..< ncols a] \<and>
             s = sqrt (sum_list (map (\<lambda>x. x * x) mu)) \<longrightarrow>
             (m' = [] \<longrightarrow> body t = Ar (replicate (ncols a) (Fl NaN))) \<and>
             (m' \<noteq> [] \<and> (nf \<longrightarrow> s \<noteq> 0) \<longrightarrow>
                body t = Ar (map (\<lambda>x. Fl (Fin (if nf then x / s else x))) mu))))))) \<and>
   (get_item_context es j = Inr ex' \<and>
    (key', used', store', nf') \<in>
      {(''video_feat'', use_video es, vid_feat_h5 es, normalize_vfeat es),
       (''sub_feat'', use_sub es, sub_bert_h5 es, normalize_tfeat es)} \<longrightarrow>
    (\<exists>raw t. py_index (video_data es) j = Inr raw \<and>
       map_of (model_inputs ex') key' = Some t \<and>
       (\<not> used' \<longrightarrow> t = \<lparr>dev = CPU, shape = [2], body = Ar [Fl (Fin 0), Fl (Fin 0)]\<rparr>) \<and>
       (used' \<longrightarrow> (\<exists>h a. store' = Some h \<and> h (ve_vid_name raw) = Some a \<and> dev t = CPU \<and>
          shape t = [ncols a] \<and>
          (\<forall>m m' mu s.
             wf_array2 a \<and> rows a = map (map Fin) m \<and>
             m' = (case max_ctx_len es of None \<Rightarrow> m | Some n \<Rightarrow> take n m) \<and>
             mu = map (\<lambda>j. sum_list (map (\<lambda>r. r ! j) m') / real (length m')) [0 ..< ncols a] \<and>
             s = sqrt (sum_list (map (\<lambda>x. x * x) mu)) \<longrightarrow>
             (m' = [] \<longrightarrow> body t = Ar (replicate (ncols a) (Fl NaN))) \<and>
             (m' \<noteq> [] \<and> (nf' \<longrightarrow> s \<noteq> 0) \<longrightarrow>
                body t = Ar (map (\<lambda>x. Fl (Fin (if nf' then x / s else x))) mu)))))))"
proof (intro conjI impI)
  assume a: "RetrievalDataset_getitem ds i = Inr ex \<and>
    (key, used, store, nf) \<in>
      {(''video_feat'', use_video ds, vid_feat_h5 ds, normalize_vfeat ds),
       (''sub_feat'', use_sub ds, sub_bert_h5 ds, normalize_tfeat ds)}"
  from getitem_parts [OF a [THEN conjunct1]] obtain raw vn vf sf where
    p: "py_index (data ds) i = Inr raw" "vid_name raw = Some vn"
    and mv: "map_of (model_inputs ex) ''video_feat'' = Some vf"
    and ms: "map_of (model_inputs ex) ''sub_feat'' = Some sf"
    and v: "ctx_feat (use_video ds) (vid_feat_h5 ds) vn (max_ctx_len ds) (normalize_vfeat ds) = Inr vf"
    and s: "ctx_feat (use_sub ds) (sub_bert_h5 ds) vn (max_ctx_len ds) (normalize_tfeat ds) = Inr sf"
    by blast
  from a have "(key, used, store, nf) =
        (''video_feat'', use_video ds, vid_feat_h5 ds, normalize_vfeat ds) \<or>
      (key, used, store, nf) = (''sub_feat'', use_sub ds, sub_bert_h5 ds, normalize_tfeat ds)"
    by simp
  then obtain t where
    t: "map_of (model_inputs ex) key = Some t"
       "ctx_feat used store vn (max_ctx_len ds) nf = Inr t"
    using mv ms v s by auto
  from p t(1) ctx_feat_prim [OF t(2)]
  show "\<exists>raw vn t. py_index (data ds) i = Inr raw \<and> vid_name raw = Some vn \<and>
       map_of (model_inputs ex) key = Some t \<and>
       (\<not> used \<longrightarrow> t = \<lparr>dev = CPU, shape = [2], body = Ar [Fl (Fin 0), Fl (Fin 0)]\<rparr>) \<and>
       (used \<longrightarrow> (\<exists>h a. store = Some h \<and> h vn = Some a \<and> dev t = CPU \<and>
          shape t = [ncols a] \<and>
          (\<forall>m m' mu s.
             wf_array2 a \<and> rows a = map (map Fin) m \<and>
             m' = (case max_ctx_len ds of None \<Rightarrow> m | Some n \<Rightarrow> take n m) \<and>
             mu = map (\<lambda>j. sum_list (map (\<lambda>r. r ! j) m') / real (length m')) [0 ..< ncols a] \<and>
             s = sqrt (sum_list (map (\<lambda>x. x * x) mu)) \<longrightarrow>
             (m' = [] \<longrightarrow> body t = Ar (replicate (ncols a) (Fl NaN))) \<and>
             (m' \<noteq> [] \<and> (nf \<longrightarrow> s \<noteq> 0) \<longrightarrow>
                body t = Ar (map (\<lambda>x. Fl (Fin (if nf then x / s else x))) mu)))))"
    by blast
next
  assume a: "get_item_context es j = Inr ex' \<and>
    (key', used', store', nf') \<in>
      {(''video_feat'', use_video es, vid_feat_h5 es, normalize_vfeat es),
       (''sub_feat'', use_sub es, sub_bert_h5 es, normalize_tfeat es)}"
  from get_item_context_parts [OF a [THEN conjunct1]] obtain raw vf sf where
    p: "py_index (video_data es) j = Inr raw"
    and mv: "map_of (model_inputs ex') ''video_feat'' = Some vf"
    and ms: "map_of (model_inputs ex') ''sub_feat'' = Some sf"
    and v: "ctx_feat (use_video es) (vid_feat_h5 es) (ve_vid_name raw) (max_ctx_len es)
              (normalize_vfeat es) = Inr vf"
    and s: "ctx_feat (use_sub es) (sub_bert_h5 es) (ve_vid_name raw) (max_ctx_len es)
              (normalize_tfeat es) = Inr sf"
    by blast
  from a have "(key', used', store', nf') =
        (''video_feat'', use_video es, vid_feat_h5 es, normalize_vfeat es) \<or>
      (key', used', store', nf') = (''sub_feat'', use_sub es, sub_bert_h5 es, normalize_tfeat es)"
    by simp
  then obtain t where
    t: "map_of (model_inputs ex') key' = Some t"
       "ctx_feat used' store' (ve_vid_name raw) (max_ctx_len es) nf' = Inr t"
    using mv ms v s by auto
  from p t(1) ctx_feat_prim [OF t(2)]
  show "\<exists>raw t. py_index (video_data es) j = Inr raw \<and>
       map_of (model_inputs ex') key' = Some t \<and>
       (\<not> used' \<longrightarrow> t = \<lparr>dev = CPU, shape = [2], body = Ar [Fl (Fin 0), Fl (Fin 0)]\<rparr>) \<and>
       (used' \<longrightarrow> (\<exists>h a. store' = Some h \<and> h (ve_vid_name raw) = Some a \<and> dev t = CPU \<and>
          shape t = [ncols a] \<and>
          (\<forall>m m' mu s.
             wf_array2 a \<and> rows a = map (map Fin) m \<and>
             m' = (case max_ctx_len es of None \<Rightarrow> m | Some n \<Rightarrow> take n m) \<and>
             mu = map (\<lambda>j. sum_list (map (\<lambda>r. r ! j) m') / real (length m')) [0 ..< ncols a] \<and>
             s = sqrt (sum_list (map (\<lambda>x. x * x) mu)) \<longrightarrow>
             (m' = [] \<longrightarrow> body t = Ar (replicate (ncols a) (Fl NaN))) \<and>
             (m' \<noteq> [] \<and> (nf' \<longrightarrow> s \<noteq> 0) \<longrightarrow>
                body t = Ar (map (\<lambda>x. Fl (Fin (if nf' then x / s else x))) mu)))))"
    by blast
qed


lemma sample_mean: "np_mean_axis0 (slice_rows (Some 2) sample_array) = [Fin 2, Fin 0]"
  by (simp add: np_mean_axis0_def slice_rows_def sample_array_def fsum_def numeral_2_eq_2)

lemma sample_mean_normalized: "l2_normalize_vec [Fin 2, Fin 0] = [Fin 1, Fin 0]"
  by (simp add: l2_normalize_vec_def fnorm_def fsum_def)

lemma sample_train_norm_val:
  "sample_train_norm =
     Inr \<lparr>dset_name = ''tvr'', ctx_mode = ''video'', data_ratio = Dbl 1 0, max_desc_len = Some 2,
          max_ctx_len = Some 2, normalize_vfeat = True, normalize_tfeat = False,
          use_video = True, use_sub = False, use_tef = False,
          desc_bert_h5 = sample_h5, vid_feat_h5 = Some sample_h5, sub_bert_h5 = None,
          data = ten_queries\<rparr>"
  by (simp add: sample_train_norm_def RetrievalDataset_init_def apply_data_ratio_def)

lemma sample_norm_item:
  "RetrievalDataset_getitem (projr sample_train_norm) 0 =
     Inr \<lparr>meta = [(''desc_id'', JInt 0), (''desc'', JStr ''a query''), (''vid_name'', JStr ''v1''),
                  (''duration'', JFloat (Fin 60))],
          model_inputs = [(''query_feat'', from_numpy2 (slice_rows (Some 2) sample_array)),
                          (''video_feat'', from_numpy1 [Fin 1, Fin 0]),
                          (''sub_feat'', torch_zeros [2])]\<rparr>"
  by (simp add: sample_train_norm_val RetrievalDataset_getitem_def py_index_def ten_queries_def
      sample_query_def field_def get_query_feat_by_desc_id_def h5_lookup_def py_str_0
      sample_h5_def ctx_feat_def mean_pooled_def sample_mean sample_mean_normalized)

text \<open>
  C9 as stated fails where it says that the feature of a used modality is the mean: with
  \<^verbatim>\<open>normalize_vfeat\<close> set, as it is by default, the video feature is the normalised mean.
  Here the mean of the first two rows is \<open>(2, 0)\<close> and the feature is \<open>(1, 0)\<close>.
\<close>

theorem normalized_mean_counterexample:
  "use_video (projr sample_train_norm) \<and>
   vid_feat_h5 (projr sample_train_norm) = Some sample_h5 \<and>
   sample_h5 ''v1'' = Some sample_array \<and>
   map_sum id (\<lambda>ex. map_of (model_inputs ex) ''video_feat'')
     (RetrievalDataset_getitem (projr sample_train_norm) 0) = Inr (Some (from_numpy1 [Fin 1, Fin 0])) \<and>
   from_numpy1 (np_mean_axis0 (slice_rows (max_ctx_len (projr sample_train_norm)) sample_array)) =
     from_numpy1 [Fin 2, Fin 0] \<and>
   map_sum id (\<lambda>ex. map_of (model_inputs ex) ''video_feat'')
     (RetrievalDataset_getitem (projr sample_train_norm) 0) \<noteq>
   Inr (Some (from_numpy1
     (np_mean_axis0 (slice_rows (max_ctx_len (projr sample_train_norm)) sample_array))))"
proof -
  have f: "use_video (projr sample_train_norm) \<and>
      vid_feat_h5 (projr sample_train_norm) = Some sample_h5 \<and>
      max_ctx_len (projr sample_train_norm) = Some 2"
    by (simp add: sample_train_norm_val)
  have k: "sample_h5 ''v1'' = Some sample_array"
    by (simp add: sample_h5_def)
  have g: "map_sum id (\<lambda>ex. map_of (model_inputs ex) ''video_feat'')
      (RetrievalDataset_getitem (projr sample_train_norm) 0) = Inr (Some (from_numpy1 [Fin 1, Fin 0]))"
    by (simp add: sample_norm_item)
  have n: "from_numpy1 [Fin 1, Fin 0] \<noteq> from_numpy1 [Fin 2, Fin 0]"
    by (simp add: from_numpy1_def)
  show ?thesis
    using f k n by (simp add: g sample_mean)
qed



lemma sample_train_sub:
  "sample_train ''sub'' (Dbl 1 0) =
     Inr \<lparr>dset_name = ''tvr'', ctx_mode = ''sub'', data_ratio = Dbl 1 0, max_desc_len = Some 2,
          max_ctx_len = Some 2, normalize_vfeat = False, normalize_tfeat = False,
          use_video = False, use_sub = True, use_tef = False,
          desc_bert_h5 = sample_h5, vid_feat_h5 = None, sub_bert_h5 = Some sample_h5,
          data = ten_queries\<rparr>"
  by (simp add: sample_train_def RetrievalDataset_init_def)

lemma sample_eval_ctx_video:
  "sample_eval_ctx ''video'' =
     Inr \<lparr>dset_name = ''tvr'', ctx_mode = ''video'', data_ratio = Dbl 1 0, max_desc_len = Some 2,
          max_ctx_len = Some 2, normalize_vfeat = False, normalize_tfeat = False,
          use_video = True, use_sub = False, use_tef = False,
          desc_bert_h5 = sample_h5, vid_feat_h5 = Some sample_h5, sub_bert_h5 = None,
          eval_split_name = ''val'', load_gt_video = False, data_mode = Some ''context'',
          query_data = ten_queries,
          video_data = [VideoEntry ''v1'' (Fin 60), VideoEntry ''v2'' (Fin 30)],
          video2idx = [(''v1'', 0), (''v2'', 1)]\<rparr>"
  by (simp add: sample_eval_ctx_def RetrievalEvalDataset_init_def sample_video_idx_def
      apply_data_ratio_def)

lemma sample_eval_ctx_sub:
  "sample_eval_ctx ''sub'' =
     Inr \<lparr>dset_name = ''tvr'', ctx_mode = ''sub'', data_ratio = Dbl 1 0, max_desc_len = Some 2,
          max_ctx_len = Some 2, normalize_vfeat = False, normalize_tfeat = False,
          use_video = False, use_sub = True, use_tef = False,
          desc_bert_h5 = sample_h5, vid_feat_h5 = None, sub_bert_h5 = Some sample_h5,
          eval_split_name = ''val'', load_gt_video = False, data_mode = Some ''context'',
          query_data = ten_queries,
          video_data = [VideoEntry ''v1'' (Fin 60), VideoEntry ''v2'' (Fin 30)],
          video2idx = [(''v1'', 0), (''v2'', 1)]\<rparr>"
  by (simp add: sample_eval_ctx_def RetrievalEvalDataset_init_def sample_video_idx_def
      apply_data_ratio_def)

lemma sample_sub_item:
  "RetrievalDataset_getitem (projr (sample_train ''sub'' (Dbl 1 0))) 0 =
     Inr \<lparr>meta = [(''desc_id'', JInt 0), (''desc'', JStr ''a query''), (''vid_name'', JStr ''v1''),
                  (''duration'', JFloat (Fin 60))],
          model_inputs = [(''query_feat'', from_numpy2 (slice_rows (Some 2) sample_array)),
                          (''video_feat'', torch_zeros [2]),
                          (''sub_feat'', from_numpy1 [Fin 2, Fin 0])]\<rparr>"
  by (simp add: sample_train_sub RetrievalDataset_getitem_def py_index_def ten_queries_def
      apply_data_ratio_def
      sample_query_def field_def get_query_feat_by_desc_id_def h5_lookup_def py_str_0
      sample_h5_def ctx_feat_def mean_pooled_def sample_mean)

lemma sample_ctx_video_item:
  "get_item_context (projr (sample_eval_ctx ''video'')) 0 =
     Inr \<lparr>meta = [(''vid_name'', JStr ''v1''), (''duration'', JFloat (Fin 60))],
          model_inputs = [(''video_feat'', from_numpy1 [Fin 2, Fin 0]),
                          (''sub_feat'', torch_zeros [2])]\<rparr>"
  by (simp add: sample_eval_ctx_video get_item_context_def py_index_def h5_lookup_def
      sample_h5_def ctx_feat_def mean_pooled_def sample_mean)

lemma sample_ctx_sub_item:
  "get_item_context (projr (sample_eval_ctx ''sub'')) 0 =
     Inr \<lparr>meta = [(''vid_name'', JStr ''v1''), (''duration'', JFloat (Fin 60))],
          model_inputs = [(''video_feat'', torch_zeros [2]),
                          (''sub_feat'', from_numpy1 [Fin 2, Fin 0])]\<rparr>"
  by (simp add: sample_eval_ctx_sub get_item_context_def py_index_def h5_lookup_def
      sample_h5_def ctx_feat_def mean_pooled_def sample_mean)

theorem ctx_feature_placeholder_or_pooled_witness:
  "\<not> isl (RetrievalDataset_getitem (projr sample_train_norm) 0) \<and>
   use_video (projr sample_train_norm) \<and> normalize_vfeat (projr sample_train_norm) \<and>
   max_ctx_len (projr sample_train_norm) = Some 2 \<and>
   vid_feat_h5 (projr sample_train_norm) = Some sample_h5 \<and>
   sample_h5 ''v1'' = Some sample_array \<and> wf_array2 sample_array \<and>
   rows sample_array = map (map Fin) [[1, 0], [3, 0], [6, 3]] \<and>
   sqrt (sum_list (map (\<lambda>x. x * x) [(1 + 3) / 2, (0 + 0) / 2 :: real])) = 2 \<and>
   map_sum id (\<lambda>ex. map_of (model_inputs ex) ''video_feat'')
     (RetrievalDataset_getitem (projr sample_train_norm) 0) =
     Inr (Some \<lparr>dev = CPU, shape = [2], body = Ar [Fl (Fin 1), Fl (Fin 0)]\<rparr>) \<and>
   \<not> isl (get_item_context (projr (sample_eval_ctx ''video'')) 0) \<and>
   \<not> use_sub (projr (sample_eval_ctx ''video'')) \<and>
   map_sum id (\<lambda>ex. map_of (model_inputs ex) ''sub_feat'')
     (get_item_context (projr (sample_eval_ctx ''video'')) 0) =
     Inr (Some \<lparr>dev = CPU, shape = [2], body = Ar [Fl (Fin 0), Fl (Fin 0)]\<rparr>)"
proof -
  let ?ds = "projr sample_train_norm"
  let ?ex = "projr (RetrievalDataset_getitem ?ds 0)"
  let ?es = "projr (sample_eval_ctx ''video'')"
  let ?ex' = "projr (get_item_context ?es 0)"
  have g: "RetrievalDataset_getitem ?ds 0 = Inr ?ex"
    by (simp add: sample_norm_item)
  have g': "get_item_context ?es 0 = Inr ?ex'"
    by (simp add: sample_ctx_video_item)
  have f: "use_video ?ds \<and> normalize_vfeat ?ds \<and> max_ctx_len ?ds = Some 2 \<and>
      vid_feat_h5 ?ds = Some sample_h5"
    by (simp add: sample_train_norm_val)
  have f': "\<not> use_sub ?es"
    by (simp add: sample_eval_ctx_video)
  have k: "sample_h5 ''v1'' = Some sample_array"
    by (simp add: sample_h5_def)
  have w: "wf_array2 sample_array \<and> rows sample_array = map (map Fin) [[1, 0], [3, 0], [6, 3]] \<and>
      ncols sample_array = 2"
    by (simp add: sample_array_def wf_array2_def)
  have q: "sqrt (sum_list (map (\<lambda>x. x * x) [(1 + 3) / 2, (0 + 0) / 2 :: real])) = 2"
    by simp
  have r: "py_index (data ?ds) 0 = Inr (sample_query 0) \<and> vid_name (sample_query 0) = Some ''v1''"
    by (simp add: sample_train_norm_val py_index_def ten_queries_def sample_query_def)
  note a = ctx_feature_placeholder_or_pooled
    [where ds = ?ds and i = 0 and ex = ?ex and key = "''video_feat''" and used = "use_video ?ds"
       and store = "vid_feat_h5 ?ds" and nf = "normalize_vfeat ?ds"
       and es = ?es and j = 0 and ex' = ?ex' and key' = "''sub_feat''" and used' = "use_sub ?es"
       and store' = "sub_bert_h5 ?es" and nf' = "normalize_tfeat ?es"]
  from a g r f k obtain t where
    t: "map_of (model_inputs ?ex) ''video_feat'' = Some t" "dev t = CPU"
       "shape t = [ncols sample_array]"
    and u: "\<forall>m m' mu s.
             wf_array2 sample_array \<and> rows sample_array = map (map Fin) m \<and>
             m' = (case Some 2 of None \<Rightarrow> m | Some n \<Rightarrow> take n m) \<and>
             mu = map (\<lambda>j. sum_list (map (\<lambda>r. r ! j) m') / real (length m'))
                    [0 ..< ncols sample_array] \<and>
             s = sqrt (sum_list (map (\<lambda>x. x * x) mu)) \<longrightarrow>
             (m' = [] \<longrightarrow> body t = Ar (replicate (ncols sample_array) (Fl NaN))) \<and>
             (m' \<noteq> [] \<and> (True \<longrightarrow> s \<noteq> 0) \<longrightarrow>
                body t = Ar (map (\<lambda>x. Fl (Fin (if True then x / s else x))) mu))"
    by auto
  from u [rule_format, of "[[1, 0], [3, 0], [6, 3]]" "[[1, 0], [3, 0]]" "[(1 + 3) / 2, (0 + 0) / 2]" 2]
    w q
  have "body t = Ar [Fl (Fin 1), Fl (Fin 0)]"
    by (simp add: numeral_2_eq_2)
  with t w have t': "t = \<lparr>dev = CPU, shape = [2], body = Ar [Fl (Fin 1), Fl (Fin 0)]\<rparr>"
    by (cases t) simp
  have c1: "map_sum id (\<lambda>ex. map_of (model_inputs ex) ''video_feat'')
     (RetrievalDataset_getitem ?ds 0) =
     Inr (Some \<lparr>dev = CPU, shape = [2], body = Ar [Fl (Fin 1), Fl (Fin 0)]\<rparr>)"
    using t(1) t' by (subst g) simp
  from a g' f' obtain t2 where
    "map_of (model_inputs ?ex') ''sub_feat'' = Some t2"
    "t2 = \<lparr>dev = CPU, shape = [2], body = Ar [Fl (Fin 0), Fl (Fin 0)]\<rparr>"
    by auto
  then have c2: "map_sum id (\<lambda>ex. map_of (model_inputs ex) ''sub_feat'')
     (get_item_context ?es 0) =
     Inr (Some \<lparr>dev = CPU, shape = [2], body = Ar [Fl (Fin 0), Fl (Fin 0)]\<rparr>)"
    by (subst g') simp
  have n1: "\<not> isl (RetrievalDataset_getitem ?ds 0)"
    by (subst g) simp
  have n2: "\<not> isl (get_item_context ?es 0)"
    by (subst g') simp
  from n1 n2 f f' k w q c1 c2 show ?thesis
    by blast
qed

subsection \<open>The flag tef\<close>

lemma prefix_before_foreign:
  assumes "c \<notin> set p"
  shows "prefix p (s @ c # t) = prefix p s"
proof
  assume "prefix p (s @ c # t)"
  then have "prefix p s \<or> (\<exists>us. p = s @ us \<and> prefix us (c # t))"
    by (simp add: prefix_append)
  then show "prefix p s"
  proof
    assume "prefix p s"
    then show ?thesis .
  next
    assume "\<exists>us. p = s @ us \<and> prefix us (c # t)"
    then obtain us where u: "p = s @ us" "prefix us (c # t)" by blast
    show ?thesis
    proof (cases us)
      case Nil
      with u show ?thesis by simp
    next
      case (Cons u us')
      with u have "u = c" by simp
      with Cons u assms show ?thesis by simp
    qed
  qed
next
  assume "prefix p s"
  then show "prefix p (s @ c # t)" by simp
qed

lemma is_substr_split:
  assumes "c \<notin> set p" and "p \<noteq> []"
  shows "is_substr p (s @ c # t) = (is_substr p s \<or> is_substr p t)"
proof (induction s)
  case Nil
  have "\<not> prefix p (c # t)"
    using assms by (cases p) auto
  then show ?case using assms by simp
next
  case (Cons x s)
  have "prefix p (x # s @ c # t) = prefix p (x # s)"
    using prefix_before_foreign [OF assms(1), of "x # s" t] by simp
  then show ?case using Cons by auto
qed

lemma tef_suffix_flags:
  "is_substr ''video'' (cm @ ''_tef'') = is_substr ''video'' cm"
  "is_substr ''sub'' (cm @ ''_tef'') = is_substr ''sub'' cm"
  "is_substr ''video'' (''tef_'' @ cm) = is_substr ''video'' cm"
  "is_substr ''sub'' (''tef_'' @ cm) = is_substr ''sub'' cm"
proof -
  show "is_substr ''video'' (cm @ ''_tef'') = is_substr ''video'' cm"
    using is_substr_split [of "CHR ''_''" "''video''" cm "''tef''"] by simp
  show "is_substr ''sub'' (cm @ ''_tef'') = is_substr ''sub'' cm"
    using is_substr_split [of "CHR ''_''" "''sub''" cm "''tef''"] by simp
  show "is_substr ''video'' (''tef_'' @ cm) = is_substr ''video'' cm"
    using is_substr_split [of "CHR ''_''" "''video''" "''tef''" cm] by simp
  show "is_substr ''sub'' (''tef_'' @ cm) = is_substr ''sub'' cm"
    using is_substr_split [of "CHR ''_''" "''sub''" "''tef''" cm] by simp
qed

lemma getitem_ignores_tef:
  "RetrievalDataset_getitem (ds\<lparr>ctx_mode := c, use_tef := b\<rparr>) i = RetrievalDataset_getitem ds i"
  by (simp add: RetrievalDataset_getitem_def get_query_feat_by_desc_id_def cong: sum.case_cong)

lemma eval_getitem_ignores_tef:
  "RetrievalEvalDataset_getitem (ds\<lparr>ctx_mode := c, use_tef := b\<rparr>) i =
   RetrievalEvalDataset_getitem ds i"
  by (simp add: RetrievalEvalDataset_getitem_def get_item_query_def get_item_context_def
      get_query_feat_by_desc_id_def cong: sum.case_cong)

lemma init_other_mode:
  assumes "is_substr ''video'' cm = is_substr ''video'' cm'"
    and "is_substr ''sub'' cm = is_substr ''sub'' cm'"
  shows "RetrievalDataset_init fs loaded name db sb vf mdl mcl cm' nv nt r =
     map_sum id (\<lambda>ds. ds\<lparr>ctx_mode := cm', use_tef := is_substr ''tef'' cm'\<rparr>)
       (RetrievalDataset_init fs loaded name db sb vf mdl mcl cm nv nt r)"
  using assms
  by (simp add: RetrievalDataset_init_def Let_def split: sum.splits)

lemma eval_init_other_mode:
  assumes "is_substr ''video'' cm = is_substr ''video'' cm'"
    and "is_substr ''sub'' cm = is_substr ''sub'' cm'"
  shows "RetrievalEvalDataset_init fs loaded vi name split db mdl mcl sb vf cm' dm r nv nt =
     map_sum id (\<lambda>ds. ds\<lparr>ctx_mode := cm', use_tef := is_substr ''tef'' cm'\<rparr>)
       (RetrievalEvalDataset_init fs loaded vi name split db mdl mcl sb vf cm dm r nv nt)"
  using assms
  by (simp add: RetrievalEvalDataset_init_def Let_def split: sum.splits option.splits)

lemma train_item_same_flags:
  assumes "is_substr ''video'' cm = is_substr ''video'' cm'"
    and "is_substr ''sub'' cm = is_substr ''sub'' cm'"
  shows "train_item fs loaded name db sb vf mdl mcl cm' nv nt r i =
         train_item fs loaded name db sb vf mdl mcl cm nv nt r i"
  unfolding train_item_def init_other_mode [OF assms]
  by (cases "RetrievalDataset_init fs loaded name db sb vf mdl mcl cm nv nt r")
    (simp_all add: getitem_ignores_tef)

lemma eval_item_same_flags:
  assumes "is_substr ''video'' cm = is_substr ''video'' cm'"
    and "is_substr ''sub'' cm = is_substr ''sub'' cm'"
  shows "eval_item fs loaded vi name split db mdl mcl sb vf cm' dm r nv nt i =
         eval_item fs loaded vi name split db mdl mcl sb vf cm dm r nv nt i"
  unfolding eval_item_def eval_init_other_mode [OF assms]
  by (cases "RetrievalEvalDataset_init fs loaded vi name split db mdl mcl sb vf cm dm r nv nt")
    (simp_all add: eval_getitem_ignores_tef)

text \<open>
  C3. The example that the item getter returns does not depend on the flag \<^verbatim>\<open>tef\<close>. Two
  context-mode strings that agree on whether they contain \<^verbatim>\<open>video\<close> and on whether they
  contain \<^verbatim>\<open>sub\<close> give, with all other arguments equal, the same result at every index,
  for the training and for the evaluation dataset; a context mode with \<^verbatim>\<open>_tef\<close> appended
  or \<^verbatim>\<open>tef_\<close> prepended is such a string; and changing the attribute \<^verbatim>\<open>use_tef\<close> of a
  dataset changes no result of its item getter.
\<close>

theorem tef_flag_ignored:
  "(is_substr ''video'' cm = is_substr ''video'' cm' \<and> is_substr ''sub'' cm = is_substr ''sub'' cm' \<longrightarrow>
      train_item fs loaded name db sb vf mdl mcl cm' nv nt r i =
      train_item fs loaded name db sb vf mdl mcl cm nv nt r i \<and>
      eval_item fs loaded vi name split db mdl mcl sb vf cm' dm r nv nt i =
      eval_item fs loaded vi name split db mdl mcl sb vf cm dm r nv nt i) \<and>
   train_item fs loaded name db sb vf mdl mcl (cm @ ''_tef'') nv nt r i =
   train_item fs loaded name db sb vf mdl mcl cm nv nt r i \<and>
   train_item fs loaded name db sb vf mdl mcl (''tef_'' @ cm) nv nt r i =
   train_item fs loaded name db sb vf mdl mcl cm nv nt r i \<and>
   eval_item fs loaded vi name split db mdl mcl sb vf (cm @ ''_tef'') dm r nv nt i =
   eval_item fs loaded vi name split db mdl mcl sb vf cm dm r nv nt i \<and>
   eval_item fs loaded vi name split db mdl mcl sb vf (''tef_'' @ cm) dm r nv nt i =
   eval_item fs loaded vi name split db mdl mcl sb vf cm dm r nv nt i \<and>
   RetrievalDataset_getitem (ds\<lparr>use_tef := b\<rparr>) i = RetrievalDataset_getitem ds i \<and>
   RetrievalEvalDataset_getitem (es\<lparr>use_tef := b\<rparr>) i = RetrievalEvalDataset_getitem es i"
proof -
  have g: "RetrievalDataset_getitem (ds\<lparr>use_tef := b\<rparr>) i = RetrievalDataset_getitem ds i"
    using getitem_ignores_tef [where ds = ds and c = "ctx_mode ds" and b = b and i = i] by simp
  have h: "RetrievalEvalDataset_getitem (es\<lparr>use_tef := b\<rparr>) i = RetrievalEvalDataset_getitem es i"
    using eval_getitem_ignores_tef [where ds = es and c = "ctx_mode es" and b = b and i = i] by simp
  have t1: "train_item fs loaded name db sb vf mdl mcl (cm @ ''_tef'') nv nt r i =
      train_item fs loaded name db sb vf mdl mcl cm nv nt r i"
    by (rule train_item_same_flags) (simp_all only: tef_suffix_flags)
  have t2: "train_item fs loaded name db sb vf mdl mcl (''tef_'' @ cm) nv nt r i =
      train_item fs loaded name db sb vf mdl mcl cm nv nt r i"
    by (rule train_item_same_flags) (simp_all only: tef_suffix_flags)
  have e1: "eval_item fs loaded vi name split db mdl mcl sb vf (cm @ ''_tef'') dm r nv nt i =
      eval_item fs loaded vi name split db mdl mcl sb vf cm dm r nv nt i"
    by (rule eval_item_same_flags) (simp_all only: tef_suffix_flags)
  have e2: "eval_item fs loaded vi name split db mdl mcl sb vf (''tef_'' @ cm) dm r nv nt i =
      eval_item fs loaded vi name split db mdl mcl sb vf cm dm r nv nt i"
    by (rule eval_item_same_flags) (simp_all only: tef_suffix_flags)
  have s: "is_substr ''video'' cm = is_substr ''video'' cm' \<and>
      is_substr ''sub'' cm = is_substr ''sub'' cm' \<longrightarrow>
      train_item fs loaded name db sb vf mdl mcl cm' nv nt r i =
      train_item fs loaded name db sb vf mdl mcl cm nv nt r i \<and>
      eval_item fs loaded vi name split db mdl mcl sb vf cm' dm r nv nt i =
      eval_item fs loaded vi name split db mdl mcl sb vf cm dm r nv nt i"
  proof (intro impI conjI)
    assume a: "is_substr ''video'' cm = is_substr ''video'' cm' \<and>
      is_substr ''sub'' cm = is_substr ''sub'' cm'"
    from a show "train_item fs loaded name db sb vf mdl mcl cm' nv nt r i =
      train_item fs loaded name db sb vf mdl mcl cm nv nt r i"
      by (intro train_item_same_flags) blast+
    from a show "eval_item fs loaded vi name split db mdl mcl sb vf cm' dm r nv nt i =
      eval_item fs loaded vi name split db mdl mcl sb vf cm dm r nv nt i"
      by (intro eval_item_same_flags) blast+
  qed
  from s t1 t2 e1 e2 g h show ?thesis
    by (intro conjI)
qed


lemma sample_video_item:
  "RetrievalDataset_getitem (projr (sample_train ''video'' (Dbl 1 0))) 0 =
     Inr \<lparr>meta = [(''desc_id'', JInt 0), (''desc'', JStr ''a query''), (''vid_name'', JStr ''v1''),
                  (''duration'', JFloat (Fin 60))],
          model_inputs = [(''query_feat'', from_numpy2 (slice_rows (Some 2) sample_array)),
                          (''video_feat'', from_numpy1 [Fin 2, Fin 0]),
                          (''sub_feat'', torch_zeros [2])]\<rparr>"
  by (simp add: sample_train_video RetrievalDataset_getitem_def py_index_def ten_queries_def
      apply_data_ratio_def
      sample_query_def field_def get_query_feat_by_desc_id_def h5_lookup_def py_str_0
      sample_h5_def ctx_feat_def mean_pooled_def sample_mean)

theorem tef_flag_ignored_witness:
  "is_substr ''video'' ''video'' = is_substr ''video'' ''video_tef'' \<and>
   is_substr ''sub'' ''video'' = is_substr ''sub'' ''video_tef'' \<and>
   is_substr ''tef'' ''video_tef'' \<and> \<not> is_substr ''tef'' ''video'' \<and>
   train_item Map.empty ten_queries ''tvr'' (Handler sample_h5) (Handler sample_h5)
     (Handler sample_h5) (Some 2) (Some 2) ''video_tef'' False False (Dbl 1 0) 0 =
   RetrievalDataset_getitem (projr (sample_train ''video'' (Dbl 1 0))) 0 \<and>
   \<not> isl (RetrievalDataset_getitem (projr (sample_train ''video'' (Dbl 1 0))) 0)"
proof -
  have f: "is_substr ''video'' ''video'' = is_substr ''video'' ''video_tef'' \<and>
      is_substr ''sub'' ''video'' = is_substr ''sub'' ''video_tef''"
    by simp
  have t: "is_substr ''tef'' ''video_tef'' \<and> \<not> is_substr ''tef'' ''video''"
    by simp
  have u: "train_item Map.empty ten_queries ''tvr'' (Handler sample_h5) (Handler sample_h5)
     (Handler sample_h5) (Some 2) (Some 2) ''video'' False False (Dbl 1 0) 0 =
     RetrievalDataset_getitem (projr (sample_train ''video'' (Dbl 1 0))) 0"
    by (simp add: train_item_def sample_train_def [symmetric] sample_train_video)
  note w = tef_flag_ignored [where cm = "''video''" and cm' = "''video_tef''"
      and fs = Map.empty and loaded = ten_queries and name = "''tvr''"
      and db = "Handler sample_h5" and sb = "Handler sample_h5" and vf = "Handler sample_h5"
      and mdl = "Some 2" and mcl = "Some 2" and nv = False and nt = False and r = "Dbl 1 0" and i = 0]
  from w f have "train_item Map.empty ten_queries ''tvr'' (Handler sample_h5) (Handler sample_h5)
     (Handler sample_h5) (Some 2) (Some 2) ''video_tef'' False False (Dbl 1 0) 0 =
     train_item Map.empty ten_queries ''tvr'' (Handler sample_h5) (Handler sample_h5)
     (Handler sample_h5) (Some 2) (Some 2) ''video'' False False (Dbl 1 0) 0"
    by blast
  with u have e: "train_item Map.empty ten_queries ''tvr'' (Handler sample_h5) (Handler sample_h5)
     (Handler sample_h5) (Some 2) (Some 2) ''video_tef'' False False (Dbl 1 0) 0 =
     RetrievalDataset_getitem (projr (sample_train ''video'' (Dbl 1 0))) 0"
    by simp
  have n: "\<not> isl (RetrievalDataset_getitem (projr (sample_train ''video'' (Dbl 1 0))) 0)"
    by (simp add: sample_video_item)
  from f t e n show ?thesis by blast
qed

subsection \<open>Collating\<close>

lemma py_index_nat: "i < length xs \<Longrightarrow> py_index xs (int i) = Inr (xs ! i)"
  by (simp add: py_index_def)

lemma py_index_0: "xs \<noteq> [] \<Longrightarrow> py_index xs 0 = Inr (hd xs)"
  by (cases xs) (simp_all add: py_index_def)

lemma py_index_0_Inr: "py_index xs 0 = Inr x \<Longrightarrow> xs \<noteq> [] \<and> x = hd xs"
  by (cases xs) (auto simp: py_index_def)

lemma gather_Inr:
  "gather batch k = Inr xs \<Longrightarrow>
   length xs = length batch \<and>
   (\<forall>i < length batch. map_of (model_inputs (batch ! i)) k = Some (xs ! i))"
proof (induction batch arbitrary: xs)
  case Nil
  then show ?case by simp
next
  case (Cons e es)
  from Cons.prems obtain t ys where
    t: "map_of (model_inputs e) k = Some t" and ys: "gather es k = Inr ys" and xs: "xs = t # ys"
    by (auto split: option.splits sum.splits)
  from Cons.IH [OF ys] have
    l: "length ys = length es" and
    a: "\<forall>i < length es. map_of (model_inputs (es ! i)) k = Some (ys ! i)"
    by blast+
  show ?case
  proof (intro conjI allI impI)
    show "length xs = length (e # es)" using l xs by simp
  next
    fix i
    assume "i < length (e # es)"
    then show "map_of (model_inputs ((e # es) ! i)) k = Some (xs ! i)"
      using a t xs by (cases i) simp_all
  qed
qed

lemma torch_stack_row:
  assumes "torch_stack xs = Inr t" and "i < length xs"
  shows "tensor_row t (int i) = Inr (xs ! i)" and "shape t = length xs # shape (hd xs)"
proof -
  from assms(1) have ne: "xs \<noteq> []"
    and al: "list_all (\<lambda>t. shape t = shape (hd xs) \<and> dev t = dev (hd xs)) xs"
    and t: "t = \<lparr>dev = dev (hd xs), shape = length xs # shape (hd xs), body = Ar (map body xs)\<rparr>"
    by (auto simp: torch_stack_def split: if_splits)
  from al assms(2) have "shape (xs ! i) = shape (hd xs) \<and> dev (xs ! i) = dev (hd xs)"
    by (simp add: list_all_length)
  then show "tensor_row t (int i) = Inr (xs ! i)"
    using assms(2) by (simp add: t tensor_row_def children_def py_index_nat)
  show "shape t = length xs # shape (hd xs)"
    by (simp add: t)
qed

lemma foldr_max_ge: "x \<in> set xs \<Longrightarrow> x \<le> foldr max xs (0 :: nat)"
  by (induction xs) (auto simp: max_def)

lemma pad_sequences_1d_row:
  assumes "pad_sequences_1d xs = Inr (p, m, l)" and "i < length xs"
  shows "tensor_row p (int i) =
           Inr \<lparr>dev = CPU, shape = tl (shape p),
                body = Ar (children (body (xs ! i)) @
                           replicate (hd (tl (shape p)) - hd (shape (xs ! i)))
                             (zeros_nd (tl (tl (shape p)))))\<rparr>"
    and "tensor_row m (int i) =
           Inr \<lparr>dev = CPU, shape = [hd (tl (shape p))],
                body = Ar (replicate (hd (shape (xs ! i))) (Bo True) @
                           replicate (hd (tl (shape p)) - hd (shape (xs ! i))) (Bo False))\<rparr>"
    and "l = map (\<lambda>t. hd (shape t)) xs"
    and "hd (shape (xs ! i)) \<le> hd (tl (shape p))"
    and "shape p = length xs # foldr max l 0 # tl (shape (xs ! i))"
proof -
  let ?ml = "foldr max (map (\<lambda>t. hd (shape t)) xs) 0"
  let ?ex = "tl (shape (hd xs))"
  from assms(1) have ne: "xs \<noteq> []"
    and al: "list_all (\<lambda>t. shape t \<noteq> [] \<and> tl (shape t) = ?ex) xs"
    and p: "p = \<lparr>dev = CPU, shape = length xs # ?ml # ?ex,
                  body = Ar (map (\<lambda>t. Ar (children (body t) @
                                          replicate (?ml - hd (shape t)) (zeros_nd ?ex))) xs)\<rparr>"
    and m: "m = \<lparr>dev = CPU, shape = [length xs, ?ml],
                  body = Ar (map (\<lambda>t. Ar (replicate (hd (shape t)) (Bo True) @
                                          replicate (?ml - hd (shape t)) (Bo False))) xs)\<rparr>"
    and l: "l = map (\<lambda>t. hd (shape t)) xs"
    by (auto simp: pad_sequences_1d_def Let_def split: if_splits)
  show "tensor_row p (int i) =
           Inr \<lparr>dev = CPU, shape = tl (shape p),
                body = Ar (children (body (xs ! i)) @
                           replicate (hd (tl (shape p)) - hd (shape (xs ! i)))
                             (zeros_nd (tl (tl (shape p)))))\<rparr>"
    using assms(2) by (simp add: p tensor_row_def children_def py_index_nat)
  show "tensor_row m (int i) =
           Inr \<lparr>dev = CPU, shape = [hd (tl (shape p))],
                body = Ar (replicate (hd (shape (xs ! i))) (Bo True) @
                           replicate (hd (tl (shape p)) - hd (shape (xs ! i))) (Bo False))\<rparr>"
    using assms(2) by (simp add: p m tensor_row_def children_def py_index_nat)
  show "l = map (\<lambda>t. hd (shape t)) xs" by (rule l)
  have "hd (shape (xs ! i)) \<in> set (map (\<lambda>t. hd (shape t)) xs)"
    using assms(2) by (simp add: image_iff) (metis nth_mem)
  then have "hd (shape (xs ! i)) \<le> ?ml"
    by (rule foldr_max_ge)
  then show "hd (shape (xs ! i)) \<le> hd (tl (shape p))"
    by (simp add: p)
  from al assms(2) have "tl (shape (xs ! i)) = ?ex"
    by (simp add: list_all_length)
  then show "shape p = length xs # foldr max l 0 # tl (shape (xs ! i))"
    by (simp add: p l)
qed

lemma entry_of_Plain:
  "entry_of batch k (Plain t) \<Longrightarrow>
   k \<noteq> ''query_feat'' \<and> (\<exists>xs. gather batch k = Inr xs \<and> torch_stack xs = Inr t)"
  by (auto simp: entry_of_def split: sum.splits)

lemma entry_of_Padded:
  "entry_of batch k (Padded p m l) \<Longrightarrow>
   k = ''query_feat'' \<and> (\<exists>xs. gather batch k = Inr xs \<and> pad_sequences_1d xs = Inr (p, m, l))"
  by (auto simp: entry_of_def split: sum.splits)

lemma collate_keys_entries:
  "collate_keys batch ks acc = Inr out \<Longrightarrow>
   (\<forall>k v. map_of acc k = Some v \<longrightarrow> entry_of batch k v) \<Longrightarrow>
   (\<forall>k v. map_of out k = Some v \<longrightarrow> entry_of batch k v)"
proof (induction ks arbitrary: acc)
  case Nil
  then show ?case by simp
next
  case (Cons k ks)
  show ?case
  proof (cases "k = ''query_feat''")
    case True
    with Cons.prems(1) obtain xs p m l where
      g: "gather batch k = Inr xs" and pd: "pad_sequences_1d xs = Inr (p, m, l)"
      and r: "collate_keys batch ks (AList.update k (Padded p m l) acc) = Inr out"
      by (auto split: sum.splits prod.splits)
    have "\<forall>k' v. map_of (AList.update k (Padded p m l) acc) k' = Some v \<longrightarrow> entry_of batch k' v"
      using Cons.prems(2) g pd True by (auto simp: update_conv' entry_of_def)
    from Cons.IH [OF r this] show ?thesis .
  next
    case False
    show ?thesis
    proof (cases "is_substr ''feat'' k")
      case True
      with False Cons.prems(1) obtain xs t where
        g: "gather batch k = Inr xs" and st: "torch_stack xs = Inr t"
        and r: "collate_keys batch ks (AList.update k (Plain t) acc) = Inr out"
        by (auto split: sum.splits)
      have "\<forall>k' v. map_of (AList.update k (Plain t) acc) k' = Some v \<longrightarrow> entry_of batch k' v"
        using Cons.prems(2) g st False by (auto simp: update_conv' entry_of_def)
      from Cons.IH [OF r this] show ?thesis .
    next
      case nf: False
      with False Cons.prems(1) have "collate_keys batch ks acc = Inr out" by simp
      from Cons.IH [OF this Cons.prems(2)] show ?thesis .
    qed
  qed
qed

lemma collate_Inr:
  assumes "retrieval_collate batch = Inr (metas, batched)"
  shows "metas = map meta batch" and "batch \<noteq> []"
    and "collate_keys batch (map fst (model_inputs (hd batch))) [] = Inr batched"
proof -
  from assms obtain e0 where e: "py_index batch 0 = Inr e0"
    and c: "collate_keys batch (map fst (model_inputs e0)) [] = Inr batched"
    and m: "metas = map meta batch"
    by (auto simp: retrieval_collate_def Let_def split: sum.splits)
  from py_index_0_Inr [OF e] c m
  show "metas = map meta batch" "batch \<noteq> []"
    "collate_keys batch (map fst (model_inputs (hd batch))) [] = Inr batched"
    by simp_all
qed

text \<open>
  C7. If \<^verbatim>\<open>retrieval_collate\<close> returns for a batch, the batch is not empty, the metadata
  returned is the list of the metadata of the examples, in their order, and under every key
  of the batched dictionary the row \<open>i\<close> comes from the example \<open>i\<close>: row \<open>i\<close> of a stacked
  tensor is the tensor of example \<open>i\<close>, row \<open>i\<close> of the padded query features is the query
  feature of example \<open>i\<close> followed by zero rows up to the longest length of the batch, row
  \<open>i\<close> of the mask marks exactly the rows of example \<open>i\<close>, and entry \<open>i\<close> of the lengths is
  the length of its query feature.
\<close>

theorem collate_keeps_order:
  assumes "retrieval_collate batch = Inr (metas, batched)"
  shows "batch \<noteq> [] \<and> metas = map meta batch \<and>
    (\<forall>k t i. map_of batched k = Some (Plain t) \<and> i < length batch \<longrightarrow>
       (\<exists>x. map_of (model_inputs (batch ! i)) k = Some x \<and> tensor_row t (int i) = Inr x \<and>
            shape t = length batch # shape x)) \<and>
    (\<forall>k p m l i. map_of batched k = Some (Padded p m l) \<and> i < length batch \<longrightarrow>
       (\<exists>x. map_of (model_inputs (batch ! i)) k = Some x \<and>
            shape p = length batch # foldr max l 0 # tl (shape x) \<and>
            hd (shape x) \<le> foldr max l 0 \<and>
            tensor_row p (int i) =
              Inr \<lparr>dev = CPU, shape = foldr max l 0 # tl (shape x),
                   body = Ar (children (body x) @
                              replicate (foldr max l 0 - hd (shape x)) (zeros_nd (tl (shape x))))\<rparr> \<and>
            tensor_row m (int i) =
              Inr \<lparr>dev = CPU, shape = [foldr max l 0],
                   body = Ar (replicate (hd (shape x)) (Bo True) @
                              replicate (foldr max l 0 - hd (shape x)) (Bo False))\<rparr> \<and>
            length l = length batch \<and> l ! i = hd (shape x)))"
proof (intro conjI allI impI)
  show "batch \<noteq> []" using collate_Inr(2) [OF assms] .
  show "metas = map meta batch" using collate_Inr(1) [OF assms] .
next
  fix k t i
  assume h: "map_of batched k = Some (Plain t) \<and> i < length batch"
  from collate_keys_entries [OF collate_Inr(3) [OF assms]] h
  have "entry_of batch k (Plain t)" by simp
  then obtain xs where g: "gather batch k = Inr xs" and st: "torch_stack xs = Inr t"
    using entry_of_Plain by blast
  from gather_Inr [OF g] h have
    l: "length xs = length batch" and x: "map_of (model_inputs (batch ! i)) k = Some (xs ! i)"
    by simp_all
  from h l have i: "i < length xs" by simp
  from st have "list_all (\<lambda>t. shape t = shape (hd xs) \<and> dev t = dev (hd xs)) xs"
    by (auto simp: torch_stack_def split: if_splits)
  with i have "shape (xs ! i) = shape (hd xs)" by (simp add: list_all_length)
  with torch_stack_row [OF st i] l x
  show "\<exists>x. map_of (model_inputs (batch ! i)) k = Some x \<and> tensor_row t (int i) = Inr x \<and>
            shape t = length batch # shape x"
    by simp
next
  fix k p m l i
  assume h: "map_of batched k = Some (Padded p m l) \<and> i < length batch"
  from collate_keys_entries [OF collate_Inr(3) [OF assms]] h
  have "entry_of batch k (Padded p m l)" by simp
  then obtain xs where g: "gather batch k = Inr xs" and pd: "pad_sequences_1d xs = Inr (p, m, l)"
    using entry_of_Padded by blast
  from gather_Inr [OF g] h have
    n: "length xs = length batch" and x: "map_of (model_inputs (batch ! i)) k = Some (xs ! i)"
    by simp_all
  from h n have i: "i < length xs" by simp
  note r = pad_sequences_1d_row [OF pd i]
  from r(5) have s: "tl (shape p) = foldr max l 0 # tl (shape (xs ! i))"
    "hd (tl (shape p)) = foldr max l 0" "tl (tl (shape p)) = tl (shape (xs ! i))"
    by simp_all
  from r(3) n i have ll: "length l = length batch" "l ! i = hd (shape (xs ! i))"
    by simp_all
  show "\<exists>x. map_of (model_inputs (batch ! i)) k = Some x \<and>
            shape p = length batch # foldr max l 0 # tl (shape x) \<and>
            hd (shape x) \<le> foldr max l 0 \<and>
            tensor_row p (int i) =
              Inr \<lparr>dev = CPU, shape = foldr max l 0 # tl (shape x),
                   body = Ar (children (body x) @
                              replicate (foldr max l 0 - hd (shape x)) (zeros_nd (tl (shape x))))\<rparr> \<and>
            tensor_row m (int i) =
              Inr \<lparr>dev = CPU, shape = [foldr max l 0],
                   body = Ar (replicate (hd (shape x)) (Bo True) @
                              replicate (foldr max l 0 - hd (shape x)) (Bo False))\<rparr> \<and>
            length l = length batch \<and> l ! i = hd (shape x)"
    using x r(1) r(2) r(4) r(5) s ll n by (intro exI [of _ "xs ! i"]) simp
qed


lemma sample_gather_query:
  "gather sample_batch ''query_feat'' =
     Inr [from_numpy2 \<lparr>ncols = 1, rows = [[Fin 5]]\<rparr>,
          from_numpy2 \<lparr>ncols = 1, rows = [[Fin 9], [Fin 9]]\<rparr>,
          from_numpy2 \<lparr>ncols = 1, rows = [[Fin 3]]\<rparr>]"
  by (simp add: sample_batch_def sample_example_def)

lemma sample_gather_video:
  "gather sample_batch ''video_feat'' =
     Inr [from_numpy1 [Fin 5, Fin 0], from_numpy1 [Fin 9, Fin 0], from_numpy1 [Fin 3, Fin 0]]"
  by (simp add: sample_batch_def sample_example_def)

lemma sample_pad:
  "pad_sequences_1d [from_numpy2 \<lparr>ncols = 1, rows = [[Fin 5]]\<rparr>,
          from_numpy2 \<lparr>ncols = 1, rows = [[Fin 9], [Fin 9]]\<rparr>,
          from_numpy2 \<lparr>ncols = 1, rows = [[Fin 3]]\<rparr>] =
     Inr (\<lparr>dev = CPU, shape = [3, 2, 1],
          body = Ar [Ar [Ar [Fl (Fin 5)], Ar [Fl (Fin 0)]],
                     Ar [Ar [Fl (Fin 9)], Ar [Fl (Fin 9)]],
                     Ar [Ar [Fl (Fin 3)], Ar [Fl (Fin 0)]]]\<rparr>,
         \<lparr>dev = CPU, shape = [3, 2],
          body = Ar [Ar [Bo True, Bo False], Ar [Bo True, Bo True], Ar [Bo True, Bo False]]\<rparr>,
         [1, 2, 1])"
  by (simp add: pad_sequences_1d_def from_numpy2_def children_def Let_def numeral_2_eq_2
      numeral_3_eq_3)

lemma sample_stack:
  "torch_stack [from_numpy1 [Fin 5, Fin 0], from_numpy1 [Fin 9, Fin 0], from_numpy1 [Fin 3, Fin 0]] =
     Inr \<lparr>dev = CPU, shape = [3, 2],
          body = Ar [Ar [Fl (Fin 5), Fl (Fin 0)], Ar [Fl (Fin 9), Fl (Fin 0)],
                     Ar [Fl (Fin 3), Fl (Fin 0)]]\<rparr>"
  by (simp add: torch_stack_def from_numpy1_def)

lemma sample_collate:
  "retrieval_collate sample_batch =
     Inr ([[(''desc_id'', JInt 5)], [(''desc_id'', JInt 9)], [(''desc_id'', JInt 3)]],
          sample_batched)"
proof -
  have k: "map fst (model_inputs (hd sample_batch)) = [''query_feat'', ''st_ed_indices'', ''video_feat'']"
    by (simp add: sample_batch_def sample_example_def)
  have i: "py_index sample_batch 0 = Inr (hd sample_batch)"
    by (simp add: py_index_def sample_batch_def)
  have m: "map meta sample_batch = [[(''desc_id'', JInt 5)], [(''desc_id'', JInt 9)], [(''desc_id'', JInt 3)]]"
    by (simp add: sample_batch_def sample_example_def)
  have c: "collate_keys sample_batch [''query_feat'', ''st_ed_indices'', ''video_feat''] [] =
      Inr sample_batched"
    by (simp add: sample_gather_query sample_gather_video sample_pad sample_stack
        sample_batched_def del: One_nat_def)
  show ?thesis
    by (simp only: retrieval_collate_def Let_def i sum.case k m c)
qed

theorem collate_keeps_order_witness:
  "retrieval_collate sample_batch =
     Inr ([[(''desc_id'', JInt 5)], [(''desc_id'', JInt 9)], [(''desc_id'', JInt 3)]],
          sample_batched) \<and>
   map_of sample_batched ''video_feat'' =
     Some (Plain \<lparr>dev = CPU, shape = [3, 2],
              body = Ar [Ar [Fl (Fin 5), Fl (Fin 0)], Ar [Fl (Fin 9), Fl (Fin 0)],
                         Ar [Fl (Fin 3), Fl (Fin 0)]]\<rparr>) \<and>
   (1 :: nat) < length sample_batch \<and>
   map_of (model_inputs (sample_batch ! 1)) ''video_feat'' = Some (from_numpy1 [Fin 9, Fin 0]) \<and>
   tensor_row \<lparr>dev = CPU, shape = [3, 2],
              body = Ar [Ar [Fl (Fin 5), Fl (Fin 0)], Ar [Fl (Fin 9), Fl (Fin 0)],
                         Ar [Fl (Fin 3), Fl (Fin 0)]]\<rparr> 1 = Inr (from_numpy1 [Fin 9, Fin 0]) \<and>
   map_of (model_inputs (sample_batch ! 0)) ''query_feat'' =
     Some (from_numpy2 \<lparr>ncols = 1, rows = [[Fin 5]]\<rparr>) \<and>
   tensor_row \<lparr>dev = CPU, shape = [3, 2, 1],
          body = Ar [Ar [Ar [Fl (Fin 5)], Ar [Fl (Fin 0)]],
                     Ar [Ar [Fl (Fin 9)], Ar [Fl (Fin 9)]],
                     Ar [Ar [Fl (Fin 3)], Ar [Fl (Fin 0)]]]\<rparr> 0 =
     Inr \<lparr>dev = CPU, shape = [2, 1], body = Ar [Ar [Fl (Fin 5)], Ar [Fl (Fin 0)]]\<rparr>"
proof -
  note t = collate_keeps_order [OF sample_collate]
  have v: "map_of sample_batched ''video_feat'' =
     Some (Plain \<lparr>dev = CPU, shape = [3, 2],
              body = Ar [Ar [Fl (Fin 5), Fl (Fin 0)], Ar [Fl (Fin 9), Fl (Fin 0)],
                         Ar [Fl (Fin 3), Fl (Fin 0)]]\<rparr>)"
    by (simp add: sample_batched_def)
  have q: "map_of sample_batched ''query_feat'' =
     Some (Padded
         \<lparr>dev = CPU, shape = [3, 2, 1],
          body = Ar [Ar [Ar [Fl (Fin 5)], Ar [Fl (Fin 0)]],
                     Ar [Ar [Fl (Fin 9)], Ar [Fl (Fin 9)]],
                     Ar [Ar [Fl (Fin 3)], Ar [Fl (Fin 0)]]]\<rparr>
         \<lparr>dev = CPU, shape = [3, 2],
          body = Ar [Ar [Bo True, Bo False], Ar [Bo True, Bo True], Ar [Bo True, Bo False]]\<rparr>
         [1, 2, 1])"
    by (simp add: sample_batched_def)
  have l: "(1 :: nat) < length sample_batch" "(0 :: nat) < length sample_batch"
    by (simp_all add: sample_batch_def)
  have x: "map_of (model_inputs (sample_batch ! 1)) ''video_feat'' = Some (from_numpy1 [Fin 9, Fin 0])"
    by (simp add: sample_batch_def sample_example_def)
  have y: "map_of (model_inputs (sample_batch ! 0)) ''query_feat'' =
     Some (from_numpy2 \<lparr>ncols = 1, rows = [[Fin 5]]\<rparr>)"
    by (simp add: sample_batch_def sample_example_def)
  from t v l(1) x
  have a: "tensor_row \<lparr>dev = CPU, shape = [3, 2],
              body = Ar [Ar [Fl (Fin 5), Fl (Fin 0)], Ar [Fl (Fin 9), Fl (Fin 0)],
                         Ar [Fl (Fin 3), Fl (Fin 0)]]\<rparr> (int 1) = Inr (from_numpy1 [Fin 9, Fin 0])"
    by fastforce
  from t q l(2) y
  have b: "tensor_row \<lparr>dev = CPU, shape = [3, 2, 1],
          body = Ar [Ar [Ar [Fl (Fin 5)], Ar [Fl (Fin 0)]],
                     Ar [Ar [Fl (Fin 9)], Ar [Fl (Fin 9)]],
                     Ar [Ar [Fl (Fin 3)], Ar [Fl (Fin 0)]]]\<rparr> (int 0) =
     Inr \<lparr>dev = CPU, shape = [2, 1], body = Ar [Ar [Fl (Fin 5)], Ar [Fl (Fin 0)]]\<rparr>"
    by (simp add: tensor_row_def children_def py_index_def)
  from sample_collate v l(1) x y a b show ?thesis
    by simp
qed

lemma update_fresh:
  "k \<notin> fst ` set al \<Longrightarrow> map fst (AList.update k v al) = map fst al @ [k]"
  by (induction al) auto

lemma is_substr_query_feat: "is_substr ''feat'' ''query_feat''"
  by simp

lemma collate_keys_names:
  "collate_keys batch ks acc = Inr out \<Longrightarrow> distinct ks \<Longrightarrow> set ks \<inter> fst ` set acc = {} \<Longrightarrow>
   map fst out = map fst acc @ filter (is_substr ''feat'') ks"
proof (induction ks arbitrary: acc)
  case Nil
  then show ?case by simp
next
  case (Cons k ks)
  from Cons.prems have fresh: "k \<notin> fst ` set acc" and d: "distinct ks" and nk: "k \<notin> set ks"
    and dj: "set ks \<inter> fst ` set acc = {}"
    by auto
  show ?case
  proof (cases "is_substr ''feat'' k")
    case True
    with Cons.prems(1) obtain v where
      r: "collate_keys batch ks (AList.update k v acc) = Inr out"
      by (auto split: sum.splits prod.splits if_splits)
    have "set ks \<inter> fst ` set (AList.update k v acc) = {}"
      using dj nk by (auto simp: dom_update)
    from Cons.IH [OF r d this] fresh True show ?thesis
      by (simp add: update_fresh)
  next
    case False
    then have "k \<noteq> ''query_feat''"
      using is_substr_query_feat by auto
    with False Cons.prems(1) have r: "collate_keys batch ks acc = Inr out"
      by simp
    from Cons.IH [OF r d dj] False show ?thesis
      by simp
  qed
qed

lemma collate_keys_dom:
  "collate_keys batch ks acc = Inr out \<Longrightarrow>
   fst ` set out = fst ` set acc \<union> {k \<in> set ks. is_substr ''feat'' k}"
proof (induction ks arbitrary: acc)
  case Nil
  then show ?case by simp
next
  case (Cons k ks)
  show ?case
  proof (cases "is_substr ''feat'' k")
    case True
    with Cons.prems(1) obtain v where
      r: "collate_keys batch ks (AList.update k v acc) = Inr out"
      by (auto split: sum.splits prod.splits if_splits)
    from Cons.IH [OF r] True show ?thesis
      by (auto simp: dom_update)
  next
    case False
    then have "k \<noteq> ''query_feat''"
      using is_substr_query_feat by auto
    with False Cons.prems(1) have r: "collate_keys batch ks acc = Inr out"
      by simp
    from Cons.IH [OF r] False show ?thesis
      by auto
  qed
qed

lemma collate_keys_filter:
  "collate_keys batch ks acc = collate_keys batch (filter (is_substr ''feat'') ks) acc"
proof (induction ks arbitrary: acc)
  case Nil
  then show ?case by simp
next
  case (Cons k ks)
  show ?case
  proof (cases "is_substr ''feat'' k")
    case True
    then show ?thesis
      using Cons.IH by (simp split: sum.splits prod.splits)
  next
    case False
    then have "k \<noteq> ''query_feat''"
      using is_substr_query_feat by auto
    with False Cons.IH show ?thesis by simp
  qed
qed

text \<open>
  C10. If \<^verbatim>\<open>retrieval_collate\<close> returns for a batch, the keys of the batched dictionary
  are exactly the keys of the model inputs of the first example that contain \<^verbatim>\<open>feat\<close>, in
  the order of the first example; the keys of the other examples do not matter. A key without
  \<^verbatim>\<open>feat\<close> is skipped without any effect: the loop over the keys gives the same result,
  error or dictionary, as the loop over the keys that contain \<^verbatim>\<open>feat\<close>.
\<close>

theorem collate_keeps_feat_keys:
  "(retrieval_collate batch = Inr (metas, batched) \<longrightarrow>
      batch \<noteq> [] \<and>
      fst ` set batched = {k \<in> fst ` set (model_inputs (hd batch)). is_substr ''feat'' k} \<and>
      (distinct (map fst (model_inputs (hd batch))) \<longrightarrow>
         map fst batched = filter (is_substr ''feat'') (map fst (model_inputs (hd batch))))) \<and>
   collate_keys batch ks [] = collate_keys batch (filter (is_substr ''feat'') ks) []"
proof (intro conjI impI)
  assume a: "retrieval_collate batch = Inr (metas, batched)"
  show "batch \<noteq> []" using collate_Inr(2) [OF a] .
  from collate_keys_dom [OF collate_Inr(3) [OF a]]
  show "fst ` set batched = {k \<in> fst ` set (model_inputs (hd batch)). is_substr ''feat'' k}"
    by auto
  assume "distinct (map fst (model_inputs (hd batch)))"
  from collate_keys_names [OF collate_Inr(3) [OF a] this]
  show "map fst batched = filter (is_substr ''feat'') (map fst (model_inputs (hd batch)))"
    by simp
next
  show "collate_keys batch ks [] = collate_keys batch (filter (is_substr ''feat'') ks) []"
    by (rule collate_keys_filter)
qed

theorem collate_keeps_feat_keys_witness:
  "retrieval_collate sample_batch =
     Inr ([[(''desc_id'', JInt 5)], [(''desc_id'', JInt 9)], [(''desc_id'', JInt 3)]],
          sample_batched) \<and>
   map fst (model_inputs (hd sample_batch)) = [''query_feat'', ''st_ed_indices'', ''video_feat''] \<and>
   map fst (model_inputs (sample_batch ! 1)) =
     [''query_feat'', ''st_ed_indices'', ''video_feat'', ''sub_feat''] \<and>
   distinct (map fst (model_inputs (hd sample_batch))) \<and>
   map fst sample_batched = [''query_feat'', ''video_feat''] \<and>
   \<not> is_substr ''feat'' ''st_ed_indices''"
proof -
  note t = collate_keeps_feat_keys [of sample_batch
      "[[(''desc_id'', JInt 5)], [(''desc_id'', JInt 9)], [(''desc_id'', JInt 3)]]" sample_batched]
  have k: "map fst (model_inputs (hd sample_batch)) = [''query_feat'', ''st_ed_indices'', ''video_feat'']"
    by (simp add: sample_batch_def sample_example_def)
  have k1: "map fst (model_inputs (sample_batch ! 1)) =
     [''query_feat'', ''st_ed_indices'', ''video_feat'', ''sub_feat'']"
    by (simp add: sample_batch_def sample_example_def)
  have d: "distinct (map fst (model_inputs (hd sample_batch)))"
    by (simp add: k)
  from t sample_collate d have "map fst sample_batched =
      filter (is_substr ''feat'') (map fst (model_inputs (hd sample_batch)))"
    by blast
  then have r: "map fst sample_batched = [''query_feat'', ''video_feat'']"
    by (simp add: k)
  have n: "\<not> is_substr ''feat'' ''st_ed_indices''"
    by simp
  from sample_collate k k1 d r n show ?thesis
    by blast
qed

text \<open>When collating returns: for every batch that can be collated.\<close>

lemma gather_nonempty: "gather batch k = Inr xs \<Longrightarrow> batch \<noteq> [] \<Longrightarrow> xs \<noteq> []"
  using gather_Inr [of batch k xs] by auto

lemma collate_keys_succeeds:
  "batch \<noteq> [] \<Longrightarrow> list_all (key_collatable batch) (filter (is_substr ''feat'') ks) \<Longrightarrow>
   \<exists>out. collate_keys batch ks acc = Inr out"
proof (induction ks arbitrary: acc)
  case Nil
  then show ?case by simp
next
  case (Cons k ks)
  show ?case
  proof (cases "is_substr ''feat'' k")
    case True
    with Cons.prems have kc: "key_collatable batch k"
      and rest: "list_all (key_collatable batch) (filter (is_substr ''feat'') ks)"
      by simp_all
    from kc obtain xs where g: "gather batch k = Inr xs"
      by (auto simp: key_collatable_def split: sum.splits)
    from gather_nonempty [OF g Cons.prems(1)] have ne: "xs \<noteq> []" .
    show ?thesis
    proof (cases "k = ''query_feat''")
      case q: True
      with kc g have "list_all (\<lambda>t. shape t \<noteq> [] \<and> tl (shape t) = tl (shape (hd xs))) xs"
        by (simp add: key_collatable_def)
      with ne obtain p m l where "pad_sequences_1d xs = Inr (p, m, l)"
        by (simp add: pad_sequences_1d_def Let_def)
      with g q Cons.IH [OF Cons.prems(1) rest] show ?thesis
        by simp
    next
      case q: False
      with kc g have "list_all (\<lambda>t. shape t = shape (hd xs) \<and> dev t = dev (hd xs)) xs"
        by (simp add: key_collatable_def)
      with ne obtain t where "torch_stack xs = Inr t"
        by (simp add: torch_stack_def)
      with g q True Cons.IH [OF Cons.prems(1) rest] show ?thesis
        by simp
    qed
  next
    case False
    then have "k \<noteq> ''query_feat''"
      using is_substr_query_feat by auto
    with False Cons.IH [OF Cons.prems(1)] Cons.prems(2) show ?thesis
      by simp
  qed
qed

lemma collate_succeeds:
  assumes "collatable batch"
  shows "\<exists>batched. retrieval_collate batch = Inr (map meta batch, batched)"
proof -
  from assms have ne: "batch \<noteq> []"
    and ks: "list_all (key_collatable batch)
        (filter (is_substr ''feat'') (map fst (model_inputs (hd batch))))"
    by (simp_all add: collatable_def)
  from collate_keys_succeeds [OF ne ks, of "[]"] obtain out where
    "collate_keys batch (map fst (model_inputs (hd batch))) [] = Inr out"
    by blast
  with ne show ?thesis
    by (simp add: retrieval_collate_def py_index_0)
qed

lemma sample_collatable: "collatable sample_batch"
  by (simp add: collatable_def key_collatable_def sample_batch_def sample_example_def
      from_numpy1_def from_numpy2_def)

subsection \<open>Moving to the device\<close>

lemma py_replace_query_feat: "py_replace ''feat'' ''mask'' ''query_feat'' = ''query_mask''"
  by (simp add: py_replace.simps)

lemma prepare_items_spec:
  assumes "distinct (map fst kvs)" and "''query_mask'' \<notin> fst ` set kvs"
    and "list_all (\<lambda>(k, v). case v of Padded p m l \<Rightarrow> k = ''query_feat''
                                     | Plain t \<Rightarrow> k \<noteq> ''query_feat'') kvs"
  shows "\<exists>out. prepare_items d kvs acc = Inr out \<and>
     (\<forall>k. k \<notin> fst ` set kvs \<and> (k = ''query_mask'' \<longrightarrow> ''query_feat'' \<notin> fst ` set kvs) \<longrightarrow>
          map_of out k = map_of acc k) \<and>
     (\<forall>p m l. (''query_feat'', Padded p m l) \<in> set kvs \<longrightarrow>
          map_of out ''query_feat'' = Some (to_device d p) \<and>
          map_of out ''query_mask'' = Some (to_device d m)) \<and>
     (\<forall>k t. (k, Plain t) \<in> set kvs \<longrightarrow> map_of out k = Some (to_device d t))"
  using assms
proof (induction kvs arbitrary: acc)
  case Nil
  then show ?case by simp
next
  case (Cons kv kvs)
  obtain k v where kv: "kv = (k, v)" by (cases kv)
  from Cons.prems kv have
    fresh: "k \<notin> fst ` set kvs" and d: "distinct (map fst kvs)"
    and nm: "''query_mask'' \<notin> fst ` set kvs" and km: "k \<noteq> ''query_mask''"
    and ty: "list_all (\<lambda>(k, v). case v of Padded p m l \<Rightarrow> k = ''query_feat''
                                      | Plain t \<Rightarrow> k \<noteq> ''query_feat'') kvs"
    and tk: "case v of Padded p m l \<Rightarrow> k = ''query_feat'' | Plain t \<Rightarrow> k \<noteq> ''query_feat''"
    by auto
  show ?case
  proof (cases v)
    case (Padded p m l)
    with tk have kq: "k = ''query_feat''" by simp
    let ?acc = "AList.update ''query_mask'' (to_device d m)
                  (AList.update ''query_feat'' (to_device d p) acc)"
    from Cons.IH [OF d nm ty, of ?acc] obtain out where
      r: "prepare_items d kvs ?acc = Inr out"
      and a: "\<forall>k. k \<notin> fst ` set kvs \<and> (k = ''query_mask'' \<longrightarrow> ''query_feat'' \<notin> fst ` set kvs) \<longrightarrow>
          map_of out k = map_of ?acc k"
      and b: "\<forall>p m l. (''query_feat'', Padded p m l) \<in> set kvs \<longrightarrow>
          map_of out ''query_feat'' = Some (to_device d p) \<and>
          map_of out ''query_mask'' = Some (to_device d m)"
      and c: "\<forall>k t. (k, Plain t) \<in> set kvs \<longrightarrow> map_of out k = Some (to_device d t)"
      by blast
    have step: "prepare_items d (kv # kvs) acc = Inr out"
      using r by (simp add: kv kq Padded bval_item_def py_replace_query_feat)
    have qf: "''query_feat'' \<notin> fst ` set kvs" using fresh kq by simp
    have o1: "map_of out ''query_feat'' = Some (to_device d p)"
      using a qf by (simp add: update_conv')
    have o2: "map_of out ''query_mask'' = Some (to_device d m)"
      using a qf nm by (simp add: update_conv')
    have nopad: "\<And>p' m' l'. (''query_feat'', Padded p' m' l') \<notin> set kvs"
      using qf by (auto simp: image_iff)
    show ?thesis
    proof (intro exI [of _ out] conjI allI impI)
      show "prepare_items d (kv # kvs) acc = Inr out" by (rule step)
    next
      fix k'
      assume h: "k' \<notin> fst ` set (kv # kvs) \<and>
        (k' = ''query_mask'' \<longrightarrow> ''query_feat'' \<notin> fst ` set (kv # kvs))"
      then have "k' \<noteq> ''query_feat''" "k' \<noteq> ''query_mask''" "k' \<notin> fst ` set kvs"
        using kv kq by auto
      with a show "map_of out k' = map_of acc k'"
        by (simp add: update_conv')
    next
      fix p' m' l'
      assume "(''query_feat'', Padded p' m' l') \<in> set (kv # kvs)"
      with nopad kv kq Padded have "p' = p \<and> m' = m" by auto
      with o1 show "map_of out ''query_feat'' = Some (to_device d p')" by simp
    next
      fix p' m' l'
      assume "(''query_feat'', Padded p' m' l') \<in> set (kv # kvs)"
      with nopad kv kq Padded have "p' = p \<and> m' = m" by auto
      with o2 show "map_of out ''query_mask'' = Some (to_device d m')" by simp
    next
      fix k' t
      assume "(k', Plain t) \<in> set (kv # kvs)"
      with kv Padded have "(k', Plain t) \<in> set kvs" by auto
      with c show "map_of out k' = Some (to_device d t)" by blast
    qed
  next
    case (Plain t)
    with tk have kq: "k \<noteq> ''query_feat''" by simp
    let ?acc = "AList.update k (to_device d t) acc"
    from Cons.IH [OF d nm ty, of ?acc] obtain out where
      r: "prepare_items d kvs ?acc = Inr out"
      and a: "\<forall>k. k \<notin> fst ` set kvs \<and> (k = ''query_mask'' \<longrightarrow> ''query_feat'' \<notin> fst ` set kvs) \<longrightarrow>
          map_of out k = map_of ?acc k"
      and b: "\<forall>p m l. (''query_feat'', Padded p m l) \<in> set kvs \<longrightarrow>
          map_of out ''query_feat'' = Some (to_device d p) \<and>
          map_of out ''query_mask'' = Some (to_device d m)"
      and c: "\<forall>k t. (k, Plain t) \<in> set kvs \<longrightarrow> map_of out k = Some (to_device d t)"
      by blast
    have step: "prepare_items d (kv # kvs) acc = Inr out"
      using r by (simp add: kv kq Plain)
    have o: "map_of out k = Some (to_device d t)"
      using a fresh km by (simp add: update_conv')
    show ?thesis
    proof (intro exI [of _ out] conjI allI impI)
      show "prepare_items d (kv # kvs) acc = Inr out" by (rule step)
    next
      fix k'
      assume h: "k' \<notin> fst ` set (kv # kvs) \<and>
        (k' = ''query_mask'' \<longrightarrow> ''query_feat'' \<notin> fst ` set (kv # kvs))"
      then have "k' \<noteq> k" "k' \<notin> fst ` set kvs" "k' = ''query_mask'' \<longrightarrow> ''query_feat'' \<notin> fst ` set kvs"
        using kv by auto
      with a show "map_of out k' = map_of acc k'"
        by (simp add: update_conv')
    next
      fix p' m' l'
      assume "(''query_feat'', Padded p' m' l') \<in> set (kv # kvs)"
      with kv Plain have "(''query_feat'', Padded p' m' l') \<in> set kvs" by auto
      with b show "map_of out ''query_feat'' = Some (to_device d p')" by blast
    next
      fix p' m' l'
      assume "(''query_feat'', Padded p' m' l') \<in> set (kv # kvs)"
      with kv Plain have "(''query_feat'', Padded p' m' l') \<in> set kvs" by auto
      with b show "map_of out ''query_mask'' = Some (to_device d m')" by blast
    next
      fix k' t'
      assume "(k', Plain t') \<in> set (kv # kvs)"
      then have "(k' = k \<and> t' = t) \<or> (k', Plain t') \<in> set kvs"
        using kv Plain by auto
      then show "map_of out k' = Some (to_device d t')"
        using o c by blast
    qed
  qed
qed

lemma prepare_batch_inputs_spec:
  assumes "wf_batched b"
  shows "\<exists>out. prepare_batch_inputs b d = Inr out \<and>
     (\<forall>p m l. map_of b ''query_feat'' = Some (Padded p m l) \<longrightarrow>
          map_of out ''query_feat'' = Some (to_device d p) \<and>
          map_of out (py_replace ''feat'' ''mask'' ''query_feat'') = Some (to_device d m)) \<and>
     (\<forall>k t. map_of b k = Some (Plain t) \<longrightarrow> k \<noteq> ''query_feat'' \<and> map_of out k = Some (to_device d t)) \<and>
     (\<forall>k. map_of b k = None \<and> (k = ''query_mask'' \<longrightarrow> map_of b ''query_feat'' = None) \<longrightarrow>
          map_of out k = None) \<and>
     py_replace ''feat'' ''mask'' ''query_feat'' = ''query_mask''"
proof -
  from assms have d: "distinct (map fst b)" and nm: "''query_mask'' \<notin> fst ` set b"
    and ty: "list_all (\<lambda>(k, v). case v of Padded p m l \<Rightarrow> k = ''query_feat''
                                      | Plain t \<Rightarrow> k \<noteq> ''query_feat'') b"
    by (simp_all add: wf_batched_def)
  from prepare_items_spec [OF d nm ty, of d "[]"] obtain out where
    r: "prepare_items d b [] = Inr out"
    and a: "\<forall>k. k \<notin> fst ` set b \<and> (k = ''query_mask'' \<longrightarrow> ''query_feat'' \<notin> fst ` set b) \<longrightarrow>
          map_of out k = map_of [] k"
    and p: "\<forall>p m l. (''query_feat'', Padded p m l) \<in> set b \<longrightarrow>
          map_of out ''query_feat'' = Some (to_device d p) \<and>
          map_of out ''query_mask'' = Some (to_device d m)"
    and c: "\<forall>k t. (k, Plain t) \<in> set b \<longrightarrow> map_of out k = Some (to_device d t)"
    by blast
  have mem: "\<And>k v. map_of b k = Some v \<Longrightarrow> (k, v) \<in> set b"
    by (rule map_of_SomeD)
  have none: "\<And>k. map_of b k = None \<Longrightarrow> k \<notin> fst ` set b"
    by (simp add: map_of_eq_None_iff)
  have pl: "\<And>k t. map_of b k = Some (Plain t) \<Longrightarrow> k \<noteq> ''query_feat''"
  proof -
    fix k t
    assume "map_of b k = Some (Plain t)"
    then have "(k, Plain t) \<in> set b" by (rule mem)
    with ty show "k \<noteq> ''query_feat''"
      by (auto simp: list_all_iff)
  qed
  show ?thesis
  proof (intro exI [of _ out] conjI allI impI)
    show "prepare_batch_inputs b d = Inr out"
      by (simp add: prepare_batch_inputs_def r)
  next
    fix p' m l
    assume "map_of b ''query_feat'' = Some (Padded p' m l)"
    with p mem show "map_of out ''query_feat'' = Some (to_device d p')" by blast
  next
    fix p' m l
    assume "map_of b ''query_feat'' = Some (Padded p' m l)"
    with p mem show "map_of out (py_replace ''feat'' ''mask'' ''query_feat'') = Some (to_device d m)"
      by (simp only: py_replace_query_feat) blast
  next
    fix k t
    assume "map_of b k = Some (Plain t)"
    then show "k \<noteq> ''query_feat''" by (rule pl)
  next
    fix k t
    assume "map_of b k = Some (Plain t)"
    with c mem show "map_of out k = Some (to_device d t)" by blast
  next
    fix k
    assume "map_of b k = None \<and> (k = ''query_mask'' \<longrightarrow> map_of b ''query_feat'' = None)"
    then have "k \<notin> fst ` set b \<and> (k = ''query_mask'' \<longrightarrow> ''query_feat'' \<notin> fst ` set b)"
      using none by blast
    with a show "map_of out k = None" by simp
  next
    show "py_replace ''feat'' ''mask'' ''query_feat'' = ''query_mask''"
      by (rule py_replace_query_feat)
  qed
qed


lemma collate_keys_distinct:
  "collate_keys batch ks acc = Inr out \<Longrightarrow> distinct (map fst acc) \<Longrightarrow> distinct (map fst out)"
proof (induction ks arbitrary: acc)
  case Nil
  then show ?case by simp
next
  case (Cons k ks)
  show ?case
  proof (cases "is_substr ''feat'' k")
    case True
    with Cons.prems(1) obtain v where
      r: "collate_keys batch ks (AList.update k v acc) = Inr out"
      by (auto split: sum.splits prod.splits if_splits)
    from Cons.prems(2) have "distinct (map fst (AList.update k v acc))"
      by (rule distinct_update)
    from Cons.IH [OF r this] show ?thesis .
  next
    case False
    then have "k \<noteq> ''query_feat''"
      using is_substr_query_feat by auto
    with False Cons.prems(1) have r: "collate_keys batch ks acc = Inr out"
      by simp
    from Cons.IH [OF r Cons.prems(2)] show ?thesis .
  qed
qed

lemma collate_wf_batched:
  assumes "retrieval_collate batch = Inr (metas, batched)"
  shows "wf_batched batched"
proof -
  note c = collate_Inr(3) [OF assms]
  have d: "distinct (map fst batched)"
    using collate_keys_distinct [OF c] by simp
  have "fst ` set batched \<subseteq> {k. is_substr ''feat'' k}"
    using collate_keys_dom [OF c] by auto
  moreover have "\<not> is_substr ''feat'' ''query_mask''"
    by simp
  ultimately have m: "''query_mask'' \<notin> fst ` set batched"
    by blast
  have e: "\<forall>k v. map_of batched k = Some v \<longrightarrow> entry_of batch k v"
    using collate_keys_entries [OF c] by simp
  have t: "list_all (\<lambda>(k, v). case v of Padded p m l \<Rightarrow> k = ''query_feat''
                                      | Plain t \<Rightarrow> k \<noteq> ''query_feat'') batched"
    unfolding list_all_iff
  proof
    fix kv
    assume kv: "kv \<in> set batched"
    obtain k v where p: "kv = (k, v)" by (cases kv)
    with kv d have "map_of batched k = Some v" by simp
    with e have "entry_of batch k v" by blast
    then show "case kv of (k, v) \<Rightarrow> (case v of Padded p m l \<Rightarrow> k = ''query_feat''
                                      | Plain t \<Rightarrow> k \<noteq> ''query_feat'')"
      using p entry_of_Plain entry_of_Padded by (cases v) auto
  qed
  from d m t show ?thesis
    by (simp add: wf_batched_def)
qed

text \<open>
  C8. For a batched dictionary as \<^verbatim>\<open>retrieval_collate\<close> returns it,
  \<^verbatim>\<open>prepare_batch_inputs\<close> returns a dictionary that has the padded query features, moved
  to the device, under \<^verbatim>\<open>query_feat\<close>, the mask, moved to the device, under the key that
  replacing \<^verbatim>\<open>feat\<close> by \<^verbatim>\<open>mask\<close> in \<^verbatim>\<open>query_feat\<close> gives, which is
  \<^verbatim>\<open>query_mask\<close>, every other tensor, moved to the device, under its own key, and no other
  key. The function is given the feature dictionary and the device only: the metadata is no
  argument of it and no part of its result.
\<close>

theorem prepare_batch_inputs_moves:
  "(wf_batched b \<longrightarrow>
      (\<exists>out. prepare_batch_inputs b d = Inr out \<and>
         (\<forall>p m l. map_of b ''query_feat'' = Some (Padded p m l) \<longrightarrow>
              map_of out ''query_feat'' = Some (to_device d p) \<and>
              map_of out (py_replace ''feat'' ''mask'' ''query_feat'') = Some (to_device d m)) \<and>
         (\<forall>k t. map_of b k = Some (Plain t) \<longrightarrow>
              k \<noteq> ''query_feat'' \<and> map_of out k = Some (to_device d t)) \<and>
         (\<forall>k. map_of b k = None \<and> (k = ''query_mask'' \<longrightarrow> map_of b ''query_feat'' = None) \<longrightarrow>
              map_of out k = None))) \<and>
   py_replace ''feat'' ''mask'' ''query_feat'' = ''query_mask'' \<and>
   (retrieval_collate batch = Inr (metas, batched) \<longrightarrow> wf_batched batched)"
proof (intro conjI impI)
  assume "wf_batched b"
  from prepare_batch_inputs_spec [OF this, of d]
  show "\<exists>out. prepare_batch_inputs b d = Inr out \<and>
         (\<forall>p m l. map_of b ''query_feat'' = Some (Padded p m l) \<longrightarrow>
              map_of out ''query_feat'' = Some (to_device d p) \<and>
              map_of out (py_replace ''feat'' ''mask'' ''query_feat'') = Some (to_device d m)) \<and>
         (\<forall>k t. map_of b k = Some (Plain t) \<longrightarrow>
              k \<noteq> ''query_feat'' \<and> map_of out k = Some (to_device d t)) \<and>
         (\<forall>k. map_of b k = None \<and> (k = ''query_mask'' \<longrightarrow> map_of b ''query_feat'' = None) \<longrightarrow>
              map_of out k = None)"
    by blast
next
  show "py_replace ''feat'' ''mask'' ''query_feat'' = ''query_mask''"
    by (rule py_replace_query_feat)
next
  assume "retrieval_collate batch = Inr (metas, batched)"
  then show "wf_batched batched"
    by (rule collate_wf_batched)
qed

theorem prepare_batch_inputs_moves_witness:
  "wf_batched sample_batched \<and>
   retrieval_collate sample_batch =
     Inr ([[(''desc_id'', JInt 5)], [(''desc_id'', JInt 9)], [(''desc_id'', JInt 3)]],
          sample_batched) \<and>
   prepare_batch_inputs sample_batched (CUDA 0) =
     Inr [(''query_feat'',
           \<lparr>dev = CUDA 0, shape = [3, 2, 1],
            body = Ar [Ar [Ar [Fl (Fin 5)], Ar [Fl (Fin 0)]],
                       Ar [Ar [Fl (Fin 9)], Ar [Fl (Fin 9)]],
                       Ar [Ar [Fl (Fin 3)], Ar [Fl (Fin 0)]]]\<rparr>),
          (''query_mask'',
           \<lparr>dev = CUDA 0, shape = [3, 2],
            body = Ar [Ar [Bo True, Bo False], Ar [Bo True, Bo True], Ar [Bo True, Bo False]]\<rparr>),
          (''video_feat'',
           \<lparr>dev = CUDA 0, shape = [3, 2],
            body = Ar [Ar [Fl (Fin 5), Fl (Fin 0)], Ar [Fl (Fin 9), Fl (Fin 0)],
                       Ar [Fl (Fin 3), Fl (Fin 0)]]\<rparr>)]"
proof -
  have w: "wf_batched sample_batched"
    by (simp add: wf_batched_def sample_batched_def)
  note t = prepare_batch_inputs_moves [of sample_batched "CUDA 0" sample_batch
      "[[(''desc_id'', JInt 5)], [(''desc_id'', JInt 9)], [(''desc_id'', JInt 3)]]" sample_batched]
  have e: "prepare_batch_inputs sample_batched (CUDA 0) =
     Inr [(''query_feat'',
           \<lparr>dev = CUDA 0, shape = [3, 2, 1],
            body = Ar [Ar [Ar [Fl (Fin 5)], Ar [Fl (Fin 0)]],
                       Ar [Ar [Fl (Fin 9)], Ar [Fl (Fin 9)]],
                       Ar [Ar [Fl (Fin 3)], Ar [Fl (Fin 0)]]]\<rparr>),
          (''query_mask'',
           \<lparr>dev = CUDA 0, shape = [3, 2],
            body = Ar [Ar [Bo True, Bo False], Ar [Bo True, Bo True], Ar [Bo True, Bo False]]\<rparr>),
          (''video_feat'',
           \<lparr>dev = CUDA 0, shape = [3, 2],
            body = Ar [Ar [Fl (Fin 5), Fl (Fin 0)], Ar [Fl (Fin 9), Fl (Fin 0)],
                       Ar [Fl (Fin 3), Fl (Fin 0)]]\<rparr>)]"
    by (simp add: prepare_batch_inputs_def sample_batched_def bval_item_def to_device_def
        py_replace_query_feat)
  from t w e sample_collate show ?thesis
    by blast
qed

end
